(* ===== verification/Prelude.thy ===== *)
theory Prelude
  imports Complex_Main "HOL-Library.Word" "HOL-Library.AList" "HOL-Library.Sublist"
begin

text \<open>
  Shared vocabulary of the development: the values and exceptions of Python the modelled code
  uses, decimal printing of integers, and the list lemmas several components need.

  A Python \<^verbatim>\<open>str\<close> is a \<^typ>\<open>string\<close>, so its characters are the code points below 256. A Python
  \<^verbatim>\<open>bytes\<close> value is a list of 8-bit words. An exception is a value of \<open>exn\<close>; a call that can raise
  returns a sum, \<open>Inl\<close> being the exception that propagates to the caller.
\<close>

section \<open>Automation shared by the components\<close>

text \<open>
  \<open>py_simps\<close> unfolds the result plumbing, \<open>op_defs\<close> the operations of a component and
  \<open>inv_intros\<close> collects the preservation lemmas of the invariants.
\<close>

named_theorems py_simps
named_theorems op_defs
named_theorems inv_intros

section \<open>Python values, exceptions and results\<close>

type_synonym bytes = "8 word list"

datatype pyobj = PNone | PStr string | PBytes bytes | PInt int

text \<open>
  \<open>BackendError\<close> stands for every exception that is neither of the three the code raises itself:
  an exception of a library a component calls.
\<close>

datatype exn =
    ValueError string
  | TypeError string
  | RuntimeError string
  | BackendError string

type_synonym 'a py = "exn + 'a"

definition py_bind :: "'a py \<Rightarrow> ('a \<Rightarrow> 'b py) \<Rightarrow> 'b py" where
  "py_bind r f = (case r of Inl e \<Rightarrow> Inl e | Inr x \<Rightarrow> f x)"

lemma py_bind_simps [simp]:
  "py_bind (Inl e) f = Inl e"
  "py_bind (Inr x) f = f x"
  by (simp_all add: py_bind_def)

lemma py_bind_Inr_right [simp]: "py_bind r Inr = r"
  by (cases r) simp_all

lemma py_bind_Inr_iff [py_simps]:
  "py_bind r f = Inr y \<longleftrightarrow> (\<exists>x. r = Inr x \<and> f x = Inr y)"
  by (cases r) simp_all

lemma py_bind_Inl_iff [py_simps]:
  "py_bind r f = Inl e \<longleftrightarrow> r = Inl e \<or> (\<exists>x. r = Inr x \<and> f x = Inl e)"
  by (cases r) simp_all

text \<open>Sequencing of stateful computations that may raise.\<close>

fun py_seq :: "('e + 'a) \<times> 'w \<Rightarrow> ('a \<Rightarrow> 'w \<Rightarrow> ('e + 'b) \<times> 'w) \<Rightarrow> ('e + 'b) \<times> 'w" where
  "py_seq (Inl e, w) f = (Inl e, w)"
| "py_seq (Inr x, w) f = f x w"

lemma py_seq_cases:
  "py_seq x f = (case fst x of Inl e \<Rightarrow> (Inl e, snd x) | Inr v \<Rightarrow> f v (snd x))"
  by (cases x; cases "fst x") auto

lemma py_seq_inv:
  assumes "Q (snd x)" "\<And>v w. x = (Inr v, w) \<Longrightarrow> Q w \<Longrightarrow> Q (snd (f v w))"
  shows "Q (snd (py_seq x f))"
  using assms by (cases x; cases "fst x") auto

lemma py_seq_Inr [py_simps]:
  "py_seq x f = (Inr y, w) \<longleftrightarrow> (\<exists>v w1. x = (Inr v, w1) \<and> f v w1 = (Inr y, w))"
  by (cases x; cases "fst x") auto

section \<open>Decimal integers\<close>

text \<open>\<open>str(n)\<close> of a non-negative integer, and its inverse on strings of digits.\<close>

definition digit_char :: "nat \<Rightarrow> char" where
  "digit_char d = char_of (48 + d)"

fun dec :: "nat \<Rightarrow> string" where
  "dec n = (if n < 10 then [digit_char n] else dec (n div 10) @ [digit_char (n mod 10)])"

declare dec.simps [simp del]

definition char_code :: "char \<Rightarrow> nat" where
  "char_code c = of_char c"

definition is_digit :: "char \<Rightarrow> bool" where
  "is_digit c \<longleftrightarrow> 48 \<le> char_code c \<and> char_code c \<le> 57"

definition undec :: "string \<Rightarrow> nat" where
  "undec s = foldl (\<lambda>acc c. 10 * acc + (char_code c - 48)) 0 s"

lemma char_code_digit: "d < 10 \<Longrightarrow> char_code (digit_char d) = 48 + d"
  by (simp add: char_code_def digit_char_def)

lemma is_digit_digit_char: "d < 10 \<Longrightarrow> is_digit (digit_char d)"
  by (simp add: is_digit_def char_code_digit)

lemma dec_nonempty [simp]: "dec n \<noteq> []"
  by (subst dec.simps) simp

lemma dec_digits: "list_all is_digit (dec n)"
proof (induction n rule: dec.induct)
  case (1 n)
  then show ?case
    by (subst dec.simps) (auto simp: is_digit_digit_char)
qed

lemma undec_snoc: "undec (s @ [c]) = 10 * undec s + (char_code c - 48)"
  by (simp add: undec_def)

lemma undec_dec [simp]: "undec (dec n) = n"
proof (induction n rule: dec.induct)
  case (1 n)
  show ?case
  proof (cases "n < 10")
    case True
    then show ?thesis
      by (subst dec.simps) (simp add: undec_def char_code_digit)
  next
    case False
    with 1 have "undec (dec (n div 10)) = n div 10" by simp
    with False show ?thesis
      by (subst dec.simps) (simp add: undec_snoc char_code_digit)
  qed
qed

lemma dec_inject [simp]: "dec m = dec n \<longleftrightarrow> m = n"
  by (metis undec_dec)

text \<open>\<open>str(n)\<close> of any integer.\<close>

definition dec_int :: "int \<Rightarrow> string" where
  "dec_int i = (if i < 0 then ''-'' @ dec (nat (- i)) else dec (nat i))"

text \<open>A field that ends at the first separator is determined by the text that follows it.\<close>

lemma split_at_separator:
  assumes "list_all P xs" "list_all P ys" "\<not> P c"
    and "xs @ c # us = ys @ c # vs"
  shows "xs = ys \<and> us = vs"
  using assms
proof (induction xs arbitrary: ys)
  case Nil
  then show ?case by (cases ys) auto
next
  case (Cons x xs)
  then show ?case by (cases ys) auto
qed

section \<open>Dropping from the front until a condition holds\<close>

text \<open>
  \<open>drop_until P xs\<close> is the longest suffix of \<open>xs\<close> that satisfies \<open>P\<close>, or the empty list
  when no suffix does: what remains of a queue after removing as few items as possible from its
  front to make \<open>P\<close> true.
\<close>

fun drop_until :: "('a list \<Rightarrow> bool) \<Rightarrow> 'a list \<Rightarrow> 'a list" where
  "drop_until P [] = []"
| "drop_until P (x # xs) = (if P (x # xs) then x # xs else drop_until P xs)"

lemma drop_until_suffix: "suffix (drop_until P xs) xs"
  by (induction xs) (auto intro: suffix_ConsI)

lemma drop_until_length: "length (drop_until P xs) \<le> length xs"
  by (rule suffix_length_le [OF drop_until_suffix])

lemma drop_until_holds: "P [] \<Longrightarrow> P (drop_until P xs)"
  by (induction xs) auto

lemma drop_until_id: "P xs \<Longrightarrow> drop_until P xs = xs"
  by (cases xs) auto

lemma drop_until_longest:
  "suffix ys xs \<Longrightarrow> P ys \<Longrightarrow> length ys \<le> length (drop_until P xs)"
proof (induction xs)
  case Nil
  then show ?case by simp
next
  case (Cons x xs)
  then show ?case by (auto simp: suffix_Cons dest: suffix_length_le)
qed

lemma drop_until_drop: "drop_until P xs = drop (length xs - length (drop_until P xs)) xs"
proof -
  obtain ps where "xs = ps @ drop_until P xs"
    using drop_until_suffix [of P xs] by (auto simp: suffix_def)
  then show ?thesis
    by (metis add_diff_cancel_right' append_eq_conv_conj length_append)
qed

lemma suffix_set: "suffix ys xs \<Longrightarrow> set ys \<subseteq> set xs"
  by (auto simp: suffix_def)

lemma suffix_distinct_map: "suffix ys xs \<Longrightarrow> distinct (map f xs) \<Longrightarrow> distinct (map f ys)"
  by (auto simp: suffix_def)

end
