(* ===== verification/Results.thy ===== *)
theory Results
  imports Prelude
begin

text \<open>
  The application results of \<^verbatim>\<open>tiny_cache/application/results.py\<close>: the write failures, the statuses
  of the unconditional and conditional writes, the snapshot \<^verbatim>\<open>stats\<close> returns, and the conversions
  between statuses. The constructors carry the enum they belong to as a prefix, because the three
  enums share member names.
\<close>

section \<open>Statuses\<close>

datatype cache_write_failure =
    Failure_VALUE_TOO_LARGE
  | Failure_CAPACITY_EXHAUSTED

datatype cache_set_status =
    Set_OK
  | Set_VALUE_TOO_LARGE
  | Set_CAPACITY_EXHAUSTED

datatype cache_conditional_set_status =
    Cond_STORED
  | Cond_EXISTS
  | Cond_NOT_FOUND
  | Cond_MISMATCH
  | Cond_VALUE_TOO_LARGE
  | Cond_CAPACITY_EXHAUSTED

text \<open>\<^verbatim>\<open>repr\<close> of a member, which the messages of the unreachable branches print.\<close>

fun repr_set_status :: "cache_set_status \<Rightarrow> string" where
  "repr_set_status Set_OK = ''<CacheSetStatus.OK: 'ok'>''"
| "repr_set_status Set_VALUE_TOO_LARGE = ''<CacheSetStatus.VALUE_TOO_LARGE: 'value_too_large'>''"
| "repr_set_status Set_CAPACITY_EXHAUSTED =
     ''<CacheSetStatus.CAPACITY_EXHAUSTED: 'capacity_exhausted'>''"

fun repr_write_failure :: "cache_write_failure \<Rightarrow> string" where
  "repr_write_failure Failure_VALUE_TOO_LARGE =
     ''<CacheWriteFailure.VALUE_TOO_LARGE: 'value_too_large'>''"
| "repr_write_failure Failure_CAPACITY_EXHAUSTED =
     ''<CacheWriteFailure.CAPACITY_EXHAUSTED: 'capacity_exhausted'>''"

section \<open>The statistics snapshot\<close>

record cache_stats_snapshot =
  st_size :: int
  st_hits :: int
  st_misses :: int
  st_evictions :: int
  st_lru_evictions :: int
  st_expired_removals :: int
  st_rejected_oversize :: int
  st_rejected_capacity :: int
  st_hit_rate :: real
  st_memory_usage_bytes :: int
  st_max_memory_bytes :: int
  st_max_value_bytes :: int
  st_max_items :: int

section \<open>Conversions\<close>

definition cache_write_failure_from_set_status ::
    "cache_set_status \<Rightarrow> cache_write_failure option py" where
  "cache_write_failure_from_set_status status =
     (if status = Set_OK then Inr None
      else if status = Set_VALUE_TOO_LARGE then Inr (Some Failure_VALUE_TOO_LARGE)
      else if status = Set_CAPACITY_EXHAUSTED then Inr (Some Failure_CAPACITY_EXHAUSTED)
      else Inl (RuntimeError (''Unsupported cache set status: '' @ repr_set_status status)))"

definition cache_write_failure_from_conditional_status ::
    "cache_conditional_set_status \<Rightarrow> cache_write_failure option" where
  "cache_write_failure_from_conditional_status status =
     (if status = Cond_VALUE_TOO_LARGE then Some Failure_VALUE_TOO_LARGE
      else if status = Cond_CAPACITY_EXHAUSTED then Some Failure_CAPACITY_EXHAUSTED
      else None)"

definition conditional_status_from_failure ::
    "cache_write_failure \<Rightarrow> cache_conditional_set_status py" where
  "conditional_status_from_failure failure =
     (if failure = Failure_VALUE_TOO_LARGE then Inr Cond_VALUE_TOO_LARGE
      else if failure = Failure_CAPACITY_EXHAUSTED then Inr Cond_CAPACITY_EXHAUSTED
      else Inl (RuntimeError
        (''Unsupported cache write failure: '' @ repr_write_failure failure)))"

definition conditional_status_from_set_status ::
    "cache_set_status \<Rightarrow> cache_conditional_set_status py" where
  "conditional_status_from_set_status status =
     py_bind (cache_write_failure_from_set_status status)
       (\<lambda>failure. case failure of
          None \<Rightarrow> Inr Cond_STORED
        | Some f \<Rightarrow> conditional_status_from_failure f)"

section \<open>What the conversions compute\<close>

text \<open>The status of a conditional write that went as far as the store of the value.\<close>

fun stored_status :: "cache_set_status \<Rightarrow> cache_conditional_set_status" where
  "stored_status Set_OK = Cond_STORED"
| "stored_status Set_VALUE_TOO_LARGE = Cond_VALUE_TOO_LARGE"
| "stored_status Set_CAPACITY_EXHAUSTED = Cond_CAPACITY_EXHAUSTED"

lemma write_failure_from_set_status [simp]:
  "cache_write_failure_from_set_status Set_OK = Inr None"
  "cache_write_failure_from_set_status Set_VALUE_TOO_LARGE = Inr (Some Failure_VALUE_TOO_LARGE)"
  "cache_write_failure_from_set_status Set_CAPACITY_EXHAUSTED =
     Inr (Some Failure_CAPACITY_EXHAUSTED)"
  by (simp_all add: cache_write_failure_from_set_status_def)

lemma conditional_status_from_failure_simps [simp]:
  "conditional_status_from_failure Failure_VALUE_TOO_LARGE = Inr Cond_VALUE_TOO_LARGE"
  "conditional_status_from_failure Failure_CAPACITY_EXHAUSTED = Inr Cond_CAPACITY_EXHAUSTED"
  by (simp_all add: conditional_status_from_failure_def)

lemma conditional_status_from_set_status_eq [simp]:
  "conditional_status_from_set_status st = Inr (stored_status st)"
  by (cases st) (simp_all add: conditional_status_from_set_status_def)

lemma stored_status_inject [simp]: "stored_status a = stored_status b \<longleftrightarrow> a = b"
  by (cases a; cases b) simp_all

lemma stored_status_iff [simp]:
  "stored_status st = Cond_STORED \<longleftrightarrow> st = Set_OK"
  "stored_status st \<noteq> Cond_EXISTS"
  "stored_status st \<noteq> Cond_NOT_FOUND"
  "stored_status st \<noteq> Cond_MISMATCH"
  "stored_status st = Cond_CAPACITY_EXHAUSTED \<longleftrightarrow> st = Set_CAPACITY_EXHAUSTED"
  "stored_status st = Cond_VALUE_TOO_LARGE \<longleftrightarrow> st = Set_VALUE_TOO_LARGE"
  by (cases st; simp)+

end
