(* ===== verification/Domain.thy ===== *)
theory Domain
  imports Prelude
begin

text \<open>
  The domain layer, \<^verbatim>\<open>tiny_cache/domain/\<close>: the constraints on keys and namespaces and the three
  validators. A validator takes any Python object, because its first guard is an
  \<^verbatim>\<open>isinstance\<close> check, and returns the exception it raises or its result.
\<close>

section \<open>Constraints\<close>

definition MAX_KEY_LENGTH :: nat where
  "MAX_KEY_LENGTH = 256"

definition MAX_NAMESPACE_LENGTH :: nat where
  "MAX_NAMESPACE_LENGTH = 64"

section \<open>Validators\<close>

definition validate_key :: "pyobj \<Rightarrow> unit py" where
  "validate_key key =
     (case key of
        PStr k \<Rightarrow>
          if k = [] then Inl (ValueError ''Key cannot be empty'')
          else if length k > MAX_KEY_LENGTH
            then Inl (ValueError (''Key is too long (max '' @ dec MAX_KEY_LENGTH @ '')''))
          else Inr ()
      | _ \<Rightarrow> Inl (TypeError ''Key must be a string''))"

text \<open>\<^verbatim>\<open>str.strip()\<close>: the white space below code point 256 is removed from both ends.\<close>

definition is_space :: "char \<Rightarrow> bool" where
  "is_space c \<longleftrightarrow>
     (let n = char_code c
      in (9 \<le> n \<and> n \<le> 13) \<or> (28 \<le> n \<and> n \<le> 32) \<or> n = 133 \<or> n = 160)"

definition strip :: "string \<Rightarrow> string" where
  "strip s = rev (dropWhile is_space (rev (dropWhile is_space s)))"

text \<open>The pattern \<^verbatim>\<open>^[A-Za-z0-9][A-Za-z0-9_.-]*$\<close> under \<^verbatim>\<open>fullmatch\<close>.\<close>

definition is_alnum :: "char \<Rightarrow> bool" where
  "is_alnum c \<longleftrightarrow>
     (let n = char_code c
      in (65 \<le> n \<and> n \<le> 90) \<or> (97 \<le> n \<and> n \<le> 122) \<or> (48 \<le> n \<and> n \<le> 57))"

definition is_namespace_char :: "char \<Rightarrow> bool" where
  "is_namespace_char c \<longleftrightarrow> is_alnum c \<or> c = CHR ''_'' \<or> c = CHR ''.'' \<or> c = CHR ''-''"

definition namespace_pattern_fullmatch :: "string \<Rightarrow> bool" where
  "namespace_pattern_fullmatch s =
     (case s of [] \<Rightarrow> False | c # cs \<Rightarrow> is_alnum c \<and> list_all is_namespace_char cs)"

definition validate_namespace :: "pyobj \<Rightarrow> string option py" where
  "validate_namespace namespace =
     (case namespace of
        PNone \<Rightarrow> Inr None
      | PStr ns \<Rightarrow>
          (let normalized = strip ns
           in if normalized = [] then Inr None
              else if length normalized > MAX_NAMESPACE_LENGTH
                then Inl (ValueError
                  (''Namespace is too long (max '' @ dec MAX_NAMESPACE_LENGTH @ '')''))
              else if \<not> namespace_pattern_fullmatch normalized
                then Inl (ValueError
                  ''Namespace must contain only letters, numbers, dots, dashes, or underscores'')
              else Inr (Some normalized))
      | _ \<Rightarrow> Inl (TypeError ''Namespace must be a string''))"

definition validate_value :: "pyobj \<Rightarrow> unit py" where
  "validate_value v =
     (case v of PBytes b \<Rightarrow> Inr () | _ \<Rightarrow> Inl (TypeError ''Cache value must be bytes''))"

text \<open>An optional namespace as the object the validator receives.\<close>

definition py_opt_str :: "string option \<Rightarrow> pyobj" where
  "py_opt_str x = (case x of None \<Rightarrow> PNone | Some s \<Rightarrow> PStr s)"

section \<open>What the validators accept\<close>

definition valid_key :: "string \<Rightarrow> bool" where
  "valid_key k \<longleftrightarrow> k \<noteq> [] \<and> length k \<le> 256"

definition valid_namespace :: "string \<Rightarrow> bool" where
  "valid_namespace n \<longleftrightarrow> length n \<le> 64 \<and> namespace_pattern_fullmatch n"

lemma validate_key_cases:
  "validate_key (PStr k) =
     (if valid_key k then Inr ()
      else if k = [] then Inl (ValueError ''Key cannot be empty'')
      else Inl (ValueError (''Key is too long (max '' @ dec 256 @ '')'')))"
  by (simp add: validate_key_def valid_key_def MAX_KEY_LENGTH_def)

text \<open>The error of an invalid key.\<close>

definition key_error :: "string \<Rightarrow> exn" where
  "key_error k = ValueError
     (if k = [] then ''Key cannot be empty'' else ''Key is too long (max '' @ dec 256 @ '')'')"

lemma validate_key_invalid [simp]: "\<not> valid_key k \<Longrightarrow> validate_key (PStr k) = Inl (key_error k)"
  by (simp add: validate_key_cases key_error_def)

lemma validate_key_valid [simp]: "valid_key k \<Longrightarrow> validate_key (PStr k) = Inr ()"
  by (simp add: validate_key_cases)

lemma validate_key_Inr_iff [simp]: "validate_key (PStr k) = Inr u \<longleftrightarrow> valid_key k"
  by (simp add: validate_key_cases)

lemma validate_key_Inl:
  "validate_key (PStr k) = Inl e \<Longrightarrow> \<not> valid_key k \<and> (\<exists>m. e = ValueError m)"
  by (auto simp: validate_key_cases split: if_splits)

lemma validate_value_bytes [simp]: "validate_value (PBytes b) = Inr ()"
  by (simp add: validate_value_def)

lemma namespace_char_not_space: "is_namespace_char c \<Longrightarrow> \<not> is_space c"
  by (auto simp: is_namespace_char_def is_alnum_def is_space_def Let_def char_code_def)

lemma alnum_namespace_char: "is_alnum c \<Longrightarrow> is_namespace_char c"
  by (simp add: is_namespace_char_def)

lemma namespace_pattern_chars:
  "namespace_pattern_fullmatch s \<Longrightarrow> s \<noteq> [] \<and> list_all is_namespace_char s"
  by (cases s) (auto simp: namespace_pattern_fullmatch_def alnum_namespace_char)

lemma strip_id:
  assumes "list_all (\<lambda>c. \<not> is_space c) s"
  shows "strip s = s"
proof -
  have "dropWhile is_space t = t" if "list_all (\<lambda>c. \<not> is_space c) t" for t
    using that by (cases t) auto
  with assms show ?thesis by (simp add: strip_def)
qed

lemma strip_namespace: "namespace_pattern_fullmatch s \<Longrightarrow> strip s = s"
  by (rule strip_id) (auto dest!: namespace_pattern_chars simp: list_all_iff namespace_char_not_space)

lemma validate_namespace_None [simp]: "validate_namespace PNone = Inr None"
  by (simp add: validate_namespace_def)

lemma validate_namespace_valid:
  "valid_namespace n \<Longrightarrow> validate_namespace (PStr n) = Inr (Some n)"
  using namespace_pattern_chars [of n]
  by (auto simp: validate_namespace_def valid_namespace_def strip_namespace MAX_NAMESPACE_LENGTH_def)

lemma validate_namespace_Some:
  "validate_namespace (PStr s) = Inr (Some n) \<Longrightarrow> n = strip s \<and> valid_namespace n"
  by (auto simp: validate_namespace_def valid_namespace_def MAX_NAMESPACE_LENGTH_def Let_def
      split: if_splits)

lemma validate_namespace_opt_Some:
  "validate_namespace (py_opt_str x) = Inr (Some n) \<Longrightarrow> valid_namespace n"
  by (auto simp: py_opt_str_def dest: validate_namespace_Some split: option.splits)

lemma validate_namespace_opt_Inl:
  "validate_namespace (py_opt_str x) = Inl e \<Longrightarrow> \<exists>m. e = ValueError m"
  by (auto simp: py_opt_str_def validate_namespace_def Let_def split: option.splits if_splits)

end
