(* ===== verification/StoreModels.thy ===== *)
theory StoreModels
  imports Domain
begin

text \<open>
  \<^verbatim>\<open>tiny_cache/infrastructure/memory_store_models.py\<close>: the cache entry, the limits a backend
  resolves at construction, and the attributes both backends have in common. Time is a real number
  of seconds; the injected clock is the sequence of the values its successive calls return, of
  which \<open>clock_reads\<close> have been consumed.
\<close>

section \<open>Defaults\<close>

definition DEFAULT_MAX_ITEMS :: int where
  "DEFAULT_MAX_ITEMS = 1000"

definition DEFAULT_MAX_MEMORY_MB :: int where
  "DEFAULT_MAX_MEMORY_MB = 100"

definition DEFAULT_CLEANUP_INTERVAL :: int where
  "DEFAULT_CLEANUP_INTERVAL = 10"

section \<open>Cache entries\<close>

text \<open>
  \<^verbatim>\<open>sys.getsizeof\<close> of a \<^verbatim>\<open>bytes\<close> object on 64-bit CPython: a header of 33 bytes (the terminating
  zero byte included) plus the contents.
\<close>

definition sys_getsizeof :: "bytes \<Rightarrow> int" where
  "sys_getsizeof v = 33 + int (length v)"

record cache_entry =
  e_value :: bytes
  e_ttl :: "int option"
  e_created_at :: real
  e_size_bytes :: int

text \<open>
  The constructor. \<open>monotonic\<close> is what \<^verbatim>\<open>time.monotonic()\<close> would return; it is used when no
  creation time is given. The value setter's type check succeeds on every \<^typ>\<open>bytes\<close>.
\<close>

definition cache_entry_init ::
    "real \<Rightarrow> bytes \<Rightarrow> int option \<Rightarrow> real option \<Rightarrow> cache_entry" where
  "cache_entry_init monotonic value ttl created_at =
     \<lparr> e_value = value,
       e_ttl = (case ttl of None \<Rightarrow> None | Some t \<Rightarrow> if t \<le> 0 then None else Some t),
       e_created_at = (case created_at of None \<Rightarrow> monotonic | Some t \<Rightarrow> t),
       e_size_bytes = sys_getsizeof value \<rparr>"

abbreviation new_entry :: "bytes \<Rightarrow> int option \<Rightarrow> real \<Rightarrow> cache_entry" where
  "new_entry value ttl now \<equiv> cache_entry_init now value ttl (Some now)"

lemma cache_entry_init_simps [simp]:
  "e_value (cache_entry_init m v ttl c) = v"
  "e_size_bytes (cache_entry_init m v ttl c) = sys_getsizeof v"
  "e_created_at (cache_entry_init m v ttl (Some now)) = now"
  by (simp_all add: cache_entry_init_def)

lemma sys_getsizeof_pos [simp]: "0 < sys_getsizeof v"
  by (simp add: sys_getsizeof_def)

lemma e_ttl_init_positive: "e_ttl (cache_entry_init m v ttl c) = Some t \<Longrightarrow> 0 < t \<and> ttl = Some t"
  by (auto simp: cache_entry_init_def split: option.splits if_splits)

lemma e_ttl_init_None:
  "e_ttl (cache_entry_init m v ttl c) = None \<longleftrightarrow> (\<forall>t. ttl = Some t \<longrightarrow> t \<le> 0)"
  by (auto simp: cache_entry_init_def split: option.splits)

text \<open>An entry is expired at time \<open>now\<close> when its age has reached its ttl.\<close>

definition expired_at :: "real \<Rightarrow> cache_entry \<Rightarrow> bool" where
  "expired_at now e =
     (case e_ttl e of None \<Rightarrow> False | Some t \<Rightarrow> now - e_created_at e \<ge> of_int t)"

lemma expired_at_mono: "expired_at t e \<Longrightarrow> t \<le> t' \<Longrightarrow> expired_at t' e"
  by (auto simp: expired_at_def split: option.splits)

section \<open>Limits\<close>

record cache_store_limits =
  lim_max_items :: int
  lim_max_memory_bytes :: int
  lim_max_value_bytes :: int
  lim_cleanup_interval :: int

definition limit_error :: "string \<Rightarrow> int \<Rightarrow> exn" where
  "limit_error name got = ValueError (name @ '' must be >= 1, got '' @ dec_int got)"

definition cache_store_limits_resolve ::
    "int option \<Rightarrow> int option \<Rightarrow> int option \<Rightarrow> int option \<Rightarrow> cache_store_limits py" where
  "cache_store_limits_resolve p_max_items p_max_memory_mb p_cleanup_interval p_max_value_bytes =
     (let resolved_max_items =
            (case p_max_items of None \<Rightarrow> DEFAULT_MAX_ITEMS | Some n \<Rightarrow> n)
      in if resolved_max_items < 1 then Inl (limit_error ''max_items'' resolved_max_items)
      else let resolved_max_memory_mb =
            (case p_max_memory_mb of None \<Rightarrow> DEFAULT_MAX_MEMORY_MB | Some n \<Rightarrow> n)
      in if resolved_max_memory_mb < 1
         then Inl (limit_error ''max_memory_mb'' resolved_max_memory_mb)
      else let resolved_cleanup_interval =
            (case p_cleanup_interval of None \<Rightarrow> DEFAULT_CLEANUP_INTERVAL | Some n \<Rightarrow> n)
      in if resolved_cleanup_interval < 1
         then Inl (limit_error ''cleanup_interval'' resolved_cleanup_interval)
      else let resolved_max_memory_bytes = resolved_max_memory_mb * 1024 * 1024;
               resolved_max_value_bytes =
            (case p_max_value_bytes of None \<Rightarrow> resolved_max_memory_bytes | Some n \<Rightarrow> n)
      in if resolved_max_value_bytes < 1
         then Inl (limit_error ''max_value_bytes'' resolved_max_value_bytes)
      else Inr \<lparr> lim_max_items = resolved_max_items,
                 lim_max_memory_bytes = resolved_max_memory_bytes,
                 lim_max_value_bytes = min resolved_max_value_bytes resolved_max_memory_bytes,
                 lim_cleanup_interval = resolved_cleanup_interval \<rparr>)"

definition limits_wf :: "cache_store_limits \<Rightarrow> bool" where
  "limits_wf l \<longleftrightarrow>
     1 \<le> lim_max_items l \<and> 1 \<le> lim_cleanup_interval l \<and>
     1 \<le> lim_max_value_bytes l \<and> lim_max_value_bytes l \<le> lim_max_memory_bytes l"

lemma limits_resolve_wf:
  "cache_store_limits_resolve mi mm ci mv = Inr l \<Longrightarrow> limits_wf l"
  by (auto simp: cache_store_limits_resolve_def limits_wf_def Let_def split: if_splits)

lemma limits_resolve_error:
  "cache_store_limits_resolve mi mm ci mv = Inl e \<Longrightarrow> \<exists>m. e = ValueError m"
  by (auto simp: cache_store_limits_resolve_def limit_error_def Let_def split: if_splits)

section \<open>The attributes both backends keep\<close>

record store_state =
  max_items :: int
  max_memory_bytes :: int
  max_value_bytes :: int
  cleanup_interval :: int
  current_memory_bytes :: int
  hits :: int
  misses :: int
  evictions :: int
  lru_evictions :: int
  expired_removals :: int
  rejected_oversize :: int
  rejected_capacity :: int
  clock :: "nat \<Rightarrow> real"
  clock_reads :: nat

text \<open>One call of \<^verbatim>\<open>self._clock()\<close>.\<close>

definition read_clock :: "'a store_state_scheme \<Rightarrow> real \<times> 'a store_state_scheme" where
  "read_clock s = (clock s (clock_reads s), s\<lparr>clock_reads := Suc (clock_reads s)\<rparr>)"

definition next_reading :: "'a store_state_scheme \<Rightarrow> real" where
  "next_reading s = clock s (clock_reads s)"

text \<open>The part of the invariant about the attributes common to both backends.\<close>

definition state_wf :: "'a store_state_scheme \<Rightarrow> bool" where
  "state_wf s \<longleftrightarrow>
     1 \<le> max_items s \<and> 1 \<le> max_value_bytes s \<and> max_value_bytes s \<le> max_memory_bytes s \<and>
     0 \<le> hits s \<and> 0 \<le> misses s \<and> 0 \<le> lru_evictions s \<and> evictions s = lru_evictions s \<and>
     0 \<le> expired_removals s \<and> 0 \<le> rejected_oversize s \<and> 0 \<le> rejected_capacity s"

section \<open>The operations of a backend\<close>

text \<open>
  What a client or the cleanup thread can ask of a backend: the methods of the port, \<^verbatim>\<open>clear\<close> and the
  removal callback.
\<close>

datatype store_op =
    Op_get string
  | Op_set string bytes "int option"
  | Op_set_if_absent string bytes "int option"
  | Op_compare_and_set string bytes bytes "int option"
  | Op_delete string
  | Op_stats
  | Op_clear
  | Op_remove_if_expired string

end
