(* ===== verification/Port.thy ===== *)
theory Port
  imports Results StoreModels
begin

text \<open>
  The cache backend port, \<^verbatim>\<open>CacheStorePort\<close> of \<^verbatim>\<open>tiny_cache/application/ports.py\<close>: the operations the
  application calls on a backend, as a record, and the contract every backend fulfils, as a locale.
  \<open>content s k\<close> is the value a backend has stored under \<open>k\<close>, expired or not: a backend may
  drop a value at any operation that touches its key (expiry) or stores another one (eviction), but
  it never shows a value other than the one last stored.
\<close>

record 's cache_port =
  port_get :: "string \<Rightarrow> 's \<Rightarrow> bytes option py \<times> 's"
  port_set :: "string \<Rightarrow> bytes \<Rightarrow> int option \<Rightarrow> 's \<Rightarrow> cache_set_status py \<times> 's"
  port_set_if_absent ::
    "string \<Rightarrow> bytes \<Rightarrow> int option \<Rightarrow> 's \<Rightarrow> cache_conditional_set_status py \<times> 's"
  port_compare_and_set ::
    "string \<Rightarrow> bytes \<Rightarrow> bytes \<Rightarrow> int option \<Rightarrow> 's \<Rightarrow> cache_conditional_set_status py \<times> 's"
  port_delete :: "string \<Rightarrow> 's \<Rightarrow> bool py \<times> 's"
  port_stats :: "'s \<Rightarrow> cache_stats_snapshot py \<times> 's"

text \<open>The values of all keys but \<open>k\<close> are the same or gone.\<close>

definition others_shrink :: "string \<Rightarrow> (string \<Rightarrow> bytes option) \<Rightarrow> (string \<Rightarrow> bytes option) \<Rightarrow> bool" where
  "others_shrink k c c' \<longleftrightarrow> (\<forall>k'. k' \<noteq> k \<longrightarrow> c' k' = None \<or> c' k' = c k')"

lemma others_shrink_refl [simp]: "others_shrink k c c"
  by (simp add: others_shrink_def)

lemma others_shrink_upd [simp]: "others_shrink k c (c(k := x))"
  by (simp add: others_shrink_def)

lemma others_shrinkD: "others_shrink k c c' \<Longrightarrow> k' \<noteq> k \<Longrightarrow> c' k' = None \<or> c' k' = c k'"
  by (simp add: others_shrink_def)

locale cache_backend =
  fixes P :: "'s cache_port"
    and inv :: "'s \<Rightarrow> bool"
    and content :: "'s \<Rightarrow> string \<Rightarrow> bytes option"
  assumes get_invalid: "\<not> valid_key k \<Longrightarrow> port_get P k s = (Inl (key_error k), s)"
    and set_invalid: "\<not> valid_key k \<Longrightarrow> port_set P k v ttl s = (Inl (key_error k), s)"
    and set_if_absent_invalid: "\<not> valid_key k \<Longrightarrow> port_set_if_absent P k v ttl s = (Inl (key_error k), s)"
    and compare_and_set_invalid:
      "\<not> valid_key k \<Longrightarrow> port_compare_and_set P k x v ttl s = (Inl (key_error k), s)"
    and delete_invalid: "\<not> valid_key k \<Longrightarrow> port_delete P k s = (Inl (key_error k), s)"
    and get_law: "inv s \<Longrightarrow> valid_key k \<Longrightarrow> \<exists>v s'. port_get P k s = (Inr v, s') \<and> inv s' \<and>
      (v = None \<and> content s' = (content s)(k := None) \<or> v = content s k \<and> content s' = content s)"
    and set_law: "inv s \<Longrightarrow> valid_key k \<Longrightarrow> \<exists>st s'. port_set P k v ttl s = (Inr st, s') \<and> inv s' \<and>
      (st = Set_OK \<and> content s' k = Some v \<and> others_shrink k (content s) (content s') \<or>
       st \<noteq> Set_OK \<and> content s' = content s)"
    and set_if_absent_law: "inv s \<Longrightarrow> valid_key k \<Longrightarrow>
      \<exists>st s'. port_set_if_absent P k v ttl s = (Inr st, s') \<and> inv s' \<and>
      (st = Cond_STORED \<and> content s' k = Some v \<and> others_shrink k (content s) (content s') \<or>
       st = Cond_EXISTS \<and> content s k \<noteq> None \<and> content s' = content s \<or>
       st \<in> {Cond_VALUE_TOO_LARGE, Cond_CAPACITY_EXHAUSTED} \<and> content s' = (content s)(k := None))"
    and compare_and_set_law: "inv s \<Longrightarrow> valid_key k \<Longrightarrow>
      \<exists>st s'. port_compare_and_set P k x v ttl s = (Inr st, s') \<and> inv s' \<and>
      (st = Cond_STORED \<and> content s k = Some x \<and> content s' k = Some v \<and>
         others_shrink k (content s) (content s') \<or>
       st = Cond_MISMATCH \<and> (\<exists>w. content s k = Some w \<and> w \<noteq> x) \<and> content s' = content s \<or>
       st = Cond_NOT_FOUND \<and> content s' = (content s)(k := None) \<or>
       st \<in> {Cond_VALUE_TOO_LARGE, Cond_CAPACITY_EXHAUSTED} \<and> content s k = Some x \<and>
         content s' = content s)"
    and delete_law: "inv s \<Longrightarrow> valid_key k \<Longrightarrow> \<exists>s'. port_delete P k s = (Inr (content s k \<noteq> None), s') \<and>
      inv s' \<and> content s' = (content s)(k := None)"
    and stats_law: "inv s \<Longrightarrow> \<exists>st s'. port_stats P s = (Inr st, s') \<and> inv s' \<and>
      (\<forall>k. content s' k = None \<or> content s' k = content s k)"

end
