(* ===== verification/Service.thy ===== *)
theory Service
  imports Port
begin

text \<open>
  The application service, \<^verbatim>\<open>CacheApplicationService\<close> of \<^verbatim>\<open>tiny_cache/application/service.py\<close>: it
  validates, maps a key and an optional namespace to one storage key, normalises the ttl and calls
  the port. The service holds no state of its own; the state is the backend's.
\<close>

section \<open>Storage keys\<close>

definition storage_key :: "string \<Rightarrow> string option \<Rightarrow> string py" where
  "storage_key key namespace =
     py_bind (validate_key (PStr key)) (\<lambda>_.
     py_bind (validate_namespace (py_opt_str namespace)) (\<lambda>normalized_namespace.
       (case normalized_namespace of
          None \<Rightarrow> Inr key
        | Some n \<Rightarrow>
            (let sk = dec (length n) @ '':'' @ n @ '':'' @ key
             in if length sk > MAX_KEY_LENGTH
                then Inl (ValueError
                  (''Namespaced key is too long '' @
                   ''(max storage key length '' @ dec MAX_KEY_LENGTH @ ''; '' @
                   ''namespace prefix adds '' @ dec (length sk - length key) @ '' characters)''))
                else Inr sk))))"

section \<open>Operations\<close>

definition normalize_ttl :: "int \<Rightarrow> int option" where
  "normalize_ttl ttl_seconds = (if ttl_seconds > 0 then Some ttl_seconds else None)"

definition svc_get ::
    "'s cache_port \<Rightarrow> string \<Rightarrow> string option \<Rightarrow> 's \<Rightarrow> bytes option py \<times> 's" where
  "svc_get P key namespace s =
     (case storage_key key namespace of Inl e \<Rightarrow> (Inl e, s) | Inr sk \<Rightarrow> port_get P sk s)"

definition svc_set ::
    "'s cache_port \<Rightarrow> string \<Rightarrow> bytes \<Rightarrow> int \<Rightarrow> string option \<Rightarrow> 's \<Rightarrow> cache_set_status py \<times> 's" where
  "svc_set P key value ttl_seconds namespace s =
     (case validate_value (PBytes value) of
        Inl e \<Rightarrow> (Inl e, s)
      | Inr _ \<Rightarrow>
          (case storage_key key namespace of
             Inl e \<Rightarrow> (Inl e, s)
           | Inr sk \<Rightarrow> port_set P sk value (normalize_ttl ttl_seconds) s))"

definition svc_set_if_absent ::
    "'s cache_port \<Rightarrow> string \<Rightarrow> bytes \<Rightarrow> int \<Rightarrow> string option \<Rightarrow> 's
      \<Rightarrow> cache_conditional_set_status py \<times> 's" where
  "svc_set_if_absent P key value ttl_seconds namespace s =
     (case validate_value (PBytes value) of
        Inl e \<Rightarrow> (Inl e, s)
      | Inr _ \<Rightarrow>
          (case storage_key key namespace of
             Inl e \<Rightarrow> (Inl e, s)
           | Inr sk \<Rightarrow> port_set_if_absent P sk value (normalize_ttl ttl_seconds) s))"

definition svc_compare_and_set ::
    "'s cache_port \<Rightarrow> string \<Rightarrow> bytes \<Rightarrow> bytes \<Rightarrow> int \<Rightarrow> string option \<Rightarrow> 's
      \<Rightarrow> cache_conditional_set_status py \<times> 's" where
  "svc_compare_and_set P key expected_value value ttl_seconds namespace s =
     (case py_bind (validate_value (PBytes expected_value)) (\<lambda>_. validate_value (PBytes value)) of
        Inl e \<Rightarrow> (Inl e, s)
      | Inr _ \<Rightarrow>
          (case storage_key key namespace of
             Inl e \<Rightarrow> (Inl e, s)
           | Inr sk \<Rightarrow> port_compare_and_set P sk expected_value value (normalize_ttl ttl_seconds) s))"

definition svc_delete :: "'s cache_port \<Rightarrow> string \<Rightarrow> string option \<Rightarrow> 's \<Rightarrow> bool py \<times> 's" where
  "svc_delete P key namespace s =
     (case storage_key key namespace of Inl e \<Rightarrow> (Inl e, s) | Inr sk \<Rightarrow> port_delete P sk s)"

definition svc_stats :: "'s cache_port \<Rightarrow> 's \<Rightarrow> cache_stats_snapshot py \<times> 's" where
  "svc_stats P s = port_stats P s"

section \<open>Facts about storage keys\<close>

definition namespaced_key :: "string \<Rightarrow> string \<Rightarrow> string" where
  "namespaced_key n key = dec (length n) @ '':'' @ n @ '':'' @ key"

lemma storage_key_cases:
  "storage_key key namespace =
     (if \<not> valid_key key then Inl (key_error key)
      else case validate_namespace (py_opt_str namespace) of
             Inl e \<Rightarrow> Inl e
           | Inr None \<Rightarrow> Inr key
           | Inr (Some n) \<Rightarrow>
               if length (namespaced_key n key) > 256
               then Inl (ValueError
                  (''Namespaced key is too long (max storage key length '' @ dec 256 @
                   ''; namespace prefix adds '' @ dec (length (namespaced_key n key) - length key) @
                   '' characters)''))
               else Inr (namespaced_key n key))"
  by (simp add: storage_key_def namespaced_key_def MAX_KEY_LENGTH_def Let_def
      split: sum.splits option.splits)

lemma storage_key_valid: "storage_key key namespace = Inr sk \<Longrightarrow> valid_key sk"
  by (auto simp: storage_key_cases valid_key_def namespaced_key_def
      split: if_splits sum.splits option.splits)

lemma storage_key_Inl: "storage_key key namespace = Inl e \<Longrightarrow> \<exists>m. e = ValueError m"
  by (auto simp: storage_key_cases key_error_def dest: validate_namespace_opt_Inl
      split: if_splits sum.splits option.splits)

lemma digit_not_colon: "list_all is_digit s \<Longrightarrow> list_all (\<lambda>c. c \<noteq> CHR '':'') s"
  by (induction s) (auto simp: is_digit_def char_code_def)

lemma namespaced_key_inject:
  assumes "namespaced_key n k = namespaced_key n' k'"
  shows "n = n' \<and> k = k'"
proof -
  have "dec (length n) = dec (length n') \<and> n @ '':'' @ k = n' @ '':'' @ k'"
    using assms digit_not_colon [OF dec_digits]
    by (intro split_at_separator [where P = "\<lambda>c. c \<noteq> CHR '':''" and c = "CHR '':''"])
       (auto simp: namespaced_key_def)
  then show ?thesis by auto
qed

text \<open>
  C14: namespaces are isolated from each other. Two requests whose namespaces both survive
  normalisation reach the same storage key only when the normalised namespaces and the keys are the
  same: the length prefix makes the encoding unambiguous although keys may contain colons.
\<close>

theorem storage_key_injective:
  assumes "storage_key k ns = Inr sk" "storage_key k' ns' = Inr sk"
    and "validate_namespace (py_opt_str ns) = Inr (Some n)"
    and "validate_namespace (py_opt_str ns') = Inr (Some n')"
  shows "n = n' \<and> k = k'"
  using assms by (auto simp: storage_key_cases dest: namespaced_key_inject split: if_splits)

lemma valid_namespace_team [simp]: "valid_namespace ''team''" "valid_namespace ''a''"
  by (simp_all add: valid_namespace_def namespace_pattern_fullmatch_def is_alnum_def
      is_namespace_char_def char_code_def)

lemma dec_sample [simp]: "dec (Suc 0) = ''1''" "dec (Suc (Suc (Suc (Suc 0)))) = ''4''"
  by code_simp+

lemma namespaced_key_sample:
  "namespaced_key ''team'' k = ''4:team:'' @ k" "namespaced_key ''a'' k = ''1:a:'' @ k"
  by (simp_all add: namespaced_key_def)

lemma storage_key_sample:
  "storage_key ''k:1'' (Some ''team'') = Inr ''4:team:k:1''"
  "storage_key ''k:1'' (Some '' a '') = Inr ''1:a:k:1''"
  by (simp_all add: storage_key_cases py_opt_str_def validate_namespace_def strip_def is_space_def
      char_code_def valid_key_def namespaced_key_sample namespace_pattern_fullmatch_def is_alnum_def
      is_namespace_char_def MAX_NAMESPACE_LENGTH_def)

theorem storage_key_injective_witness:
  "storage_key ''k:1'' (Some ''team'') \<noteq> storage_key ''k:1'' (Some ''a'')"
proof
  assume eq: "storage_key ''k:1'' (Some ''team'') = storage_key ''k:1'' (Some ''a'')"
  have v: "validate_namespace (py_opt_str (Some ''team'')) = Inr (Some ''team'')"
    "validate_namespace (py_opt_str (Some ''a'')) = Inr (Some ''a'')"
    by (simp_all add: py_opt_str_def validate_namespace_valid)
  from eq have "storage_key ''k:1'' (Some ''a'') = Inr ''4:team:k:1''"
    by (simp add: storage_key_sample(1))
  from storage_key_injective [OF storage_key_sample(1) this v] show False by simp
qed

text \<open>
  The shared keyspace is not isolated from the namespaces. The storage key of \<open>k\<close> in namespace \<open>n\<close>
  is itself a valid key, and a request without a namespace that uses it as its key reaches the very
  same entry.
\<close>

theorem storage_key_shared_collision:
  assumes "valid_namespace n" "valid_key k" "length (namespaced_key n k) \<le> 256"
  shows "storage_key (namespaced_key n k) None = Inr (namespaced_key n k) \<and>
    storage_key k (Some n) = Inr (namespaced_key n k)"
  using assms
  by (simp add: storage_key_cases py_opt_str_def validate_namespace_valid valid_key_def
      namespaced_key_def)

theorem storage_key_shared_collision_witness:
  "storage_key ''4:team:k'' None = storage_key ''k'' (Some ''team'')"
  using storage_key_shared_collision [of "''team''" "''k''"]
  by (simp add: namespaced_key_sample valid_key_def)

text \<open>
  Which requests get a storage key, and what they get. The key must be valid; the namespace, when
  it is not absent or blank, must be valid after trimming and must leave the prefixed key within 256
  characters; the resulting storage key is always a valid key, so no backend rejects it.
\<close>

theorem storage_key_spec:
  "(storage_key k ns = Inr sk) =
    (valid_key k \<and> valid_key sk \<and>
     (case validate_namespace (py_opt_str ns) of
        Inl e \<Rightarrow> False
      | Inr None \<Rightarrow> sk = k
      | Inr (Some n) \<Rightarrow> valid_namespace n \<and> sk = namespaced_key n k))"
  by (auto simp: storage_key_cases valid_key_def namespaced_key_def
      dest: validate_namespace_opt_Some split: sum.splits option.splits)

section \<open>The abstract specification: a lossy map\<close>

text \<open>
  The calls of the service as data, their replies, and the runs of a service over a backend.
\<close>

datatype svc_request =
    Get_req string "string option"
  | Set_req string bytes int "string option"
  | Set_if_absent_req string bytes int "string option"
  | Compare_and_set_req string bytes bytes int "string option"
  | Delete_req string "string option"
  | Stats_req

datatype svc_reply =
    Got "bytes option"
  | Set_answer cache_set_status
  | Cond_answer cache_conditional_set_status
  | Deleted bool
  | Stats_answer cache_stats_snapshot

definition reply_map :: "('a \<Rightarrow> 'b) \<Rightarrow> 'a py \<times> 's \<Rightarrow> 'b py \<times> 's" where
  "reply_map f x = (map_sum id f (fst x), snd x)"

fun svc_call :: "'s cache_port \<Rightarrow> svc_request \<Rightarrow> 's \<Rightarrow> svc_reply py \<times> 's" where
  "svc_call P (Get_req k ns) s = reply_map Got (svc_get P k ns s)"
| "svc_call P (Set_req k v ttl ns) s = reply_map Set_answer (svc_set P k v ttl ns s)"
| "svc_call P (Set_if_absent_req k v ttl ns) s =
     reply_map Cond_answer (svc_set_if_absent P k v ttl ns s)"
| "svc_call P (Compare_and_set_req k x v ttl ns) s =
     reply_map Cond_answer (svc_compare_and_set P k x v ttl ns s)"
| "svc_call P (Delete_req k ns) s = reply_map Deleted (svc_delete P k ns s)"
| "svc_call P Stats_req s = reply_map Stats_answer (svc_stats P s)"

fun svc_run ::
    "'s cache_port \<Rightarrow> svc_request list \<Rightarrow> 's \<Rightarrow> (svc_request \<times> svc_reply py) list \<times> 's" where
  "svc_run P [] s = ([], s)"
| "svc_run P (r # rs) s =
     (let (rep, s1) = svc_call P r s; (trace, s2) = svc_run P rs s1 in ((r, rep) # trace, s2))"

text \<open>The storage key a request names, or the error it is refused with.\<close>

definition request_key :: "svc_request \<Rightarrow> string py option" where
  "request_key r =
     (case r of
        Get_req k ns \<Rightarrow> Some (storage_key k ns)
      | Set_req k _ _ ns \<Rightarrow> Some (storage_key k ns)
      | Set_if_absent_req k _ _ ns \<Rightarrow> Some (storage_key k ns)
      | Compare_and_set_req k _ _ _ ns \<Rightarrow> Some (storage_key k ns)
      | Delete_req k ns \<Rightarrow> Some (storage_key k ns)
      | Stats_req \<Rightarrow> None)"

text \<open>
  What a client may conclude from a reply, as a map from storage keys to the last value known to be
  written and not deleted since.
\<close>

definition last_written ::
    "svc_request \<Rightarrow> svc_reply py \<Rightarrow> (string \<rightharpoonup> bytes) \<Rightarrow> (string \<rightharpoonup> bytes)" where
  "last_written r rep m =
     (case (request_key r, r, rep) of
        (Some (Inr sk), Set_req _ v _ _, Inr (Set_answer Set_OK)) \<Rightarrow> m(sk \<mapsto> v)
      | (Some (Inr sk), Set_if_absent_req _ v _ _, Inr (Cond_answer Cond_STORED)) \<Rightarrow> m(sk \<mapsto> v)
      | (Some (Inr sk), Compare_and_set_req _ _ v _ _, Inr (Cond_answer Cond_STORED)) \<Rightarrow> m(sk \<mapsto> v)
      | (Some (Inr sk), Delete_req _ _, Inr _) \<Rightarrow> m(sk := None)
      | _ \<Rightarrow> m)"

text \<open>
  The replies a lossy map may give: it may have lost any value (expired or evicted), but it never
  shows a value other than the last one written, and it refuses exactly the invalid requests.
\<close>

definition reply_allowed :: "(string \<rightharpoonup> bytes) \<Rightarrow> svc_request \<Rightarrow> svc_reply py \<Rightarrow> bool" where
  "reply_allowed m r rep =
     (case (request_key r, rep) of
        (Some (Inl e), _) \<Rightarrow> rep = Inl e
      | (_, Inl _) \<Rightarrow> False
      | (None, Inr (Stats_answer _)) \<Rightarrow> True
      | (Some (Inr sk), Inr ans) \<Rightarrow>
          (case (r, ans) of
             (Get_req _ _, Got v) \<Rightarrow> v = None \<or> v = m sk
           | (Set_req _ _ _ _, Set_answer _) \<Rightarrow> True
           | (Set_if_absent_req _ _ _ _, Cond_answer st) \<Rightarrow>
               st = Cond_STORED \<or> st = Cond_VALUE_TOO_LARGE \<or> st = Cond_CAPACITY_EXHAUSTED \<or>
               st = Cond_EXISTS \<and> m sk \<noteq> None
           | (Compare_and_set_req _ x _ _ _, Cond_answer st) \<Rightarrow>
               st = Cond_NOT_FOUND \<or>
               (st = Cond_STORED \<or> st = Cond_VALUE_TOO_LARGE \<or> st = Cond_CAPACITY_EXHAUSTED) \<and>
                 m sk = Some x \<or>
               st = Cond_MISMATCH \<and> m sk \<noteq> None \<and> m sk \<noteq> Some x
           | (Delete_req _ _, Deleted b) \<Rightarrow> b \<longrightarrow> m sk \<noteq> None
           | _ \<Rightarrow> False)
      | _ \<Rightarrow> False)"

fun allowed_trace :: "(string \<rightharpoonup> bytes) \<Rightarrow> (svc_request \<times> svc_reply py) list \<Rightarrow> bool" where
  "allowed_trace m [] = True"
| "allowed_trace m ((r, rep) # trace) =
     (reply_allowed m r rep \<and> allowed_trace (last_written r rep m) trace)"

lemma map_le_iff: "c \<subseteq>\<^sub>m m \<longleftrightarrow> (\<forall>k. c k = None \<or> c k = m k)"
  by (auto simp: map_le_def dom_def) (metis not_None_eq)

lemma map_le_shrink:
  "c \<subseteq>\<^sub>m m \<Longrightarrow> others_shrink k c c' \<Longrightarrow> c' k = Some v \<Longrightarrow> c' \<subseteq>\<^sub>m m(k \<mapsto> v)"
  by (simp add: map_le_iff others_shrink_def) metis

lemma map_le_upd_None: "c \<subseteq>\<^sub>m m \<Longrightarrow> c(k := None) \<subseteq>\<^sub>m m"
  by (simp add: map_le_iff)

lemma map_le_upd_None_both: "c \<subseteq>\<^sub>m m \<Longrightarrow> c(k := None) \<subseteq>\<^sub>m m(k := None)"
  by (simp add: map_le_iff)

lemma map_le_shrink_all: "c \<subseteq>\<^sub>m m \<Longrightarrow> \<forall>k. c' k = None \<or> c' k = c k \<Longrightarrow> c' \<subseteq>\<^sub>m m"
  by (simp add: map_le_iff) metis

lemma map_leD: "c \<subseteq>\<^sub>m m \<Longrightarrow> c k = Some v \<Longrightarrow> m k = Some v"
  by (simp add: map_le_iff) (metis option.distinct(1))

lemma map_le_lookup: "c \<subseteq>\<^sub>m m \<Longrightarrow> c k = None \<or> c k = m k"
  by (simp add: map_le_iff)

lemmas map_le_steps = map_le_shrink map_le_upd_None map_le_upd_None_both map_le_shrink_all

section \<open>What the service promises on top of any backend\<close>

definition svc_content ::
    "('s \<Rightarrow> string \<Rightarrow> bytes option) \<Rightarrow> 's \<Rightarrow> string \<Rightarrow> string option \<Rightarrow> bytes option" where
  "svc_content content s key namespace =
     (case storage_key key namespace of Inl e \<Rightarrow> None | Inr sk \<Rightarrow> content s sk)"

context cache_backend
begin

lemma svc_delete_then_get:
  assumes "inv s" "svc_delete P k ns s = (Inr b, s')"
  shows "\<exists>s''. svc_get P k ns s' = (Inr None, s'')"
proof -
  obtain sk where sk: "storage_key k ns = Inr sk" "port_delete P sk s = (Inr b, s')"
    using assms(2) by (auto simp: svc_delete_def split: sum.splits)
  with delete_law [OF assms(1) storage_key_valid [OF sk(1)]] have "inv s'" "content s' sk = None"
    by auto
  with get_law [OF _ storage_key_valid [OF sk(1)]] sk show ?thesis
    by (fastforce simp: svc_get_def)
qed

text \<open>A request under one storage key leaves what any other request sees the same or gone.\<close>

lemma svc_call_frame:
  assumes "inv s" "request_key r = Some (Inr sk)" "sk \<noteq> k'"
  shows "content (snd (svc_call P r s)) k' \<in> {None, content s k'}"
proof -
  have ne: "k' \<noteq> sk" using assms(3) by simp
  show ?thesis
  proof (cases r)
    case (Get_req k ns)
    with assms have sk: "storage_key k ns = Inr sk" by (simp add: request_key_def)
    with Get_req get_law [OF assms(1) storage_key_valid [OF sk]] ne show ?thesis
      by (auto simp: reply_map_def svc_get_def)
  next
    case (Set_req k v ttl ns)
    with assms have sk: "storage_key k ns = Inr sk" by (simp add: request_key_def)
    with Set_req set_law [OF assms(1) storage_key_valid [OF sk], of v "normalize_ttl ttl"] ne
    show ?thesis by (auto simp: reply_map_def svc_set_def dest: others_shrinkD [OF _ ne])
  next
    case (Set_if_absent_req k v ttl ns)
    with assms have sk: "storage_key k ns = Inr sk" by (simp add: request_key_def)
    with Set_if_absent_req ne
      set_if_absent_law [OF assms(1) storage_key_valid [OF sk], of v "normalize_ttl ttl"]
    show ?thesis by (auto simp: reply_map_def svc_set_if_absent_def dest: others_shrinkD [OF _ ne])
  next
    case (Compare_and_set_req k x v ttl ns)
    with assms have sk: "storage_key k ns = Inr sk" by (simp add: request_key_def)
    with Compare_and_set_req ne
      compare_and_set_law [OF assms(1) storage_key_valid [OF sk], of x v "normalize_ttl ttl"]
    show ?thesis by (auto simp: reply_map_def svc_compare_and_set_def dest: others_shrinkD [OF _ ne])
  next
    case (Delete_req k ns)
    with assms have sk: "storage_key k ns = Inr sk" by (simp add: request_key_def)
    with Delete_req delete_law [OF assms(1) storage_key_valid [OF sk]] ne show ?thesis
      by (auto simp: reply_map_def svc_delete_def)
  qed (use assms in \<open>simp add: request_key_def\<close>)
qed

text \<open>Every reply of the service over a backend is one the lossy map may give.\<close>

lemma svc_call_tracks_keyed:
  assumes "inv s" "content s \<subseteq>\<^sub>m m" "request_key r = Some (Inr sk)" "svc_call P r s = (rep, s')"
  shows "inv s' \<and> content s' \<subseteq>\<^sub>m last_written r rep m \<and> reply_allowed m r rep"
proof (cases r)
  case (Get_req k ns)
  with assms have sk: "storage_key k ns = Inr sk" by (simp add: request_key_def)
  with get_law [OF assms(1) storage_key_valid [OF sk]] Get_req assms map_le_lookup [OF assms(2), of sk]
  show ?thesis
    by (auto simp: reply_map_def svc_get_def last_written_def reply_allowed_def request_key_def
        intro: map_le_steps)
next
  case (Set_req k v ttl ns)
  with assms have sk: "storage_key k ns = Inr sk" by (simp add: request_key_def)
  from set_law [OF assms(1) storage_key_valid [OF sk], of v "normalize_ttl ttl"] obtain st t where
    t: "port_set P sk v (normalize_ttl ttl) s = (Inr st, t)" "inv t" and
    res: "st = Set_OK \<and> content t sk = Some v \<and> others_shrink sk (content s) (content t) \<or>
      st \<noteq> Set_OK \<and> content t = content s"
    by blast
  then have "rep = Inr (Set_answer st)" "s' = t"
    using Set_req sk assms(4) by (simp_all add: reply_map_def svc_set_def)
  with t res Set_req sk assms(2) show ?thesis
    by (cases st) (auto simp: last_written_def reply_allowed_def request_key_def intro: map_le_steps)
next
  case (Set_if_absent_req k v ttl ns)
  with assms have sk: "storage_key k ns = Inr sk" by (simp add: request_key_def)
  from set_if_absent_law [OF assms(1) storage_key_valid [OF sk], of v "normalize_ttl ttl"] obtain st t where
    t: "port_set_if_absent P sk v (normalize_ttl ttl) s = (Inr st, t)" "inv t" and
    res: "st = Cond_STORED \<and> content t sk = Some v \<and> others_shrink sk (content s) (content t) \<or>
      st = Cond_EXISTS \<and> content s sk \<noteq> None \<and> content t = content s \<or>
      st \<in> {Cond_VALUE_TOO_LARGE, Cond_CAPACITY_EXHAUSTED} \<and> content t = (content s)(sk := None)"
    by blast
  then have "rep = Inr (Cond_answer st)" "s' = t"
    using Set_if_absent_req sk assms(4) by (simp_all add: reply_map_def svc_set_if_absent_def)
  with t res Set_if_absent_req sk assms(2) show ?thesis
    by (auto simp: last_written_def reply_allowed_def request_key_def intro: map_le_steps dest: map_leD)
next
  case (Compare_and_set_req k x v ttl ns)
  with assms have sk: "storage_key k ns = Inr sk" by (simp add: request_key_def)
  from compare_and_set_law [OF assms(1) storage_key_valid [OF sk], of x v "normalize_ttl ttl"]
  obtain st t where
    t: "port_compare_and_set P sk x v (normalize_ttl ttl) s = (Inr st, t)" "inv t" and
    res: "st = Cond_STORED \<and> content s sk = Some x \<and> content t sk = Some v \<and>
        others_shrink sk (content s) (content t) \<or>
      st = Cond_MISMATCH \<and> (\<exists>w. content s sk = Some w \<and> w \<noteq> x) \<and> content t = content s \<or>
      st = Cond_NOT_FOUND \<and> content t = (content s)(sk := None) \<or>
      st \<in> {Cond_VALUE_TOO_LARGE, Cond_CAPACITY_EXHAUSTED} \<and> content s sk = Some x \<and>
        content t = content s"
    by blast
  then have "rep = Inr (Cond_answer st)" "s' = t"
    using Compare_and_set_req sk assms(4) by (simp_all add: reply_map_def svc_compare_and_set_def)
  with t res Compare_and_set_req sk assms(2) show ?thesis
    by (auto simp: last_written_def reply_allowed_def request_key_def intro: map_le_steps dest: map_leD)
next
  case (Delete_req k ns)
  with assms have sk: "storage_key k ns = Inr sk" by (simp add: request_key_def)
  with delete_law [OF assms(1) storage_key_valid [OF sk]] Delete_req assms map_le_lookup [OF assms(2), of sk]
  show ?thesis
    by (auto simp: reply_map_def svc_delete_def last_written_def reply_allowed_def request_key_def
        intro: map_le_steps)
qed (use assms in \<open>simp_all add: request_key_def\<close>)

lemma svc_call_refused:
  "request_key r = Some (Inl e) \<Longrightarrow> svc_call P r s = (Inl e, s)"
  by (cases r) (auto simp: request_key_def reply_map_def svc_get_def svc_set_def svc_set_if_absent_def
      svc_compare_and_set_def svc_delete_def)

lemma svc_call_tracks:
  assumes "inv s" "content s \<subseteq>\<^sub>m m" "svc_call P r s = (rep, s')"
  shows "inv s' \<and> content s' \<subseteq>\<^sub>m last_written r rep m \<and> reply_allowed m r rep"
proof (cases "request_key r")
  case None
  then have "r = Stats_req" by (cases r) (simp_all add: request_key_def)
  with stats_law [OF assms(1)] assms show ?thesis
    by (auto simp: reply_map_def svc_stats_def last_written_def reply_allowed_def request_key_def
        intro: map_le_shrink_all)
next
  case (Some q)
  show ?thesis
  proof (cases q)
    case (Inl e)
    with Some svc_call_refused [of r e s] assms show ?thesis
      by (auto simp: last_written_def reply_allowed_def split: svc_request.splits)
  next
    case (Inr sk)
    with Some svc_call_tracks_keyed [OF assms(1,2) _ assms(3)] show ?thesis by simp
  qed
qed

lemma svc_run_tracks:
  "inv s \<Longrightarrow> content s \<subseteq>\<^sub>m m \<Longrightarrow> svc_run P rs s = (trace, s') \<Longrightarrow> inv s' \<and> allowed_trace m trace"
proof (induction rs arbitrary: s m trace s')
  case (Cons r rs)
  obtain rep s1 where c: "svc_call P r s = (rep, s1)" by fastforce
  obtain rest s2 where rest: "svc_run P rs s1 = (rest, s2)" by fastforce
  note now = svc_call_tracks [OF Cons.prems(1,2) c]
  with Cons.IH [OF _ _ rest] have "inv s2 \<and> allowed_trace (last_written r rep m) rest" by blast
  with Cons.prems(3) c rest now show ?case by auto
qed simp

end

end
