(* ===== verification/Contracts.thy ===== *)
theory Contracts
  imports Service
begin

text \<open>
  The types the gRPC transport works on: the messages of \<^verbatim>\<open>cache.proto\<close>, the application protocol
  \<^verbatim>\<open>CacheApp\<close> and the call context \<^verbatim>\<open>RpcContextLike\<close> of \<^verbatim>\<open>tiny_cache/transport/grpc/contracts.py\<close>, and the
  world a handler runs in: the application's state, the request id of the task, the log and the
  status set on the call.
\<close>

section \<open>Messages\<close>

datatype cache_status = CACHE_STATUS_UNSPECIFIED | PB_OK | PB_ERROR

datatype conditional_cache_status =
    CONDITIONAL_CACHE_STATUS_UNSPECIFIED
  | PB_STORED
  | PB_EXISTS
  | PB_NOT_FOUND
  | PB_MISMATCH

record cache_item =
  it_key :: string
  it_value :: bytes
  it_ttl :: int

record compare_and_set_request =
  cr_key :: string
  cr_expected_value :: bytes
  cr_value :: bytes
  cr_ttl :: int

record cache_value =
  cv_found :: bool
  cv_value :: bytes

record cache_lookup =
  lk_key :: string
  lk_found :: bool
  lk_value :: bytes
  lk_error :: string

record cache_operation_result =
  or_key :: string
  or_status :: cache_status
  or_error :: string

section \<open>The application protocol\<close>

text \<open>
  \<open>app_get\<close> returns any Python object, because the transport checks it with \<^verbatim>\<open>isinstance\<close>.
\<close>

record 's cache_app =
  app_get :: "string \<Rightarrow> string option \<Rightarrow> 's \<Rightarrow> pyobj py \<times> 's"
  app_set :: "string \<Rightarrow> bytes \<Rightarrow> int \<Rightarrow> string option \<Rightarrow> 's \<Rightarrow> cache_set_status py \<times> 's"
  app_set_if_absent ::
    "string \<Rightarrow> bytes \<Rightarrow> int \<Rightarrow> string option \<Rightarrow> 's \<Rightarrow> cache_conditional_set_status py \<times> 's"
  app_compare_and_set ::
    "string \<Rightarrow> bytes \<Rightarrow> bytes \<Rightarrow> int \<Rightarrow> string option \<Rightarrow> 's \<Rightarrow> cache_conditional_set_status py \<times> 's"
  app_delete :: "string \<Rightarrow> string option \<Rightarrow> 's \<Rightarrow> bool py \<times> 's"
  app_stats :: "'s \<Rightarrow> cache_stats_snapshot py \<times> 's"

text \<open>The application service as the application the transport is given.\<close>

definition py_opt_bytes :: "bytes option \<Rightarrow> pyobj" where
  "py_opt_bytes x = (case x of None \<Rightarrow> PNone | Some b \<Rightarrow> PBytes b)"

definition service_app :: "'s cache_port \<Rightarrow> 's cache_app" where
  "service_app P =
     \<lparr> app_get = (\<lambda>k ns s. reply_map py_opt_bytes (svc_get P k ns s)),
       app_set = svc_set P, app_set_if_absent = svc_set_if_absent P,
       app_compare_and_set = svc_compare_and_set P, app_delete = svc_delete P,
       app_stats = svc_stats P \<rparr>"

lemma py_opt_bytes_simps [simp]:
  "py_opt_bytes None = PNone" "py_opt_bytes (Some b) = PBytes b"
  by (simp_all add: py_opt_bytes_def)

section \<open>The call context and the world of a handler\<close>

text \<open>
  What a handler can ask its context for. Either call may raise; metadata values are strings, or bytes
  for binary headers.
\<close>

record rpc_context =
  ctx_peer :: "string py"
  ctx_metadata :: "(string \<times> pyobj) list option py"

datatype status_code = INVALID_ARGUMENT | RESOURCE_EXHAUSTED | INTERNAL

datatype log_record =
    Log_request string string string string
  | Log_exception string string
  | Log_debug string

text \<open>
  \<open>rw_request_id\<close> is the value of \<^verbatim>\<open>request_id_var\<close> in the task that handles the call, \<open>''-''\<close> when
  unset. \<open>rw_uuid n\<close> is the \<open>n\<close>-th id \<^verbatim>\<open>uuid4().hex\<close> returns. \<open>rw_code\<close> and \<open>rw_details\<close> are the
  status last set on the context, \<open>None\<close> standing for the default status OK.
\<close>

record 's rpc_world =
  rw_app :: 's
  rw_request_id :: string
  rw_uuid :: "nat \<Rightarrow> string"
  rw_uuid_reads :: nat
  rw_debug_enabled :: bool
  rw_log :: "log_record list"
  rw_code :: "status_code option"
  rw_details :: "string option"

text \<open>A call of the application from the world of a handler.\<close>

definition call_app :: "('s \<Rightarrow> 'a py \<times> 's) \<Rightarrow> 's rpc_world \<Rightarrow> 'a py \<times> 's rpc_world" where
  "call_app f w = (let (r, s) = f (rw_app w) in (r, w\<lparr>rw_app := s\<rparr>))"

definition emit :: "log_record \<Rightarrow> 's rpc_world \<Rightarrow> 's rpc_world" where
  "emit r w = w\<lparr>rw_log := rw_log w @ [r]\<rparr>"

definition log_debug :: "log_record \<Rightarrow> 's rpc_world \<Rightarrow> 's rpc_world" where
  "log_debug r w = (if rw_debug_enabled w then emit r w else w)"

text \<open>Worlds that differ in the log only.\<close>

lemma emit_simps [simp]:
  "rw_app (emit r w) = rw_app w" "rw_request_id (emit r w) = rw_request_id w"
  "rw_uuid (emit r w) = rw_uuid w" "rw_uuid_reads (emit r w) = rw_uuid_reads w"
  "rw_debug_enabled (emit r w) = rw_debug_enabled w"
  "rw_code (emit r w) = rw_code w" "rw_details (emit r w) = rw_details w"
  by (simp_all add: emit_def)

lemma log_debug_simps [simp]:
  "rw_app (log_debug r w) = rw_app w" "rw_request_id (log_debug r w) = rw_request_id w"
  "rw_uuid (log_debug r w) = rw_uuid w" "rw_uuid_reads (log_debug r w) = rw_uuid_reads w"
  "rw_debug_enabled (log_debug r w) = rw_debug_enabled w"
  "rw_code (log_debug r w) = rw_code w" "rw_details (log_debug r w) = rw_details w"
  by (simp_all add: log_debug_def)

lemma call_app_simps [simp]:
  "fst (call_app f w) = fst (f (rw_app w))"
  "rw_app (snd (call_app f w)) = snd (f (rw_app w))"
  "rw_request_id (snd (call_app f w)) = rw_request_id w"
  "rw_code (snd (call_app f w)) = rw_code w" "rw_details (snd (call_app f w)) = rw_details w"
  "rw_log (snd (call_app f w)) = rw_log w"
  by (simp_all add: call_app_def split: prod.split)

end
