(* ===== verification/RequestLifecycle.thy ===== *)
theory RequestLifecycle
  imports Contracts
begin

text \<open>
  \<^verbatim>\<open>GrpcRequestLifecycle\<close> of \<^verbatim>\<open>tiny_cache/transport/grpc/request_lifecycle.py\<close>: the request id of a call,
  the namespace header, and the two ways a handler reports an error. The start time and the durations
  go to the debug log only and are left out of the model.
\<close>

section \<open>Names\<close>

definition NAMESPACE_HEADER :: string where
  "NAMESPACE_HEADER = ''x-cache-namespace''"

text \<open>\<^verbatim>\<open>str.lower()\<close> on code points below 256.\<close>

definition lower_char :: "char \<Rightarrow> char" where
  "lower_char c =
     (let n = char_code c
      in if (65 \<le> n \<and> n \<le> 90) \<or> (192 \<le> n \<and> n \<le> 222 \<and> n \<noteq> 215) then char_of (n + 32) else c)"

definition lower :: "string \<Rightarrow> string" where
  "lower s = map lower_char s"

text \<open>The truth value of an object.\<close>

definition truthy :: "pyobj \<Rightarrow> bool" where
  "truthy x = (case x of PNone \<Rightarrow> False | PStr s \<Rightarrow> s \<noteq> [] | PBytes b \<Rightarrow> b \<noteq> [] | PInt i \<Rightarrow> i \<noteq> 0)"

section \<open>Requests\<close>

text \<open>
  The token of \<^verbatim>\<open>request_id_var.set\<close> is the value the variable had.
\<close>

record rpc_request_state =
  rq_request_id :: string
  rq_token :: "string option"
  rq_client_addr :: string

definition get_client_address :: "rpc_context \<Rightarrow> 's rpc_world \<Rightarrow> string \<times> 's rpc_world" where
  "get_client_address context w =
     (case ctx_peer context of
        Inr peer \<Rightarrow> (if peer \<noteq> [] then peer else ''unknown'', w)
      | Inl e \<Rightarrow> (''unknown'', log_debug (Log_debug ''Unable to read client peer from context'') w))"

definition ensure_request_id :: "'s rpc_world \<Rightarrow> (string \<times> string option) \<times> 's rpc_world" where
  "ensure_request_id w =
     (if rw_request_id w \<noteq> ''-'' then ((rw_request_id w, None), w)
      else (let request_id = rw_uuid w (rw_uuid_reads w)
            in ((request_id, Some (rw_request_id w)),
                w\<lparr>rw_uuid_reads := Suc (rw_uuid_reads w), rw_request_id := request_id\<rparr>)))"

definition begin_request :: "rpc_context \<Rightarrow> 's rpc_world \<Rightarrow> rpc_request_state \<times> 's rpc_world" where
  "begin_request context w =
     (let ((request_id, token), w1) = ensure_request_id w;
          (client_addr, w2) = get_client_address context w1
      in (\<lparr> rq_request_id = request_id, rq_token = token, rq_client_addr = client_addr \<rparr>, w2))"

definition finish_request :: "rpc_request_state \<Rightarrow> 's rpc_world \<Rightarrow> 's rpc_world" where
  "finish_request state w =
     (case rq_token state of None \<Rightarrow> w | Some old \<Rightarrow> w\<lparr>rw_request_id := old\<rparr>)"

section \<open>The namespace header\<close>

text \<open>The loop over the metadata: the first non-empty namespace header decides.\<close>

fun namespace_loop :: "(string \<times> pyobj) list \<Rightarrow> string option py" where
  "namespace_loop [] = Inr None"
| "namespace_loop ((key, value) # rest) =
     (if lower key = NAMESPACE_HEADER \<and> truthy value then validate_namespace value
      else namespace_loop rest)"

definition namespace_from_context ::
    "rpc_context \<Rightarrow> 's rpc_world \<Rightarrow> string option py \<times> 's rpc_world" where
  "namespace_from_context context w =
     (case py_bind (ctx_metadata context)
             (\<lambda>metadata. namespace_loop (case metadata of None \<Rightarrow> [] | Some m \<Rightarrow> m)) of
        Inr ns \<Rightarrow> (Inr ns, w)
      | Inl (ValueError m) \<Rightarrow> (Inl (ValueError m), w)
      | Inl _ \<Rightarrow> (Inr None, log_debug (Log_debug ''Unable to read namespace from metadata'') w))"

section \<open>Reporting\<close>

definition log_request :: "string \<Rightarrow> string \<Rightarrow> string \<Rightarrow> string \<Rightarrow> 's rpc_world \<Rightarrow> 's rpc_world" where
  "log_request operation key client_addr result w =
     (if \<not> rw_debug_enabled w then w
      else log_debug (Log_request operation key client_addr result) w)"

definition set_code :: "status_code \<Rightarrow> 's rpc_world \<Rightarrow> 's rpc_world" where
  "set_code code w = w\<lparr>rw_code := Some code\<rparr>"

definition set_details :: "string \<Rightarrow> 's rpc_world \<Rightarrow> 's rpc_world" where
  "set_details details w = w\<lparr>rw_details := Some details\<rparr>"

definition internal_error_details :: "string \<Rightarrow> string" where
  "internal_error_details request_id =
     ''Internal server error (request_id='' @ request_id @ '')''"

definition handle_invalid_argument ::
    "rpc_request_state \<Rightarrow> string \<Rightarrow> string \<Rightarrow> string \<Rightarrow> 's rpc_world \<Rightarrow> 's rpc_world" where
  "handle_invalid_argument state operation key message w =
     set_details message
       (set_code INVALID_ARGUMENT
         (log_request operation key (rq_client_addr state) ''INVALID_ARGUMENT'' w))"

definition handle_internal_error ::
    "rpc_request_state \<Rightarrow> string \<Rightarrow> string \<Rightarrow> string \<Rightarrow> 's rpc_world \<Rightarrow> 's rpc_world" where
  "handle_internal_error state operation key log_message w =
     set_details (internal_error_details (rq_request_id state))
       (set_code INTERNAL
         (emit (Log_exception log_message key)
           (log_request operation key (rq_client_addr state) ''ERROR'' w)))"

section \<open>Facts\<close>

lemma log_request_simps [simp]:
  "rw_app (log_request op k a r w) = rw_app w" "rw_request_id (log_request op k a r w) = rw_request_id w"
  "rw_code (log_request op k a r w) = rw_code w" "rw_details (log_request op k a r w) = rw_details w"
  by (simp_all add: log_request_def)

lemma set_status_simps [simp]:
  "rw_app (set_code c w) = rw_app w" "rw_request_id (set_code c w) = rw_request_id w"
  "rw_code (set_code c w) = Some c" "rw_details (set_code c w) = rw_details w"
  "rw_app (set_details d w) = rw_app w" "rw_request_id (set_details d w) = rw_request_id w"
  "rw_code (set_details d w) = rw_code w" "rw_details (set_details d w) = Some d"
  by (simp_all add: set_code_def set_details_def)

lemma handle_invalid_argument_simps [simp]:
  "rw_app (handle_invalid_argument st op k m w) = rw_app w"
  "rw_request_id (handle_invalid_argument st op k m w) = rw_request_id w"
  "rw_code (handle_invalid_argument st op k m w) = Some INVALID_ARGUMENT"
  "rw_details (handle_invalid_argument st op k m w) = Some m"
  by (simp_all add: handle_invalid_argument_def)

lemma handle_internal_error_simps [simp]:
  "rw_app (handle_internal_error st op k m w) = rw_app w"
  "rw_request_id (handle_internal_error st op k m w) = rw_request_id w"
  "rw_code (handle_internal_error st op k m w) = Some INTERNAL"
  "rw_details (handle_internal_error st op k m w) = Some (internal_error_details (rq_request_id st))"
  by (simp_all add: handle_internal_error_def)

lemma get_client_address_keeps:
  "get_client_address c w = (a, w1) \<Longrightarrow>
   rw_app w1 = rw_app w \<and> rw_request_id w1 = rw_request_id w \<and> rw_code w1 = rw_code w \<and>
   rw_details w1 = rw_details w"
  by (auto simp: get_client_address_def split: sum.splits)

text \<open>The id a call is handled under: the one already set for the task, or a fresh one.\<close>

definition effective_request_id :: "'s rpc_world \<Rightarrow> string" where
  "effective_request_id w =
     (if rw_request_id w \<noteq> ''-'' then rw_request_id w else rw_uuid w (rw_uuid_reads w))"

lemma begin_request_simps [simp]:
  assumes "begin_request c w = (st, w1)"
  shows "rw_app w1 = rw_app w" "rw_code w1 = rw_code w" "rw_details w1 = rw_details w"
    "rq_request_id st = effective_request_id w" "rw_request_id w1 = effective_request_id w"
    "rq_token st = (if rw_request_id w \<noteq> ''-'' then None else Some ''-'')"
  using assms
  by (auto simp: begin_request_def ensure_request_id_def effective_request_id_def Let_def
      dest!: get_client_address_keeps split: prod.splits if_splits)

lemma finish_request_simps [simp]:
  "rw_app (finish_request st w) = rw_app w" "rw_code (finish_request st w) = rw_code w"
  "rw_details (finish_request st w) = rw_details w"
  by (simp_all add: finish_request_def split: option.split)

text \<open>The namespace a context carries, as a pure function of its metadata.\<close>

definition header_namespace :: "rpc_context \<Rightarrow> string option py" where
  "header_namespace context =
     (case py_bind (ctx_metadata context)
             (\<lambda>metadata. namespace_loop (case metadata of None \<Rightarrow> [] | Some m \<Rightarrow> m)) of
        Inl (ValueError m) \<Rightarrow> Inl (ValueError m) | Inl _ \<Rightarrow> Inr None | Inr ns \<Rightarrow> Inr ns)"

lemma namespace_from_context_simps [simp]:
  assumes "namespace_from_context c w = (r, w1)"
  shows "r = header_namespace c" "rw_app w1 = rw_app w" "rw_request_id w1 = rw_request_id w"
    "rw_code w1 = rw_code w" "rw_details w1 = rw_details w"
  using assms
  by (auto simp: namespace_from_context_def header_namespace_def split: sum.splits exn.splits)

lemma header_namespace_Inl: "header_namespace c = Inl e \<Longrightarrow> \<exists>m. e = ValueError m"
  by (auto simp: header_namespace_def split: sum.splits exn.splits)

end
