(* ===== verification/Config.thy ===== *)
theory Config
  imports RequestLifecycle "HOL-Library.List_Lexorder" "HOL-Library.Char_ord"
begin

text \<open>
  The configuration, \<^verbatim>\<open>tiny_cache/infrastructure/config.py\<close>: the parsing of the environment
  variables and the settings they give. The environment is a partial map; the validation the pydantic
  model runs when a \<^verbatim>\<open>Settings\<close> is built is a parameter of \<open>load_settings\<close>.
\<close>

section \<open>Python's text functions\<close>

text \<open>
  \<^verbatim>\<open>int(s)\<close> on a string: white space is trimmed, then an optional sign and digits in which single
  underscores may separate; more than 4300 digits are refused. \<open>None\<close> stands for the
  \<^verbatim>\<open>ValueError\<close>.
\<close>

fun underscored_digits :: "bool \<Rightarrow> string \<Rightarrow> bool" where
  "underscored_digits prev_digit [] = prev_digit"
| "underscored_digits prev_digit (c # cs) =
     (if is_digit c then underscored_digits True cs
      else c = CHR ''_'' \<and> prev_digit \<and> underscored_digits False cs)"

definition parse_digits :: "string \<Rightarrow> nat option" where
  "parse_digits s =
     (let digits = filter (\<lambda>c. c \<noteq> CHR ''_'') s
      in if underscored_digits False s \<and> length digits \<le> 4300 then Some (undec digits) else None)"

definition py_int :: "string \<Rightarrow> int option" where
  "py_int raw =
     (case strip raw of
        [] \<Rightarrow> None
      | c # cs \<Rightarrow>
          (if c = CHR ''-'' then map_option (\<lambda>n. - int n) (parse_digits cs)
           else if c = CHR ''+'' then map_option int (parse_digits cs)
           else map_option int (parse_digits (c # cs))))"

text \<open>\<^verbatim>\<open>repr(s)\<close> of a string of code points below 256.\<close>

definition hex_digit :: "nat \<Rightarrow> char" where
  "hex_digit d = (if d < 10 then char_of (48 + d) else char_of (87 + d))"

definition repr_char :: "char \<Rightarrow> char \<Rightarrow> string" where
  "repr_char quote c =
     (let n = char_code c
      in if c = quote \<or> n = 92 then [CHR 0x5C, c]
         else if n = 9 then [CHR 0x5C, CHR ''t'']
         else if n = 10 then [CHR 0x5C, CHR ''n'']
         else if n = 13 then [CHR 0x5C, CHR ''r'']
         else if n < 32 \<or> (127 \<le> n \<and> n \<le> 160) \<or> n = 173
           then [CHR 0x5C, CHR ''x'', hex_digit (n div 16), hex_digit (n mod 16)]
         else [c])"

definition py_repr :: "string \<Rightarrow> string" where
  "py_repr s =
     (let quote = (if CHR 0x27 \<in> set s \<and> CHR 0x22 \<notin> set s then CHR 0x22 else CHR 0x27)
      in quote # concat (map (repr_char quote) s) @ [quote])"

text \<open>
  \<^verbatim>\<open>str.upper()\<close>: the two letters whose capital lies beyond code point 255 are left as they are.
\<close>

definition upper_char :: "char \<Rightarrow> string" where
  "upper_char c =
     (let n = char_code c
      in if (97 \<le> n \<and> n \<le> 122) \<or> (224 \<le> n \<and> n \<le> 254 \<and> n \<noteq> 247) then [char_of (n - 32)]
         else if n = 223 then ''SS''
         else [c])"

definition upper :: "string \<Rightarrow> string" where
  "upper s = concat (map upper_char s)"

section \<open>Environment variables\<close>

type_synonym environment = "string \<Rightarrow> string option"

definition get_env_int ::
    "environment \<Rightarrow> string \<Rightarrow> int \<Rightarrow> int option \<Rightarrow> int option \<Rightarrow> int py" where
  "get_env_int env env_name default_value min_value max_value =
     py_bind
       (case env env_name of
          None \<Rightarrow> Inr default_value
        | Some raw_value \<Rightarrow>
            (case py_int raw_value of
               Some v \<Rightarrow> Inr v
             | None \<Rightarrow> Inl (ValueError (env_name @ '' must be an integer, got '' @ py_repr raw_value))))
       (\<lambda>v.
          if (case min_value of None \<Rightarrow> False | Some lo \<Rightarrow> v < lo)
            then Inl (ValueError (env_name @ '' must be >= '' @ dec_int (the min_value) @ '', got '' @ dec_int v))
          else if (case max_value of None \<Rightarrow> False | Some hi \<Rightarrow> v > hi)
            then Inl (ValueError (env_name @ '' must be <= '' @ dec_int (the max_value) @ '', got '' @ dec_int v))
          else Inr v)"

fun join :: "string \<Rightarrow> string list \<Rightarrow> string" where
  "join sep [] = []"
| "join sep [x] = x"
| "join sep (x # y # xs) = x @ sep @ join sep (y # xs)"

definition get_env_choice ::
    "environment \<Rightarrow> string \<Rightarrow> string \<Rightarrow> string list \<Rightarrow> (string \<Rightarrow> string) option \<Rightarrow> string py" where
  "get_env_choice env env_name default_value allowed_values p_normalize =
     (let v0 = (case env env_name of None \<Rightarrow> default_value | Some raw_value \<Rightarrow> strip raw_value);
          v = (case p_normalize of None \<Rightarrow> v0 | Some f \<Rightarrow> f v0)
      in if v \<notin> set allowed_values
         then Inl (ValueError (env_name @ '' must be one of: '' @ join '', '' (sort allowed_values) @
                               ''; got '' @ py_repr v))
         else Inr v)"

definition get_env_bool :: "environment \<Rightarrow> string \<Rightarrow> bool \<Rightarrow> bool py" where
  "get_env_bool env env_name default_value =
     (case env env_name of
        None \<Rightarrow> Inr default_value
      | Some raw_value \<Rightarrow>
          (let normalized = lower (strip raw_value)
           in if normalized \<in> set [''1'', ''true'', ''yes'', ''y'', ''on''] then Inr True
              else if normalized \<in> set [''0'', ''false'', ''no'', ''n'', ''off''] then Inr False
              else Inl (ValueError (env_name @ '' must be a boolean, got '' @ py_repr raw_value))))"

definition getenv_default :: "environment \<Rightarrow> string \<Rightarrow> string \<Rightarrow> string" where
  "getenv_default env env_name default_value =
     (case env env_name of None \<Rightarrow> default_value | Some v \<Rightarrow> v)"

section \<open>Settings\<close>

record settings =
  cf_max_items :: int
  cf_max_memory_mb :: int
  cf_max_value_bytes :: int
  cf_cleanup_interval :: int
  cf_port :: int
  cf_host :: string
  cf_health_host :: string
  cf_health_port :: int
  cf_log_level :: string
  cf_log_format :: string
  cf_backend :: string
  cf_sqlite_path :: string
  cf_tls_enabled :: bool
  cf_tls_cert_path :: "string option"
  cf_tls_key_path :: "string option"
  cf_tls_require_client_auth :: bool
  cf_tls_client_ca_path :: "string option"

definition load_settings :: "(settings \<Rightarrow> settings py) \<Rightarrow> environment \<Rightarrow> settings py" where
  "load_settings validate env =
     py_bind (get_env_int env ''CACHE_MAX_MEMORY_MB'' 100 (Some 1) None) (\<lambda>max_memory_mb.
     (let max_memory_bytes = max_memory_mb * 1024 * 1024 in
     py_bind (get_env_int env ''CACHE_MAX_ITEMS'' 1000 (Some 1) None) (\<lambda>max_items.
     py_bind (get_env_int env ''CACHE_MAX_VALUE_BYTES'' max_memory_bytes (Some 1) (Some max_memory_bytes))
       (\<lambda>max_value_bytes.
     py_bind (get_env_int env ''CACHE_CLEANUP_INTERVAL'' 10 (Some 1) None) (\<lambda>cleanup_interval.
     py_bind (get_env_int env ''CACHE_PORT'' 50051 (Some 1) (Some 65535)) (\<lambda>port.
     py_bind (get_env_int env ''CACHE_HEALTH_PORT'' 8080 (Some 1) (Some 65535)) (\<lambda>health_port.
     py_bind (get_env_choice env ''CACHE_LOG_LEVEL'' ''INFO''
       [''DEBUG'', ''INFO'', ''WARNING'', ''ERROR'', ''CRITICAL''] (Some upper)) (\<lambda>log_level.
     py_bind (get_env_choice env ''CACHE_LOG_FORMAT'' ''text'' [''text'', ''json''] (Some lower))
       (\<lambda>log_format.
     py_bind (get_env_choice env ''CACHE_BACKEND'' ''memory'' [''memory'', ''sqlite''] (Some lower))
       (\<lambda>backend.
     py_bind (get_env_bool env ''CACHE_TLS_ENABLED'' False) (\<lambda>tls_enabled.
     py_bind (get_env_bool env ''CACHE_TLS_REQUIRE_CLIENT_AUTH'' False) (\<lambda>tls_require_client_auth.
       validate
         \<lparr> cf_max_items = max_items, cf_max_memory_mb = max_memory_mb,
           cf_max_value_bytes = max_value_bytes, cf_cleanup_interval = cleanup_interval,
           cf_port = port, cf_host = getenv_default env ''CACHE_HOST'' ''[::]'',
           cf_health_host = getenv_default env ''CACHE_HEALTH_HOST'' ''0.0.0.0'',
           cf_health_port = health_port, cf_log_level = log_level, cf_log_format = log_format,
           cf_backend = backend,
           cf_sqlite_path = getenv_default env ''CACHE_SQLITE_PATH'' ''tiny-cache.sqlite3'',
           cf_tls_enabled = tls_enabled, cf_tls_cert_path = env ''CACHE_TLS_CERT_PATH'',
           cf_tls_key_path = env ''CACHE_TLS_KEY_PATH'',
           cf_tls_require_client_auth = tls_require_client_auth,
           cf_tls_client_ca_path = env ''CACHE_TLS_CLIENT_CA_PATH'' \<rparr>))))))))))))"

section \<open>Parsing what was printed\<close>

lemma underscored_all_digits:
  "list_all is_digit s \<Longrightarrow> underscored_digits b s \<longleftrightarrow> b \<or> s \<noteq> []"
  by (induction s arbitrary: b) auto

lemma filter_digits: "list_all is_digit s \<Longrightarrow> filter (\<lambda>c. c \<noteq> CHR ''_'') s = s"
  by (induction s) (auto simp: is_digit_def char_code_def)

lemma parse_digits_dec: "length (dec n) \<le> 4300 \<Longrightarrow> parse_digits (dec n) = Some n"
  by (simp add: parse_digits_def filter_digits [OF dec_digits] underscored_all_digits [OF dec_digits])

lemma digits_not_space: "list_all is_digit s \<Longrightarrow> list_all (\<lambda>c. \<not> is_space c) s"
  by (induction s) (auto simp: is_digit_def is_space_def Let_def)

lemma py_int_dec_int:
  assumes "length (dec (nat \<bar>i\<bar>)) \<le> 4300"
  shows "py_int (dec_int i) = Some i"
proof -
  have "list_all (\<lambda>c. \<not> is_space c) (dec_int i)"
    using digits_not_space [OF dec_digits] by (auto simp: dec_int_def is_space_def char_code_def)
  then have strip: "strip (dec_int i) = dec_int i" by (rule strip_id)
  show ?thesis
  proof (cases "i < 0")
    case True
    with assms strip show ?thesis
      by (simp add: py_int_def dec_int_def parse_digits_dec)
  next
    case False
    obtain c cs where d: "dec (nat i) = c # cs" by (cases "dec (nat i)") auto
    with dec_digits [of "nat i"] have "is_digit c" by simp
    then have "c \<noteq> CHR ''-''" "c \<noteq> CHR ''+''" by (auto simp: is_digit_def char_code_def)
    with False strip assms parse_digits_dec [of "nat i"] d show ?thesis
      by (simp add: py_int_def dec_int_def)
  qed
qed

lemma get_env_int_range:
  "get_env_int env n d (Some lo) hi = Inr v \<Longrightarrow> lo \<le> v \<and> (\<forall>h. hi = Some h \<longrightarrow> v \<le> h)"
  by (auto simp: get_env_int_def py_simps split: if_splits option.splits)

lemma get_env_ValueError:
  "get_env_int env n d lo hi = Inl e \<Longrightarrow> \<exists>m. e = ValueError m"
  "get_env_choice env n c al f = Inl e \<Longrightarrow> \<exists>m. e = ValueError m"
  "get_env_bool env n b = Inl e \<Longrightarrow> \<exists>m. e = ValueError m"
  by (auto simp: get_env_int_def get_env_choice_def get_env_bool_def Let_def py_simps
      split: if_splits option.splits)

section \<open>What loads\<close>

text \<open>The constraints of the fields of \<^verbatim>\<open>Settings\<close>.\<close>

definition settings_ok :: "settings \<Rightarrow> bool" where
  "settings_ok st \<longleftrightarrow>
     1 \<le> cf_max_items st \<and> 1 \<le> cf_max_memory_mb st \<and> 1 \<le> cf_max_value_bytes st \<and>
     1 \<le> cf_cleanup_interval st \<and> 1 \<le> cf_port st \<and> cf_port st \<le> 65535 \<and>
     1 \<le> cf_health_port st \<and> cf_health_port st \<le> 65535"

lemma load_settings_ranges:
  assumes "\<And>st. settings_ok st \<Longrightarrow> validate st = Inr st" "load_settings validate env = Inr st"
  shows "settings_ok st \<and> cf_max_value_bytes st \<le> cf_max_memory_mb st * 1024 * 1024 \<and>
    cf_backend st \<in> {''memory'', ''sqlite''}"
proof -
  have choice: "v \<in> set al" if "get_env_choice env n d al f = Inr v" for n d al f v
    using that by (auto simp: get_env_choice_def Let_def split: if_splits)
  from assms(2) obtain mb items bytes interval port health_port lv lf backend tls auth st' where
    "get_env_int env ''CACHE_MAX_MEMORY_MB'' 100 (Some 1) None = Inr mb"
    "get_env_int env ''CACHE_MAX_ITEMS'' 1000 (Some 1) None = Inr items"
    "get_env_int env ''CACHE_MAX_VALUE_BYTES'' (mb * 1024 * 1024) (Some 1) (Some (mb * 1024 * 1024)) = Inr bytes"
    "get_env_int env ''CACHE_CLEANUP_INTERVAL'' 10 (Some 1) None = Inr interval"
    "get_env_int env ''CACHE_PORT'' 50051 (Some 1) (Some 65535) = Inr port"
    "get_env_int env ''CACHE_HEALTH_PORT'' 8080 (Some 1) (Some 65535) = Inr health_port"
    and backend: "get_env_choice env ''CACHE_BACKEND'' ''memory'' [''memory'', ''sqlite''] (Some lower) = Inr backend"
    and st: "validate st' = Inr st" "cf_max_items st' = items" "cf_max_memory_mb st' = mb"
      "cf_max_value_bytes st' = bytes" "cf_cleanup_interval st' = interval" "cf_port st' = port"
      "cf_health_port st' = health_port" "cf_backend st' = backend"
    unfolding load_settings_def Let_def py_bind_Inr_iff
    by (elim exE conjE) (rule that, assumption+, simp_all)
  note ranges = this(1-6) [THEN get_env_int_range]
  then have "settings_ok st'" using st by (simp add: settings_ok_def)
  with assms(1) st(1) have "st' = st" by simp
  with st ranges \<open>settings_ok st'\<close> choice [OF backend] show ?thesis by simp
qed

text \<open>
  An integer setting is read back as it was printed. A variable holding the decimal text of an
  integer of at most 4300 digits gives that integer when it is within the bounds, and otherwise an
  error that names the variable, the bound and the integer.
\<close>

theorem get_env_int_reads_back:
  assumes "env name = Some (dec_int i)" "length (dec (nat \<bar>i\<bar>)) \<le> 4300"
  shows "get_env_int env name d (Some lo) hi =
    (if i < lo then Inl (ValueError (name @ '' must be >= '' @ dec_int lo @ '', got '' @ dec_int i))
     else case hi of
            None \<Rightarrow> Inr i
          | Some h \<Rightarrow>
              if i > h then Inl (ValueError (name @ '' must be <= '' @ dec_int h @ '', got '' @ dec_int i))
              else Inr i)"
  using assms by (auto simp: get_env_int_def py_int_dec_int split: option.split)

theorem get_env_int_reads_back_witness:
  "get_env_int (\<lambda>_. Some ''-3'') ''CACHE_PORT'' 50051 (Some 1) (Some 65535) =
     Inl (ValueError ''CACHE_PORT must be >= 1, got -3'')"
proof -
  have d: "dec_int (- 3) = ''-3''" "dec_int 1 = ''1''" by code_simp+
  have "length (dec (nat \<bar>- 3\<bar>)) \<le> 4300" by code_simp
  from get_env_int_reads_back [OF _ this, of "\<lambda>_. Some ''-3''" "''CACHE_PORT''" 50051 1 "Some 65535"]
  show ?thesis by (simp add: d)
qed

end
