(* ===== verification/Codecs.thy ===== *)
theory Codecs
  imports Config
begin

text \<open>
  The text encodings of the standard library the command line client uses for values: \<^verbatim>\<open>bytes.hex\<close> and
  \<^verbatim>\<open>bytes.fromhex\<close>, \<^verbatim>\<open>base64.b64encode\<close> and the validating \<^verbatim>\<open>base64.b64decode\<close> of Python 3.11, and UTF-8.
  Text is a \<^typ>\<open>string\<close> where its characters are below 256; the text UTF-8 decodes to is a list of
  code points.
\<close>

section \<open>Hexadecimal\<close>

definition byte_of :: "nat \<Rightarrow> 8 word" where
  "byte_of n = of_nat n"

lemma byte_of_unat [simp]: "byte_of (unat b) = b"
  by (simp add: byte_of_def)

lemma unat_byte_bound: "unat (b :: 8 word) < 256"
  using unsigned_less [of b, where ?'a = nat] by simp

definition bytes_hex :: "bytes \<Rightarrow> string" where
  "bytes_hex v = concat (map (\<lambda>b. [hex_digit (unat b div 16), hex_digit (unat b mod 16)]) v)"

definition hex_value :: "char \<Rightarrow> nat option" where
  "hex_value c =
     (let n = char_code c
      in if 48 \<le> n \<and> n \<le> 57 then Some (n - 48)
         else if 97 \<le> n \<and> n \<le> 102 then Some (n - 87)
         else if 65 \<le> n \<and> n \<le> 70 then Some (n - 55)
         else None)"

definition hex_error :: "nat \<Rightarrow> exn" where
  "hex_error pos = ValueError (''non-hexadecimal number found in fromhex() arg at position '' @ dec pos)"

text \<open>White space is skipped between the pairs of digits; \<open>pos\<close> is the position in the argument.\<close>

fun fromhex_at :: "nat \<Rightarrow> string \<Rightarrow> bytes py" where
  "fromhex_at pos [] = Inr []"
| "fromhex_at pos (c # cs) =
     (if char_code c = 32 \<or> (9 \<le> char_code c \<and> char_code c \<le> 13) then fromhex_at (Suc pos) cs
      else
        (case hex_value c of
           None \<Rightarrow> Inl (hex_error pos)
         | Some hi \<Rightarrow>
             (case cs of
                [] \<Rightarrow> Inl (hex_error (Suc pos))
              | d # ds \<Rightarrow>
                  (case hex_value d of
                     None \<Rightarrow> Inl (hex_error (Suc pos))
                   | Some lo \<Rightarrow>
                       py_bind (fromhex_at (pos + 2) ds) (\<lambda>bs. Inr (byte_of (16 * hi + lo) # bs))))))"

definition bytes_fromhex :: "string \<Rightarrow> bytes py" where
  "bytes_fromhex s = fromhex_at 0 s"

lemma char_code_char_of [simp]: "n < 256 \<Longrightarrow> char_code (char_of n) = n"
  by (simp add: char_code_def)

lemma hex_digit_code: "d < 16 \<Longrightarrow> char_code (hex_digit d) = (if d < 10 then 48 + d else 87 + d)"
  by (simp add: hex_digit_def)

lemma hex_value_digit: "d < 16 \<Longrightarrow> hex_value (hex_digit d) = Some d"
  by (simp add: hex_value_def hex_digit_code Let_def)

lemma fromhex_hex: "fromhex_at pos (bytes_hex v) = Inr v"
proof (induction v arbitrary: pos)
  case Nil
  then show ?case by (simp add: bytes_hex_def)
next
  case (Cons b v)
  have b: "unat b div 16 < 16" "unat b mod 16 < 16" using unat_byte_bound [of b] by auto
  have hex: "bytes_hex (b # v) = hex_digit (unat b div 16) # hex_digit (unat b mod 16) # bytes_hex v"
    by (simp add: bytes_hex_def)
  have "16 * (unat b div 16) + unat b mod 16 = unat b" by simp
  with Cons.IH [of "pos + 2"] b show ?case
    unfolding hex by (simp add: hex_value_digit hex_digit_code)
qed

section \<open>Base64\<close>

definition b64_char :: "nat \<Rightarrow> char" where
  "b64_char n =
     char_of (if n < 26 then 65 + n else if n < 52 then 71 + n else if n < 62 then n - 4
              else if n = 62 then 43 else 47 :: nat)"

definition b64_value :: "char \<Rightarrow> nat option" where
  "b64_value c =
     (let n = char_code c
      in if 65 \<le> n \<and> n \<le> 90 then Some (n - 65)
         else if 97 \<le> n \<and> n \<le> 122 then Some (n - 71)
         else if 48 \<le> n \<and> n \<le> 57 then Some (n + 4)
         else if n = 43 then Some 62
         else if n = 47 then Some 63
         else None)"

fun b64encode :: "bytes \<Rightarrow> string" where
  "b64encode [] = []"
| "b64encode [a] =
     [b64_char (unat a div 4), b64_char (unat a mod 4 * 16), CHR ''='', CHR ''='']"
| "b64encode [a, b] =
     [b64_char (unat a div 4), b64_char (unat a mod 4 * 16 + unat b div 16),
      b64_char (unat b mod 16 * 4), CHR ''='']"
| "b64encode (a # b # c # rest) =
     b64_char (unat a div 4) # b64_char (unat a mod 4 * 16 + unat b div 16) #
     b64_char (unat b mod 16 * 4 + unat c div 64) # b64_char (unat c mod 64) # b64encode rest"

text \<open>
  The loop of \<^verbatim>\<open>binascii.a2b_base64\<close> in strict mode: the position within a group of four characters,
  the bits left over, the padding seen, and the number of bytes decoded so far.
\<close>

fun a2b_loop :: "nat \<Rightarrow> nat \<Rightarrow> nat \<Rightarrow> bool \<Rightarrow> nat \<Rightarrow> string \<Rightarrow> bytes py" where
  "a2b_loop quad_pos leftchar pads padding_started n [] =
     (if quad_pos = 0 then Inr []
      else if quad_pos = 1
      then Inl (ValueError (''Invalid base64-encoded string: number of data characters ('' @
                            dec (n div 3 * 4 + 1) @ '') cannot be 1 more than a multiple of 4''))
      else Inl (ValueError ''Incorrect padding''))"
| "a2b_loop quad_pos leftchar pads padding_started n (ch # rest) =
     (if ch = CHR ''=''
      then
        (if quad_pos \<ge> 2
         then if quad_pos + Suc pads \<ge> 4
              then if rest \<noteq> [] then Inl (ValueError ''Excess data after padding'') else Inr []
              else a2b_loop quad_pos leftchar (Suc pads) True n rest
         else a2b_loop quad_pos leftchar pads True n rest)
      else
        (case b64_value ch of
           None \<Rightarrow> Inl (ValueError ''Only base64 data is allowed'')
         | Some val \<Rightarrow>
             (if padding_started then Inl (ValueError ''Discontinuous padding not allowed'')
              else if quad_pos = 0 then a2b_loop 1 val 0 False n rest
              else if quad_pos = 1
              then py_bind (a2b_loop 2 (val mod 16) 0 False (Suc n) rest)
                     (\<lambda>bs. Inr (byte_of (leftchar * 4 + val div 16) # bs))
              else if quad_pos = 2
              then py_bind (a2b_loop 3 (val mod 4) 0 False (Suc n) rest)
                     (\<lambda>bs. Inr (byte_of (leftchar * 16 + val div 4) # bs))
              else py_bind (a2b_loop 0 0 0 False (Suc n) rest)
                     (\<lambda>bs. Inr (byte_of (leftchar * 64 + val) # bs)))))"

definition b64decode_validate :: "string \<Rightarrow> bytes py" where
  "b64decode_validate s =
     (if \<exists>c \<in> set s. char_code c \<ge> 128
      then Inl (ValueError ''string argument should contain only ASCII characters'')
      else if s \<noteq> [] \<and> hd s = CHR ''='' then Inl (ValueError ''Leading padding not allowed'')
      else a2b_loop 0 0 0 False 0 s)"

lemma b64_char_code:
  "n < 64 \<Longrightarrow> char_code (b64_char n) =
     (if n < 26 then 65 + n else if n < 52 then 71 + n else if n < 62 then n - 4
      else if n = 62 then 43 else 47)"
  by (simp add: b64_char_def)

lemma b64_value_char [simp]: "n < 64 \<Longrightarrow> b64_value (b64_char n) = Some n"
  by (auto simp: b64_value_def b64_char_code Let_def)

lemma b64_char_not_pad [simp]: "n < 64 \<Longrightarrow> b64_char n \<noteq> CHR ''=''"
proof
  assume n: "n < 64" and "b64_char n = CHR ''=''"
  then have "char_code (b64_char n) = 61" by (simp add: char_code_def)
  with n show False by (simp add: b64_char_code split: if_splits)
qed

lemma b64_char_ascii: "n < 64 \<Longrightarrow> char_code (b64_char n) < 128"
  by (auto simp: b64_char_code)

lemma pad_ascii: "char_code CHR ''='' < 128"
  by (simp add: char_code_def)

lemma join_bits:
  "u < 16 \<Longrightarrow> (y * 16 + u) div 16 = (y::nat)" "u < 16 \<Longrightarrow> (y * 16 + u) mod 16 = (u::nat)"
  "p < 4 \<Longrightarrow> (y * 4 + p) div 4 = (y::nat)" "p < 4 \<Longrightarrow> (y * 4 + p) mod 4 = (p::nat)"
  by simp_all

lemma sextets:
  assumes "a < 256" "b < 256" "c < (256::nat)"
  shows "a div 4 < 64" "a mod 4 * 16 + b div 16 < 64" "b mod 16 * 4 + c div 64 < 64"
    and "a div 4 * 4 + (a mod 4 * 16 + b div 16) div 16 = a"
    and "(a mod 4 * 16 + b div 16) mod 16 * 16 + (b mod 16 * 4 + c div 64) div 4 = b"
    and "(b mod 16 * 4 + c div 64) mod 4 * 64 + c mod 64 = c"
proof -
  have small: "b div 16 < 16" "c div 64 < 4" "a mod 4 < 4" "b mod 16 < 16" using assms by auto
  show "a div 4 < 64" using assms by simp
  show "a mod 4 * 16 + b div 16 < 64" "b mod 16 * 4 + c div 64 < 64" using small by linarith+
  show "a div 4 * 4 + (a mod 4 * 16 + b div 16) div 16 = a" using small by (simp add: join_bits)
  show "(a mod 4 * 16 + b div 16) mod 16 * 16 + (b mod 16 * 4 + c div 64) div 4 = b"
    using small by (simp add: join_bits)
  show "(b mod 16 * 4 + c div 64) mod 4 * 64 + c mod 64 = c" using small by (simp add: join_bits)
qed

lemma a2b_encode: "a2b_loop 0 0 0 False n (b64encode v) = Inr v"
proof (induction v arbitrary: n rule: b64encode.induct)
  case 1
  then show ?case by simp
next
  case (2 a)
  have "unat a < 256" by (rule unat_byte_bound)
  with sextets [of "unat a" 0 0] show ?case by simp
next
  case (3 a b)
  have "unat a < 256" "unat b < 256" by (rule unat_byte_bound)+
  with sextets [of "unat a" "unat b" 0] show ?case by simp
next
  case (4 a b c rest)
  have "unat a < 256" "unat b < 256" "unat c < 256" by (rule unat_byte_bound)+
  with sextets [of "unat a" "unat b" "unat c"] 4 show ?case by simp
qed

lemma b64encode_ascii: "\<forall>c \<in> set (b64encode v). char_code c < 128"
proof (induction v rule: b64encode.induct)
  case (2 a)
  with sextets [of "unat a" 0 0] unat_byte_bound show ?case
    by (auto simp: b64_char_ascii pad_ascii)
next
  case (3 a b)
  with sextets [of "unat a" "unat b" 0] unat_byte_bound show ?case
    by (auto simp: b64_char_ascii pad_ascii)
next
  case (4 a b c rest)
  with sextets [of "unat a" "unat b" "unat c"] unat_byte_bound show ?case
    by (auto simp: b64_char_ascii)
qed simp

lemma b64encode_no_leading_pad: "b64encode v \<noteq> [] \<Longrightarrow> hd (b64encode v) \<noteq> CHR ''=''"
  using sextets(1) unat_byte_bound by (cases v rule: b64encode.cases) (auto simp: less_mult_imp_div_less)

lemma b64decode_encode: "b64decode_validate (b64encode v) = Inr v"
proof -
  have "\<not> (\<exists>c \<in> set (b64encode v). char_code c \<ge> 128)"
    using b64encode_ascii [of v] by (auto simp: not_le)
  then show ?thesis
    using a2b_encode [of 0 v] b64encode_no_leading_pad [of v]
    by (simp only: b64decode_validate_def) auto
qed

section \<open>UTF-8\<close>

definition utf8_encode :: "string \<Rightarrow> bytes" where
  "utf8_encode s =
     concat (map (\<lambda>c. let n = char_code c
                      in if n < 128 then [byte_of n]
                         else [byte_of (192 + n div 64), byte_of (128 + n mod 64)]) s)"

definition continuation :: "nat \<Rightarrow> bool" where
  "continuation b \<longleftrightarrow> 128 \<le> b \<and> b \<le> 191"

text \<open>
  The strict decoder: no overlong forms, no surrogates, nothing beyond U+10FFFF. \<open>None\<close> stands for
  the \<^verbatim>\<open>UnicodeDecodeError\<close>.
\<close>

fun utf8_points :: "nat list \<Rightarrow> nat list option" where
  "utf8_points [] = Some []"
| "utf8_points (b # bs) =
     (if b < 128 then map_option ((#) b) (utf8_points bs)
      else if 194 \<le> b \<and> b \<le> 223
      then (case bs of
              c # r \<Rightarrow>
                if continuation c then map_option ((#) ((b - 192) * 64 + (c - 128))) (utf8_points r)
                else None
            | [] \<Rightarrow> None)
      else if 224 \<le> b \<and> b \<le> 239
      then (case bs of
              c # d # r \<Rightarrow>
                if continuation c \<and> continuation d \<and> (b = 224 \<longrightarrow> 160 \<le> c) \<and> (b = 237 \<longrightarrow> c < 160)
                then map_option ((#) ((b - 224) * 4096 + (c - 128) * 64 + (d - 128))) (utf8_points r)
                else None
            | _ \<Rightarrow> None)
      else if 240 \<le> b \<and> b \<le> 244
      then (case bs of
              c # d # e # r \<Rightarrow>
                if continuation c \<and> continuation d \<and> continuation e \<and> (b = 240 \<longrightarrow> 144 \<le> c) \<and>
                   (b = 244 \<longrightarrow> c < 144)
                then map_option
                  ((#) ((b - 240) * 262144 + (c - 128) * 4096 + (d - 128) * 64 + (e - 128))) (utf8_points r)
                else None
            | _ \<Rightarrow> None)
      else None)"

definition utf8_decode :: "bytes \<Rightarrow> nat list option" where
  "utf8_decode v = utf8_points (map unat v)"

lemma unat_byte_of: "n < 256 \<Longrightarrow> unat (byte_of n) = n"
  by (simp add: byte_of_def unat_of_nat)

lemma char_code_bound: "char_code c < 256"
  by (simp add: char_code_def)

lemma utf8_decode_encode: "utf8_decode (utf8_encode s) = Some (map char_code s)"
proof (induction s)
  case Nil
  then show ?case by (simp add: utf8_decode_def utf8_encode_def)
next
  case (Cons c s)
  let ?n = "char_code c"
  have bound: "?n < 256" by (rule char_code_bound)
  show ?case
  proof (cases "?n < 128")
    case True
    then have "utf8_encode (c # s) = byte_of ?n # utf8_encode s"
      by (simp add: utf8_encode_def Let_def)
    with Cons True show ?thesis by (simp add: utf8_decode_def unat_byte_of)
  next
    case False
    then have enc: "utf8_encode (c # s) =
        byte_of (192 + ?n div 64) # byte_of (128 + ?n mod 64) # utf8_encode s"
      by (simp add: utf8_encode_def Let_def)
    have lead: "194 \<le> 192 + ?n div 64" "192 + ?n div 64 \<le> 223" using False bound by auto
    have "continuation (128 + ?n mod 64)" by (simp add: continuation_def)
    moreover have "?n div 64 * 64 + ?n mod 64 = ?n" by simp
    moreover have "unat (byte_of (192 + ?n div 64)) = 192 + ?n div 64"
      "unat (byte_of (128 + ?n mod 64)) = 128 + ?n mod 64"
      using lead by (simp_all add: unat_byte_of)
    ultimately show ?thesis using Cons lead by (simp add: utf8_decode_def enc)
  qed
qed

end
