(* ===== verification/BatchMapping.thy ===== *)
theory BatchMapping
  imports RequestLifecycle
begin

text \<open>
  How application results become messages: the status mappings of
  \<^verbatim>\<open>tiny_cache/transport/grpc/status_mapping.py\<close>, the batch loops of
  \<^verbatim>\<open>tiny_cache/transport/grpc/batch_mapping.py\<close>, and the statistics message of
  \<^verbatim>\<open>tiny_cache/transport/grpc/response_mapping.py\<close>.

  The batch loops call the application once per item. The application is an arbitrary state
  transformer, so an application that lets other clients run first is an instance too.
\<close>

section \<open>Status mappings\<close>

definition VALUE_TOO_LARGE_MESSAGE :: string where
  "VALUE_TOO_LARGE_MESSAGE = ''Value exceeds maximum allowed cache entry size''"

definition CAPACITY_EXHAUSTED_MESSAGE :: string where
  "CAPACITY_EXHAUSTED_MESSAGE = ''Cache capacity exhausted and cannot accommodate new entry''"

record set_status_mapping =
  sm_log_result :: string
  sm_error :: "string option"

record conditional_status_mapping =
  cm_log_result :: string
  cm_proto_status :: conditional_cache_status
  cm_error :: "string option"

definition map_set_status :: "cache_set_status \<Rightarrow> set_status_mapping py" where
  "map_set_status set_status =
     py_bind (cache_write_failure_from_set_status set_status) (\<lambda>failure.
       if failure = None then Inr \<lparr> sm_log_result = ''OK'', sm_error = None \<rparr>
       else if failure = Some Failure_VALUE_TOO_LARGE
         then Inr \<lparr> sm_log_result = ''VALUE_TOO_LARGE'', sm_error = Some VALUE_TOO_LARGE_MESSAGE \<rparr>
       else if failure = Some Failure_CAPACITY_EXHAUSTED
         then Inr \<lparr> sm_log_result = ''CAPACITY_EXHAUSTED'',
                    sm_error = Some CAPACITY_EXHAUSTED_MESSAGE \<rparr>
       else Inl (RuntimeError (''Unsupported cache set status: '' @ repr_set_status set_status)))"

fun repr_conditional_status :: "cache_conditional_set_status \<Rightarrow> string" where
  "repr_conditional_status Cond_STORED = ''<CacheConditionalSetStatus.STORED: 'stored'>''"
| "repr_conditional_status Cond_EXISTS = ''<CacheConditionalSetStatus.EXISTS: 'exists'>''"
| "repr_conditional_status Cond_NOT_FOUND = ''<CacheConditionalSetStatus.NOT_FOUND: 'not_found'>''"
| "repr_conditional_status Cond_MISMATCH = ''<CacheConditionalSetStatus.MISMATCH: 'mismatch'>''"
| "repr_conditional_status Cond_VALUE_TOO_LARGE =
     ''<CacheConditionalSetStatus.VALUE_TOO_LARGE: 'value_too_large'>''"
| "repr_conditional_status Cond_CAPACITY_EXHAUSTED =
     ''<CacheConditionalSetStatus.CAPACITY_EXHAUSTED: 'capacity_exhausted'>''"

definition map_conditional_status ::
    "cache_conditional_set_status \<Rightarrow> conditional_status_mapping py" where
  "map_conditional_status status =
     (if status = Cond_STORED
        then Inr \<lparr> cm_log_result = ''STORED'', cm_proto_status = PB_STORED, cm_error = None \<rparr>
      else if status = Cond_EXISTS
        then Inr \<lparr> cm_log_result = ''EXISTS'', cm_proto_status = PB_EXISTS, cm_error = None \<rparr>
      else if status = Cond_NOT_FOUND
        then Inr \<lparr> cm_log_result = ''NOT_FOUND'', cm_proto_status = PB_NOT_FOUND, cm_error = None \<rparr>
      else if status = Cond_MISMATCH
        then Inr \<lparr> cm_log_result = ''MISMATCH'', cm_proto_status = PB_MISMATCH, cm_error = None \<rparr>
      else
        (let failure = cache_write_failure_from_conditional_status status
         in if failure = Some Failure_VALUE_TOO_LARGE
              then Inr \<lparr> cm_log_result = ''VALUE_TOO_LARGE'',
                         cm_proto_status = CONDITIONAL_CACHE_STATUS_UNSPECIFIED,
                         cm_error = Some VALUE_TOO_LARGE_MESSAGE \<rparr>
            else if failure = Some Failure_CAPACITY_EXHAUSTED
              then Inr \<lparr> cm_log_result = ''CAPACITY_EXHAUSTED'',
                         cm_proto_status = CONDITIONAL_CACHE_STATUS_UNSPECIFIED,
                         cm_error = Some CAPACITY_EXHAUSTED_MESSAGE \<rparr>
            else Inl (RuntimeError
              (''Unsupported conditional cache status: '' @ repr_conditional_status status))))"

section \<open>Batches\<close>

fun exn_message :: "exn \<Rightarrow> string" where
  "exn_message (ValueError m) = m"
| "exn_message (TypeError m) = m"
| "exn_message (RuntimeError m) = m"
| "exn_message (BackendError m) = m"

definition is_ValueError :: "exn \<Rightarrow> bool" where
  "is_ValueError e \<longleftrightarrow> (case e of ValueError m \<Rightarrow> True | _ \<Rightarrow> False)"

text \<open>
  The value a lookup found: \<open>None\<close> for a miss, and an exception for an object that is not bytes.
\<close>

definition checked_value :: "pyobj \<Rightarrow> bytes option py" where
  "checked_value v =
     (case v of
        PNone \<Rightarrow> Inr None
      | PBytes b \<Rightarrow> Inr (Some b)
      | _ \<Rightarrow> Inl (TypeError ''Cache backend returned non-bytes value''))"

fun build_multi_get_items ::
    "'s cache_app \<Rightarrow> string list \<Rightarrow> string \<Rightarrow> string option \<Rightarrow> 's rpc_world
      \<Rightarrow> cache_lookup list \<times> 's rpc_world" where
  "build_multi_get_items app [] request_id namespace w = ([], w)"
| "build_multi_get_items app (key # keys) request_id namespace w =
     (let (item, w1) =
        (case py_seq (call_app (app_get app key namespace) w)
                (\<lambda>v w1. (checked_value v, w1)) of
           (Inr None, w1) \<Rightarrow>
             (\<lparr> lk_key = key, lk_found = False, lk_value = [], lk_error = [] \<rparr>, w1)
         | (Inr (Some value), w1) \<Rightarrow>
             (\<lparr> lk_key = key, lk_found = True, lk_value = value, lk_error = [] \<rparr>, w1)
         | (Inl exc, w1) \<Rightarrow>
             (if is_ValueError exc
              then (\<lparr> lk_key = key, lk_found = False, lk_value = [], lk_error = exn_message exc \<rparr>, w1)
              else (\<lparr> lk_key = key, lk_found = False, lk_value = [],
                      lk_error = internal_error_details request_id \<rparr>,
                    emit (Log_exception ''Error in MultiGet operation for key %r'' key) w1)));
          (items, w2) = build_multi_get_items app keys request_id namespace w1
      in (item # items, w2))"

fun build_multi_set_results ::
    "'s cache_app \<Rightarrow> cache_item list \<Rightarrow> string \<Rightarrow> string option \<Rightarrow> 's rpc_world
      \<Rightarrow> cache_operation_result list \<times> 's rpc_world" where
  "build_multi_set_results app [] request_id namespace w = ([], w)"
| "build_multi_set_results app (item # items) request_id namespace w =
     (let (result, w1) =
        (case py_seq (call_app (app_set app (it_key item) (it_value item) (it_ttl item) namespace) w)
                (\<lambda>set_status w1. (map_set_status set_status, w1)) of
           (Inr mapped, w1) \<Rightarrow>
             (case sm_error mapped of
                None \<Rightarrow> (\<lparr> or_key = it_key item, or_status = PB_OK, or_error = [] \<rparr>, w1)
              | Some err \<Rightarrow> (\<lparr> or_key = it_key item, or_status = PB_ERROR, or_error = err \<rparr>, w1))
         | (Inl exc, w1) \<Rightarrow>
             (if is_ValueError exc
              then (\<lparr> or_key = it_key item, or_status = PB_ERROR, or_error = exn_message exc \<rparr>, w1)
              else (\<lparr> or_key = it_key item, or_status = PB_ERROR,
                      or_error = internal_error_details request_id \<rparr>,
                    emit (Log_exception ''Error in MultiSet operation for key %r'' (it_key item)) w1)));
          (results, w2) = build_multi_set_results app items request_id namespace w1
      in (result # results, w2))"

fun build_multi_delete_results ::
    "'s cache_app \<Rightarrow> string list \<Rightarrow> string \<Rightarrow> string option \<Rightarrow> 's rpc_world
      \<Rightarrow> cache_operation_result list \<times> 's rpc_world" where
  "build_multi_delete_results app [] request_id namespace w = ([], w)"
| "build_multi_delete_results app (key # keys) request_id namespace w =
     (let (result, w1) =
        (case call_app (app_delete app key namespace) w of
           (Inr deleted, w1) \<Rightarrow> (\<lparr> or_key = key, or_status = PB_OK, or_error = [] \<rparr>, w1)
         | (Inl exc, w1) \<Rightarrow>
             (if is_ValueError exc
              then (\<lparr> or_key = key, or_status = PB_ERROR, or_error = exn_message exc \<rparr>, w1)
              else (\<lparr> or_key = key, or_status = PB_ERROR,
                      or_error = internal_error_details request_id \<rparr>,
                    emit (Log_exception ''Error in MultiDelete operation for key %r'' key) w1)));
          (results, w2) = build_multi_delete_results app keys request_id namespace w1
      in (result # results, w2))"

section \<open>The statistics message\<close>

text \<open>
  The fields of \<^verbatim>\<open>CacheStats\<close>. The protobuf library checks that an integer fits the field's type when
  the message is built; \<open>pb_int bits i\<close> stands for that check.
\<close>

record cache_stats_msg =
  sg_size :: int
  sg_hits :: int
  sg_misses :: int
  sg_evictions :: int
  sg_hit_rate :: real
  sg_memory_usage_bytes :: int
  sg_max_memory_bytes :: int
  sg_max_items :: int
  sg_max_value_bytes :: int
  sg_lru_evictions :: int
  sg_expired_removals :: int
  sg_rejected_oversize :: int
  sg_rejected_capacity :: int

definition cache_stats_response ::
    "(nat \<Rightarrow> int \<Rightarrow> int py) \<Rightarrow> cache_stats_snapshot \<Rightarrow> cache_stats_msg py" where
  "cache_stats_response pb_int stats =
     py_bind (pb_int 32 (st_size stats)) (\<lambda>size.
     py_bind (pb_int 32 (st_hits stats)) (\<lambda>hits.
     py_bind (pb_int 32 (st_misses stats)) (\<lambda>misses.
     py_bind (pb_int 32 (st_evictions stats)) (\<lambda>evictions.
     py_bind (pb_int 64 (st_memory_usage_bytes stats)) (\<lambda>memory_usage_bytes.
     py_bind (pb_int 64 (st_max_memory_bytes stats)) (\<lambda>max_memory_bytes.
     py_bind (pb_int 32 (st_max_items stats)) (\<lambda>max_items.
     py_bind (pb_int 64 (st_max_value_bytes stats)) (\<lambda>max_value_bytes.
     py_bind (pb_int 32 (st_lru_evictions stats)) (\<lambda>lru_evictions.
     py_bind (pb_int 32 (st_expired_removals stats)) (\<lambda>expired_removals.
     py_bind (pb_int 32 (st_rejected_oversize stats)) (\<lambda>rejected_oversize.
     py_bind (pb_int 32 (st_rejected_capacity stats)) (\<lambda>rejected_capacity.
       Inr \<lparr> sg_size = size, sg_hits = hits, sg_misses = misses, sg_evictions = evictions,
             sg_hit_rate = st_hit_rate stats, sg_memory_usage_bytes = memory_usage_bytes,
             sg_max_memory_bytes = max_memory_bytes, sg_max_items = max_items,
             sg_max_value_bytes = max_value_bytes, sg_lru_evictions = lru_evictions,
             sg_expired_removals = expired_removals, sg_rejected_oversize = rejected_oversize,
             sg_rejected_capacity = rejected_capacity \<rparr>))))))))))))"

end
