(* ===== verification/Servicer.thy ===== *)
theory Servicer
  imports BatchMapping
begin

text \<open>
  The nine handlers of \<^verbatim>\<open>GrpcCacheService\<close> (\<^verbatim>\<open>tiny_cache/transport/grpc/servicer.py\<close>) as functions
  from the world of a call to the response and the world afterwards.
\<close>

section \<open>The frame every handler shares\<close>

text \<open>
  \<^verbatim>\<open>begin_request\<close>, then the \<^verbatim>\<open>try\<close> block of the handler with its two \<^verbatim>\<open>except\<close> clauses and the
  \<^verbatim>\<open>finally\<close>. \<open>empty_response\<close> is the message returned on an error.
\<close>

definition run_handler ::
    "string \<Rightarrow> string \<Rightarrow> string \<Rightarrow> 'r \<Rightarrow> rpc_context
      \<Rightarrow> (rpc_request_state \<Rightarrow> 's rpc_world \<Rightarrow> 'r py \<times> 's rpc_world)
      \<Rightarrow> 's rpc_world \<Rightarrow> 'r \<times> 's rpc_world" where
  "run_handler operation key log_message empty_response context body w =
     (let (state, w1) = begin_request context w;
          (response, w2) =
            (case body state w1 of
               (Inr response, w2) \<Rightarrow> (response, w2)
             | (Inl exc, w2) \<Rightarrow>
                 (empty_response,
                  if is_ValueError exc
                  then handle_invalid_argument state operation key (exn_message exc) w2
                  else handle_internal_error state operation key log_message w2))
      in (response, finish_request state w2))"

definition count_text :: "nat \<Rightarrow> string" where
  "count_text n = ''count='' @ dec n"

section \<open>Single operations\<close>

definition empty_cache_value :: cache_value where
  "empty_cache_value = \<lparr> cv_found = False, cv_value = [] \<rparr>"

definition grpc_get ::
    "'s cache_app \<Rightarrow> rpc_context \<Rightarrow> string \<Rightarrow> 's rpc_world \<Rightarrow> cache_value \<times> 's rpc_world" where
  "grpc_get app context key =
     run_handler ''GET'' key ''Error in Get operation for key %r'' empty_cache_value context
       (\<lambda>state w.
          py_seq (namespace_from_context context w) (\<lambda>namespace w1.
          py_seq (call_app (app_get app key namespace) w1) (\<lambda>v w2.
            (case checked_value v of
               Inl exc \<Rightarrow> (Inl exc, w2)
             | Inr None \<Rightarrow>
                 (Inr empty_cache_value, log_request ''GET'' key (rq_client_addr state) ''MISS'' w2)
             | Inr (Some value) \<Rightarrow>
                 (Inr \<lparr> cv_found = True, cv_value = value \<rparr>,
                  log_request ''GET'' key (rq_client_addr state) ''HIT'' w2)))))"

definition grpc_set ::
    "'s cache_app \<Rightarrow> rpc_context \<Rightarrow> cache_item \<Rightarrow> 's rpc_world \<Rightarrow> cache_status \<times> 's rpc_world" where
  "grpc_set app context request =
     run_handler ''SET'' (it_key request) ''Error in Set operation for key %r''
       CACHE_STATUS_UNSPECIFIED context
       (\<lambda>state w.
          py_seq (namespace_from_context context w) (\<lambda>namespace w1.
          py_seq (call_app (app_set app (it_key request) (it_value request) (it_ttl request) namespace) w1)
            (\<lambda>set_status w2.
          py_seq (map_set_status set_status, w2) (\<lambda>mapped w3.
            (case sm_error mapped of
               None \<Rightarrow>
                 (let ttl_info = (if it_ttl request > 0 then '' ttl='' @ dec_int (it_ttl request) @ ''s'' else [])
                  in (Inr PB_OK,
                      log_request ''SET'' (it_key request) (rq_client_addr state) (''OK'' @ ttl_info) w3))
             | Some err \<Rightarrow>
                 (Inr CACHE_STATUS_UNSPECIFIED,
                  set_details err (set_code RESOURCE_EXHAUSTED
                    (log_request ''SET'' (it_key request) (rq_client_addr state)
                       (sm_log_result mapped) w3))))))))"

text \<open>What the two conditional handlers do with the status of the application.\<close>

definition conditional_response ::
    "string \<Rightarrow> string \<Rightarrow> rpc_request_state \<Rightarrow> cache_conditional_set_status \<Rightarrow> 's rpc_world
      \<Rightarrow> conditional_cache_status py \<times> 's rpc_world" where
  "conditional_response operation key state status w =
     py_seq (map_conditional_status status, w) (\<lambda>mapped w1.
       (let w2 = log_request operation key (rq_client_addr state) (cm_log_result mapped) w1
        in (case cm_error mapped of
              Some err \<Rightarrow>
                (Inr CONDITIONAL_CACHE_STATUS_UNSPECIFIED,
                 set_details err (set_code RESOURCE_EXHAUSTED w2))
            | None \<Rightarrow> (Inr (cm_proto_status mapped), w2))))"

definition grpc_set_if_absent ::
    "'s cache_app \<Rightarrow> rpc_context \<Rightarrow> cache_item \<Rightarrow> 's rpc_world
      \<Rightarrow> conditional_cache_status \<times> 's rpc_world" where
  "grpc_set_if_absent app context request =
     run_handler ''SET_IF_ABSENT'' (it_key request) ''Error in SetIfAbsent operation for key %r''
       CONDITIONAL_CACHE_STATUS_UNSPECIFIED context
       (\<lambda>state w.
          py_seq (namespace_from_context context w) (\<lambda>namespace w1.
          py_seq (call_app
              (app_set_if_absent app (it_key request) (it_value request) (it_ttl request) namespace) w1)
            (\<lambda>status w2. conditional_response ''SET_IF_ABSENT'' (it_key request) state status w2)))"

definition grpc_compare_and_set ::
    "'s cache_app \<Rightarrow> rpc_context \<Rightarrow> compare_and_set_request \<Rightarrow> 's rpc_world
      \<Rightarrow> conditional_cache_status \<times> 's rpc_world" where
  "grpc_compare_and_set app context request =
     run_handler ''COMPARE_AND_SET'' (cr_key request) ''Error in CompareAndSet operation for key %r''
       CONDITIONAL_CACHE_STATUS_UNSPECIFIED context
       (\<lambda>state w.
          py_seq (namespace_from_context context w) (\<lambda>namespace w1.
          py_seq (call_app
              (app_compare_and_set app (cr_key request) (cr_expected_value request) (cr_value request)
                 (cr_ttl request) namespace) w1)
            (\<lambda>status w2. conditional_response ''COMPARE_AND_SET'' (cr_key request) state status w2)))"

definition grpc_delete ::
    "'s cache_app \<Rightarrow> rpc_context \<Rightarrow> string \<Rightarrow> 's rpc_world \<Rightarrow> cache_status \<times> 's rpc_world" where
  "grpc_delete app context key =
     run_handler ''DELETE'' key ''Error in Delete operation for key %r'' CACHE_STATUS_UNSPECIFIED context
       (\<lambda>state w.
          py_seq (namespace_from_context context w) (\<lambda>namespace w1.
          py_seq (call_app (app_delete app key namespace) w1) (\<lambda>deleted w2.
            (Inr PB_OK,
             log_request ''DELETE'' key (rq_client_addr state)
               (if deleted then ''OK'' else ''OK_MISSING'') w2))))"

section \<open>Batches and statistics\<close>

definition grpc_multi_get ::
    "'s cache_app \<Rightarrow> rpc_context \<Rightarrow> string list \<Rightarrow> 's rpc_world \<Rightarrow> cache_lookup list \<times> 's rpc_world" where
  "grpc_multi_get app context keys =
     run_handler ''MULTI_GET'' (count_text (length keys)) ''Error in MultiGet operation for key %r''
       [] context
       (\<lambda>state w.
          py_seq (namespace_from_context context w) (\<lambda>namespace w1.
            (let (items, w2) = build_multi_get_items app keys (rq_request_id state) namespace w1;
                 hits = int (length (filter lk_found items));
                 errors = int (length (filter (\<lambda>item. lk_error item \<noteq> []) items));
                 misses = int (length items) - hits - errors
             in (Inr items,
                 log_request ''MULTI_GET'' (count_text (length keys)) (rq_client_addr state)
                   (''hits='' @ dec_int hits @ '' misses='' @ dec_int misses @ '' errors='' @ dec_int errors)
                   w2))))"

definition batch_result_text :: "cache_operation_result list \<Rightarrow> string" where
  "batch_result_text items =
     (let ok_count = int (length (filter (\<lambda>item. or_status item = PB_OK) items));
          error_count = int (length items) - ok_count
      in ''ok='' @ dec_int ok_count @ '' errors='' @ dec_int error_count)"

definition grpc_multi_set ::
    "'s cache_app \<Rightarrow> rpc_context \<Rightarrow> cache_item list \<Rightarrow> 's rpc_world
      \<Rightarrow> cache_operation_result list \<times> 's rpc_world" where
  "grpc_multi_set app context request_items =
     run_handler ''MULTI_SET'' (count_text (length request_items))
       ''Error in MultiSet operation for key %r'' [] context
       (\<lambda>state w.
          py_seq (namespace_from_context context w) (\<lambda>namespace w1.
            (let (items, w2) = build_multi_set_results app request_items (rq_request_id state) namespace w1
             in (Inr items,
                 log_request ''MULTI_SET'' (count_text (length request_items)) (rq_client_addr state)
                   (batch_result_text items) w2))))"

definition grpc_multi_delete ::
    "'s cache_app \<Rightarrow> rpc_context \<Rightarrow> string list \<Rightarrow> 's rpc_world
      \<Rightarrow> cache_operation_result list \<times> 's rpc_world" where
  "grpc_multi_delete app context keys =
     run_handler ''MULTI_DELETE'' (count_text (length keys)) ''Error in MultiDelete operation for key %r''
       [] context
       (\<lambda>state w.
          py_seq (namespace_from_context context w) (\<lambda>namespace w1.
            (let (items, w2) = build_multi_delete_results app keys (rq_request_id state) namespace w1
             in (Inr items,
                 log_request ''MULTI_DELETE'' (count_text (length keys)) (rq_client_addr state)
                   (batch_result_text items) w2))))"

definition empty_cache_stats :: cache_stats_msg where
  "empty_cache_stats =
     \<lparr> sg_size = 0, sg_hits = 0, sg_misses = 0, sg_evictions = 0, sg_hit_rate = 0,
       sg_memory_usage_bytes = 0, sg_max_memory_bytes = 0, sg_max_items = 0, sg_max_value_bytes = 0,
       sg_lru_evictions = 0, sg_expired_removals = 0, sg_rejected_oversize = 0,
       sg_rejected_capacity = 0 \<rparr>"

text \<open>\<^verbatim>\<open>Stats\<close> has no clause for \<^verbatim>\<open>ValueError\<close>: every exception is an internal error.\<close>

definition grpc_stats ::
    "(nat \<Rightarrow> int \<Rightarrow> int py) \<Rightarrow> 's cache_app \<Rightarrow> rpc_context \<Rightarrow> 's rpc_world
      \<Rightarrow> cache_stats_msg \<times> 's rpc_world" where
  "grpc_stats pb_int app context w =
     (let (state, w1) = begin_request context w;
          (response, w2) =
            (case py_seq (call_app (app_stats app) w1) (\<lambda>stats w2.
                    (cache_stats_response pb_int stats,
                     log_request ''STATS'' [] (rq_client_addr state)
                       (''size='' @ dec_int (st_size stats) @ '' hits='' @ dec_int (st_hits stats) @
                        '' misses='' @ dec_int (st_misses stats)) w2)) of
               (Inr response, w2) \<Rightarrow> (response, w2)
             | (Inl exc, w2) \<Rightarrow>
                 (empty_cache_stats,
                  handle_internal_error state ''STATS'' [] ''Error in Stats operation for key %r'' w2))
      in (response, finish_request state w2))"

end
