(* ===== verification/HandlerFacts.thy ===== *)
theory HandlerFacts
  imports Servicer
begin

text \<open>
  What the handlers do, as seen by the caller and the application: the response, the application's
  state, and the status set on the call. Two pure specifications, \<open>single_outcome\<close> for the
  single operations and \<open>lookups_of\<close>, \<open>results_of\<close> for the batches, and the contract under which no
  handler answers with an internal error.
\<close>

section \<open>Outcomes\<close>

fun outcome :: "'r \<times> 's rpc_world \<Rightarrow> 'r \<times> 's \<times> status_code option \<times> string option" where
  "outcome (r, w) = (r, rw_app w, rw_code w, rw_details w)"

text \<open>An exception in the body: the message of a \<^verbatim>\<open>ValueError\<close>, or the request id.\<close>

definition error_outcome ::
    "'r \<Rightarrow> 's rpc_world \<Rightarrow> 's \<Rightarrow> exn \<Rightarrow> 'r \<times> 's \<times> status_code option \<times> string option" where
  "error_outcome empty_response w s e =
     (if is_ValueError e
      then (empty_response, s, Some INVALID_ARGUMENT, Some (exn_message e))
      else (empty_response, s, Some INTERNAL, Some (internal_error_details (effective_request_id w))))"

text \<open>
  The outcome of a handler that makes one call of the application: \<open>answer\<close> turns the result of the
  call into the response and, for a write that was refused, the status message.
\<close>

definition single_outcome ::
    "'r \<Rightarrow> rpc_context \<Rightarrow> (string option \<Rightarrow> 's \<Rightarrow> 'a py \<times> 's) \<Rightarrow> ('a \<Rightarrow> ('r \<times> string option) py)
      \<Rightarrow> 's rpc_world \<Rightarrow> 'r \<times> 's \<times> status_code option \<times> string option" where
  "single_outcome empty_response context f answer w =
     (case header_namespace context of
        Inl e \<Rightarrow> error_outcome empty_response w (rw_app w) e
      | Inr ns \<Rightarrow>
          (let (r, s) = f ns (rw_app w)
           in case py_bind r answer of
                Inl e \<Rightarrow> error_outcome empty_response w s e
              | Inr (response, None) \<Rightarrow> (response, s, rw_code w, rw_details w)
              | Inr (response, Some msg) \<Rightarrow> (response, s, Some RESOURCE_EXHAUSTED, Some msg)))"

text \<open>The end of a handler's body.\<close>

definition finish_outcome ::
    "'r \<Rightarrow> 's rpc_world \<Rightarrow> 'r py \<times> 's rpc_world \<Rightarrow> 'r \<times> 's \<times> status_code option \<times> string option" where
  "finish_outcome empty_response w x =
     (case fst x of
        Inr r \<Rightarrow> (r, rw_app (snd x), rw_code (snd x), rw_details (snd x))
      | Inl e \<Rightarrow> error_outcome empty_response w (rw_app (snd x)) e)"

lemma outcome_run_handler:
  assumes "begin_request c w = (st, w1)"
  shows "outcome (run_handler op k msg d c body w) = finish_outcome d w (body st w1)"
  using assms begin_request_simps(4) [OF assms]
  by (auto simp: run_handler_def finish_outcome_def error_outcome_def Let_def
      split: prod.splits sum.splits)

text \<open>A body that reads the namespace, calls the application once and answers.\<close>

lemma finish_single:
  assumes "begin_request c w = (st, w1)"
    and "\<And>a w2. finish_outcome d w (g a w2) =
      (case answer a of
         Inl e \<Rightarrow> error_outcome d w (rw_app w2) e
       | Inr (r, None) \<Rightarrow> (r, rw_app w2, rw_code w2, rw_details w2)
       | Inr (r, Some m) \<Rightarrow> (r, rw_app w2, Some RESOURCE_EXHAUSTED, Some m))"
  shows "finish_outcome d w
      (py_seq (namespace_from_context c w1) (\<lambda>ns w2. py_seq (call_app (f ns) w2) g)) =
    single_outcome d c f answer w"
proof -
  obtain r w2 where n: "namespace_from_context c w1 = (r, w2)" by fastforce
  note [simp] = namespace_from_context_simps(2-5) [OF n] begin_request_simps(1-3) [OF assms(1)]
  have r: "r = header_namespace c" by (rule namespace_from_context_simps(1) [OF n])
  show ?thesis
  proof (cases r)
    case (Inl e)
    with r have "header_namespace c = Inl e" by simp
    with Inl n show ?thesis by (simp add: finish_outcome_def single_outcome_def)
  next
    case (Inr ns)
    obtain x s where f: "f ns (rw_app w) = (x, s)" by fastforce
    have "header_namespace c = Inr ns" using r Inr by simp
    with Inr n f show ?thesis
      using assms(2) [of _ "w2\<lparr>rw_app := s\<rparr>"]
      by (cases x) (auto simp: call_app_def single_outcome_def finish_outcome_def
          split: sum.splits option.splits)
  qed
qed

section \<open>The single operations\<close>

definition get_answer :: "pyobj \<Rightarrow> (cache_value \<times> string option) py" where
  "get_answer v =
     (case v of
        PNone \<Rightarrow> Inr (\<lparr> cv_found = False, cv_value = [] \<rparr>, None)
      | PBytes b \<Rightarrow> Inr (\<lparr> cv_found = True, cv_value = b \<rparr>, None)
      | _ \<Rightarrow> Inl (TypeError ''Cache backend returned non-bytes value''))"

fun set_answer :: "cache_set_status \<Rightarrow> (cache_status \<times> string option) py" where
  "set_answer Set_OK = Inr (PB_OK, None)"
| "set_answer Set_VALUE_TOO_LARGE =
     Inr (CACHE_STATUS_UNSPECIFIED, Some ''Value exceeds maximum allowed cache entry size'')"
| "set_answer Set_CAPACITY_EXHAUSTED =
     Inr (CACHE_STATUS_UNSPECIFIED, Some ''Cache capacity exhausted and cannot accommodate new entry'')"

fun conditional_answer ::
    "cache_conditional_set_status \<Rightarrow> (conditional_cache_status \<times> string option) py" where
  "conditional_answer Cond_STORED = Inr (PB_STORED, None)"
| "conditional_answer Cond_EXISTS = Inr (PB_EXISTS, None)"
| "conditional_answer Cond_NOT_FOUND = Inr (PB_NOT_FOUND, None)"
| "conditional_answer Cond_MISMATCH = Inr (PB_MISMATCH, None)"
| "conditional_answer Cond_VALUE_TOO_LARGE =
     Inr (CONDITIONAL_CACHE_STATUS_UNSPECIFIED, Some ''Value exceeds maximum allowed cache entry size'')"
| "conditional_answer Cond_CAPACITY_EXHAUSTED =
     Inr (CONDITIONAL_CACHE_STATUS_UNSPECIFIED,
          Some ''Cache capacity exhausted and cannot accommodate new entry'')"

lemma outcome_get:
  "outcome (grpc_get app c k w) = single_outcome empty_cache_value c (app_get app k) get_answer w"
proof -
  obtain st w1 where b: "begin_request c w = (st, w1)" by fastforce
  show ?thesis
    unfolding grpc_get_def outcome_run_handler [OF b]
    by (rule finish_single [OF b])
       (auto simp: finish_outcome_def checked_value_def get_answer_def empty_cache_value_def
          split: pyobj.split)
qed

lemma map_set_status_eq:
  "map_set_status st =
    (case st of
       Set_OK \<Rightarrow> Inr \<lparr> sm_log_result = ''OK'', sm_error = None \<rparr>
     | Set_VALUE_TOO_LARGE \<Rightarrow>
         Inr \<lparr> sm_log_result = ''VALUE_TOO_LARGE'', sm_error = Some VALUE_TOO_LARGE_MESSAGE \<rparr>
     | Set_CAPACITY_EXHAUSTED \<Rightarrow>
         Inr \<lparr> sm_log_result = ''CAPACITY_EXHAUSTED'', sm_error = Some CAPACITY_EXHAUSTED_MESSAGE \<rparr>)"
  by (cases st) (simp_all add: map_set_status_def)

lemma outcome_set:
  "outcome (grpc_set app c it w) =
    single_outcome CACHE_STATUS_UNSPECIFIED c
      (app_set app (it_key it) (it_value it) (it_ttl it)) set_answer w"
proof -
  obtain st w1 where b: "begin_request c w = (st, w1)" by fastforce
  show ?thesis
    unfolding grpc_set_def outcome_run_handler [OF b]
    by (rule finish_single [OF b])
       (auto simp: finish_outcome_def map_set_status_eq VALUE_TOO_LARGE_MESSAGE_def
          CAPACITY_EXHAUSTED_MESSAGE_def Let_def split: cache_set_status.split)
qed

lemma finish_conditional:
  "finish_outcome CONDITIONAL_CACHE_STATUS_UNSPECIFIED w (conditional_response op k st a w2) =
    (case conditional_answer a of
       Inl e \<Rightarrow> error_outcome CONDITIONAL_CACHE_STATUS_UNSPECIFIED w (rw_app w2) e
     | Inr (r, None) \<Rightarrow> (r, rw_app w2, rw_code w2, rw_details w2)
     | Inr (r, Some m) \<Rightarrow> (r, rw_app w2, Some RESOURCE_EXHAUSTED, Some m))"
  by (cases a) (simp_all add: conditional_response_def map_conditional_status_def finish_outcome_def
      VALUE_TOO_LARGE_MESSAGE_def CAPACITY_EXHAUSTED_MESSAGE_def Let_def
      cache_write_failure_from_conditional_status_def)

lemma outcome_set_if_absent:
  "outcome (grpc_set_if_absent app c it w) =
    single_outcome CONDITIONAL_CACHE_STATUS_UNSPECIFIED c
      (app_set_if_absent app (it_key it) (it_value it) (it_ttl it)) conditional_answer w"
proof -
  obtain st w1 where b: "begin_request c w = (st, w1)" by fastforce
  show ?thesis
    unfolding grpc_set_if_absent_def outcome_run_handler [OF b]
    by (rule finish_single [OF b]) (rule finish_conditional)
qed

lemma outcome_compare_and_set:
  "outcome (grpc_compare_and_set app c rq w) =
    single_outcome CONDITIONAL_CACHE_STATUS_UNSPECIFIED c
      (app_compare_and_set app (cr_key rq) (cr_expected_value rq) (cr_value rq) (cr_ttl rq))
      conditional_answer w"
proof -
  obtain st w1 where b: "begin_request c w = (st, w1)" by fastforce
  show ?thesis
    unfolding grpc_compare_and_set_def outcome_run_handler [OF b]
    by (rule finish_single [OF b]) (rule finish_conditional)
qed

definition delete_answer :: "bool \<Rightarrow> (cache_status \<times> string option) py" where
  "delete_answer deleted = Inr (PB_OK, None)"

lemma outcome_delete:
  "outcome (grpc_delete app c k w) =
    single_outcome CACHE_STATUS_UNSPECIFIED c (app_delete app k) delete_answer w"
proof -
  obtain st w1 where b: "begin_request c w = (st, w1)" by fastforce
  show ?thesis
    unfolding grpc_delete_def outcome_run_handler [OF b]
    by (rule finish_single [OF b]) (simp add: finish_outcome_def delete_answer_def)
qed

section \<open>The batches\<close>

text \<open>One call per item, in order, each in the state the one before left.\<close>

fun each :: "('k \<Rightarrow> 's \<Rightarrow> 'a py \<times> 's) \<Rightarrow> 'k list \<Rightarrow> 's \<Rightarrow> ('k \<times> 'a py) list \<times> 's" where
  "each f [] s = ([], s)"
| "each f (k # ks) s = (let (r, s1) = f k s; (rs, s2) = each f ks s1 in ((k, r) # rs, s2))"

lemma each_keys: "map fst (fst (each f ks s)) = ks"
  by (induction f ks s rule: each.induct) (auto split: prod.splits)

text \<open>The item of a batch response for the result of its own call.\<close>

definition lookup_item :: "string \<Rightarrow> string \<times> pyobj py \<Rightarrow> cache_lookup" where
  "lookup_item request_id x =
     (case x of (key, r) \<Rightarrow>
       (case r of
          Inr PNone \<Rightarrow> \<lparr> lk_key = key, lk_found = False, lk_value = [], lk_error = [] \<rparr>
        | Inr (PBytes b) \<Rightarrow> \<lparr> lk_key = key, lk_found = True, lk_value = b, lk_error = [] \<rparr>
        | Inl (ValueError m) \<Rightarrow> \<lparr> lk_key = key, lk_found = False, lk_value = [], lk_error = m \<rparr>
        | _ \<Rightarrow> \<lparr> lk_key = key, lk_found = False, lk_value = [],
                lk_error = internal_error_details request_id \<rparr>))"

definition operation_item ::
    "string \<Rightarrow> ('a \<Rightarrow> string option) \<Rightarrow> string \<times> 'a py \<Rightarrow> cache_operation_result" where
  "operation_item request_id refusal x =
     (case x of (key, r) \<Rightarrow>
       (case r of
          Inr a \<Rightarrow>
            (case refusal a of
               None \<Rightarrow> \<lparr> or_key = key, or_status = PB_OK, or_error = [] \<rparr>
             | Some m \<Rightarrow> \<lparr> or_key = key, or_status = PB_ERROR, or_error = m \<rparr>)
        | Inl (ValueError m) \<Rightarrow> \<lparr> or_key = key, or_status = PB_ERROR, or_error = m \<rparr>
        | Inl _ \<Rightarrow> \<lparr> or_key = key, or_status = PB_ERROR,
                    or_error = internal_error_details request_id \<rparr>))"

definition set_refusal :: "cache_set_status \<Rightarrow> string option" where
  "set_refusal st =
     (case st of
        Set_OK \<Rightarrow> None
      | Set_VALUE_TOO_LARGE \<Rightarrow> Some ''Value exceeds maximum allowed cache entry size''
      | Set_CAPACITY_EXHAUSTED \<Rightarrow> Some ''Cache capacity exhausted and cannot accommodate new entry'')"

text \<open>Worlds that agree on everything but the application and the log.\<close>

definition same_call :: "'s rpc_world \<Rightarrow> 's rpc_world \<Rightarrow> bool" where
  "same_call w w' \<longleftrightarrow>
     rw_request_id w' = rw_request_id w \<and> rw_code w' = rw_code w \<and> rw_details w' = rw_details w"

lemma same_call_trans: "same_call w w' \<Longrightarrow> same_call w' w'' \<Longrightarrow> same_call w w''"
  by (simp add: same_call_def)

lemma same_call_steps [simp]:
  "same_call w w" "same_call w (emit r w') = same_call w w'" "same_call w (w'\<lparr>rw_app := s\<rparr>) = same_call w w'"
  "same_call w (log_request op k a x w') = same_call w w'"
  by (simp_all add: same_call_def)

lemma is_ValueError_simps [simp]:
  "is_ValueError (ValueError m)" "\<not> is_ValueError (TypeError m)" "\<not> is_ValueError (RuntimeError m)"
  "\<not> is_ValueError (BackendError m)"
  by (simp_all add: is_ValueError_def)

lemma multi_get_items:
  "build_multi_get_items app keys rid ns w = (items, w') \<Longrightarrow>
   each (\<lambda>k. app_get app k ns) keys (rw_app w) = (rs, s) \<Longrightarrow>
   items = map (lookup_item rid) rs \<and> rw_app w' = s \<and> same_call w w'"
proof (induction keys arbitrary: w items rs w' s)
  case (Cons key keys)
  obtain r s1 where r: "app_get app key ns (rw_app w) = (r, s1)" by fastforce
  obtain rs1 s2 where e: "each (\<lambda>k. app_get app k ns) keys s1 = (rs1, s2)" by fastforce
  obtain i1 w1 where b: "build_multi_get_items app keys rid ns (w\<lparr>rw_app := s1\<rparr>) = (i1, w1)" by fastforce
  obtain i2 w2 where b': "build_multi_get_items app keys rid ns
      (emit (Log_exception ''Error in MultiGet operation for key %r'' key) (w\<lparr>rw_app := s1\<rparr>)) = (i2, w2)"
    by fastforce
  note ih = Cons.IH [OF b, of rs1 s2] Cons.IH [OF b', of rs1 s2]
  show ?case
  proof (cases r)
    case (Inl exc)
    with Cons.prems ih r e b b' show ?thesis
      by (cases exc) (auto simp: call_app_def lookup_item_def same_call_def)
  next
    case (Inr v)
    with Cons.prems ih r e b b' show ?thesis
      by (cases v) (auto simp: call_app_def lookup_item_def same_call_def checked_value_def)
  qed
qed simp

lemma multi_set_items:
  "build_multi_set_results app its rid ns w = (items, w') \<Longrightarrow>
   each (\<lambda>it. app_set app (it_key it) (it_value it) (it_ttl it) ns) its (rw_app w) = (rs, s) \<Longrightarrow>
   items = map (\<lambda>(it, r). operation_item rid set_refusal (it_key it, r)) rs \<and> rw_app w' = s \<and> same_call w w'"
proof (induction its arbitrary: w items rs w' s)
  case (Cons it its)
  let ?f = "\<lambda>it. app_set app (it_key it) (it_value it) (it_ttl it) ns"
  obtain r s1 where r: "?f it (rw_app w) = (r, s1)" by fastforce
  obtain rs1 s2 where e: "each ?f its s1 = (rs1, s2)" by fastforce
  obtain i1 w1 where b: "build_multi_set_results app its rid ns (w\<lparr>rw_app := s1\<rparr>) = (i1, w1)" by fastforce
  obtain i2 w2 where b': "build_multi_set_results app its rid ns
      (emit (Log_exception ''Error in MultiSet operation for key %r'' (it_key it)) (w\<lparr>rw_app := s1\<rparr>)) = (i2, w2)"
    by fastforce
  note ih = Cons.IH [OF b, of rs1 s2] Cons.IH [OF b', of rs1 s2]
  show ?case
  proof (cases r)
    case (Inl exc)
    with Cons.prems ih r e b b' show ?thesis
      by (cases exc) (auto simp: call_app_def operation_item_def same_call_def)
  next
    case (Inr st)
    with Cons.prems ih r e b b' show ?thesis
      by (cases st) (auto simp: call_app_def operation_item_def same_call_def set_refusal_def
          map_set_status_eq VALUE_TOO_LARGE_MESSAGE_def CAPACITY_EXHAUSTED_MESSAGE_def)
  qed
qed simp

lemma multi_delete_items:
  "build_multi_delete_results app keys rid ns w = (items, w') \<Longrightarrow>
   each (\<lambda>k. app_delete app k ns) keys (rw_app w) = (rs, s) \<Longrightarrow>
   items = map (operation_item rid (\<lambda>_. None)) rs \<and> rw_app w' = s \<and> same_call w w'"
proof (induction keys arbitrary: w items rs w' s)
  case (Cons key keys)
  obtain r s1 where r: "app_delete app key ns (rw_app w) = (r, s1)" by fastforce
  obtain rs1 s2 where e: "each (\<lambda>k. app_delete app k ns) keys s1 = (rs1, s2)" by fastforce
  obtain i1 w1 where b: "build_multi_delete_results app keys rid ns (w\<lparr>rw_app := s1\<rparr>) = (i1, w1)"
    by fastforce
  obtain i2 w2 where b': "build_multi_delete_results app keys rid ns
      (emit (Log_exception ''Error in MultiDelete operation for key %r'' key) (w\<lparr>rw_app := s1\<rparr>)) = (i2, w2)"
    by fastforce
  note ih = Cons.IH [OF b, of rs1 s2] Cons.IH [OF b', of rs1 s2]
  show ?case
  proof (cases r)
    case (Inl exc)
    with Cons.prems ih r e b b' show ?thesis
      by (cases exc) (auto simp: call_app_def operation_item_def same_call_def)
  next
    case (Inr st)
    with Cons.prems ih r e b b' show ?thesis
      by (auto simp: call_app_def operation_item_def same_call_def)
  qed
qed simp

text \<open>A body that reads the namespace and runs a batch.\<close>

lemma finish_batch:
  assumes "begin_request c w = (st, w1)"
    and "\<And>ns w2 rs s. each (f ns) keys (rw_app w2) = (rs, s) \<Longrightarrow>
      \<exists>w3. g ns w2 = (Inr (items rs), w3) \<and> rw_app w3 = s \<and> same_call w2 w3"
  shows "finish_outcome [] w (py_seq (namespace_from_context c w1) g) =
    (case header_namespace c of
       Inl e \<Rightarrow> error_outcome [] w (rw_app w) e
     | Inr ns \<Rightarrow> (let (rs, s) = each (f ns) keys (rw_app w) in (items rs, s, rw_code w, rw_details w)))"
proof -
  obtain r w2 where n: "namespace_from_context c w1 = (r, w2)" by fastforce
  note [simp] = namespace_from_context_simps(2-5) [OF n] begin_request_simps(1-3) [OF assms(1)]
  have r: "header_namespace c = r" by (rule namespace_from_context_simps(1) [OF n, symmetric])
  show ?thesis
  proof (cases r)
    case (Inl e)
    with r n show ?thesis by (simp add: finish_outcome_def)
  next
    case (Inr ns)
    obtain rs s where e: "each (f ns) keys (rw_app w) = (rs, s)" by fastforce
    with assms(2) [of ns w2 rs s] obtain w3 where
      "g ns w2 = (Inr (items rs), w3)" "rw_app w3 = s" "same_call w2 w3" by auto
    with Inr r n e show ?thesis by (simp add: finish_outcome_def same_call_def)
  qed
qed

lemma outcome_multi_get:
  "outcome (grpc_multi_get app c keys w) =
    (case header_namespace c of
       Inl e \<Rightarrow> error_outcome [] w (rw_app w) e
     | Inr ns \<Rightarrow>
         (let (rs, s) = each (\<lambda>k. app_get app k ns) keys (rw_app w)
          in (map (lookup_item (effective_request_id w)) rs, s, rw_code w, rw_details w)))"
proof -
  obtain st w1 where b: "begin_request c w = (st, w1)" by fastforce
  show ?thesis
    unfolding grpc_multi_get_def outcome_run_handler [OF b]
    by (rule finish_batch [OF b]) (auto simp: Let_def begin_request_simps(4) [OF b] split: prod.splits
        dest!: multi_get_items)
qed

lemma outcome_multi_set:
  "outcome (grpc_multi_set app c its w) =
    (case header_namespace c of
       Inl e \<Rightarrow> error_outcome [] w (rw_app w) e
     | Inr ns \<Rightarrow>
         (let (rs, s) = each (\<lambda>it. app_set app (it_key it) (it_value it) (it_ttl it) ns) its (rw_app w)
          in (map (\<lambda>(it, r). operation_item (effective_request_id w) set_refusal (it_key it, r)) rs, s,
              rw_code w, rw_details w)))"
proof -
  obtain st w1 where b: "begin_request c w = (st, w1)" by fastforce
  show ?thesis
    unfolding grpc_multi_set_def outcome_run_handler [OF b]
    by (rule finish_batch [OF b]) (auto simp: Let_def begin_request_simps(4) [OF b] split: prod.splits
        dest!: multi_set_items)
qed

lemma outcome_multi_delete:
  "outcome (grpc_multi_delete app c keys w) =
    (case header_namespace c of
       Inl e \<Rightarrow> error_outcome [] w (rw_app w) e
     | Inr ns \<Rightarrow>
         (let (rs, s) = each (\<lambda>k. app_delete app k ns) keys (rw_app w)
          in (map (operation_item (effective_request_id w) (\<lambda>_. None)) rs, s, rw_code w, rw_details w)))"
proof -
  obtain st w1 where b: "begin_request c w = (st, w1)" by fastforce
  show ?thesis
    unfolding grpc_multi_delete_def outcome_run_handler [OF b]
    by (rule finish_batch [OF b]) (auto simp: Let_def begin_request_simps(4) [OF b] split: prod.splits
        dest!: multi_delete_items)
qed

section \<open>The request id\<close>

text \<open>A handler leaves the request id of its task as it found it.\<close>

lemma run_handler_restores:
  assumes "\<And>st w1. rw_request_id (snd (body st w1)) = rw_request_id w1"
  shows "rw_request_id (snd (run_handler op k msg d c body w)) = rw_request_id w"
proof -
  obtain st w1 where b: "begin_request c w = (st, w1)" by fastforce
  have "rw_request_id (snd (body st w1)) = effective_request_id w"
    by (simp add: assms begin_request_simps(5) [OF b])
  then show ?thesis
    using b begin_request_simps(6) [OF b]
    by (auto simp: run_handler_def finish_request_def effective_request_id_def Let_def
        split: prod.splits sum.splits)
qed

lemma namespace_keeps_request_id [simp]:
  "rw_request_id (snd (namespace_from_context c w)) = rw_request_id w"
  by (cases "namespace_from_context c w") simp

lemma py_seq_keeps:
  assumes "rw_request_id (snd x) = i" "\<And>v w. rw_request_id w = i \<Longrightarrow> rw_request_id (snd (f v w)) = i"
  shows "rw_request_id (snd (py_seq x f)) = i"
  using assms by (auto simp: py_seq_cases split: sum.split)

lemma conditional_response_keeps [simp]:
  "rw_request_id (snd (conditional_response op k st a w)) = rw_request_id w"
  by (auto simp: conditional_response_def py_seq_cases Let_def split: sum.split option.split)

lemma same_call_request_id: "same_call w w' \<Longrightarrow> rw_request_id w' = rw_request_id w"
  by (simp add: same_call_def)

lemma batches_keep:
  "rw_request_id (snd (build_multi_get_items app keys rid ns w)) = rw_request_id w"
  "rw_request_id (snd (build_multi_set_results app its rid ns w)) = rw_request_id w"
  "rw_request_id (snd (build_multi_delete_results app keys rid ns w)) = rw_request_id w"
  using multi_get_items [OF surjective_pairing surjective_pairing, of app keys rid ns w]
    multi_set_items [OF surjective_pairing surjective_pairing, of app its rid ns w]
    multi_delete_items [OF surjective_pairing surjective_pairing, of app keys rid ns w]
  by (simp_all add: same_call_def)

lemma single_handlers_restore:
  "rw_request_id (snd (grpc_get app c k w)) = rw_request_id w"
  "rw_request_id (snd (grpc_set app c it w)) = rw_request_id w"
  "rw_request_id (snd (grpc_set_if_absent app c it w)) = rw_request_id w"
  "rw_request_id (snd (grpc_compare_and_set app c rq w)) = rw_request_id w"
  "rw_request_id (snd (grpc_delete app c k w)) = rw_request_id w"
  unfolding grpc_get_def grpc_set_def grpc_set_if_absent_def grpc_compare_and_set_def grpc_delete_def
  by (rule run_handler_restores; intro py_seq_keeps;
      simp add: Let_def set_code_def set_details_def split: sum.split option.split)+

lemma batch_handlers_restore:
  "rw_request_id (snd (grpc_multi_get app c keys w)) = rw_request_id w"
  "rw_request_id (snd (grpc_multi_set app c its w)) = rw_request_id w"
  "rw_request_id (snd (grpc_multi_delete app c keys w)) = rw_request_id w"
  unfolding grpc_multi_get_def grpc_multi_set_def grpc_multi_delete_def Let_def
  by (rule run_handler_restores; intro py_seq_keeps; simp add: case_prod_beta batches_keep)+

section \<open>Statistics\<close>

lemma outcome_stats:
  "outcome (grpc_stats pb_int app c w) =
    (let (r, s) = app_stats app (rw_app w)
     in case py_bind r (cache_stats_response pb_int) of
          Inr msg \<Rightarrow> (msg, s, rw_code w, rw_details w)
        | Inl e \<Rightarrow> (empty_cache_stats, s, Some INTERNAL,
                   Some (internal_error_details (effective_request_id w))))"
proof -
  obtain st w1 where b: "begin_request c w = (st, w1)" by fastforce
  note [simp] = begin_request_simps(1-4) [OF b]
  show ?thesis
    by (auto simp: grpc_stats_def b Let_def call_app_def py_seq_cases split: prod.splits sum.splits)
qed

lemma stats_restore: "rw_request_id (snd (grpc_stats pb_int app c w)) = rw_request_id w"
proof -
  obtain st w1 where b: "begin_request c w = (st, w1)" by fastforce
  show ?thesis
    using begin_request_simps(5,6) [OF b]
    by (auto simp: grpc_stats_def b Let_def call_app_def py_seq_cases finish_request_def
        effective_request_id_def split: prod.splits sum.splits)
qed

section \<open>The contract of the application\<close>

text \<open>
  What the transport needs from the application never to answer with an internal error: every
  exception is a \<^verbatim>\<open>ValueError\<close>, and lookups return bytes or \<^verbatim>\<open>None\<close>.
\<close>

definition raises_only_ValueError :: "'a py \<Rightarrow> bool" where
  "raises_only_ValueError r \<longleftrightarrow> (case r of Inl e \<Rightarrow> is_ValueError e | Inr _ \<Rightarrow> True)"

definition bytes_or_none :: "pyobj py \<Rightarrow> bool" where
  "bytes_or_none r \<longleftrightarrow> (case r of Inl _ \<Rightarrow> True | Inr v \<Rightarrow> v = PNone \<or> (\<exists>b. v = PBytes b))"

locale cache_application =
  fixes app :: "'s cache_app" and inv :: "'s \<Rightarrow> bool"
  assumes get_ok: "inv s \<Longrightarrow> app_get app k ns s = (r, s') \<Longrightarrow>
      inv s' \<and> raises_only_ValueError r \<and> bytes_or_none r"
    and set_ok: "inv s \<Longrightarrow> app_set app k v ttl ns s = (st, s') \<Longrightarrow> inv s' \<and> raises_only_ValueError st"
    and set_if_absent_ok: "inv s \<Longrightarrow> app_set_if_absent app k v ttl ns s = (c, s') \<Longrightarrow>
      inv s' \<and> raises_only_ValueError c"
    and compare_and_set_ok: "inv s \<Longrightarrow> app_compare_and_set app k x v ttl ns s = (c, s') \<Longrightarrow>
      inv s' \<and> raises_only_ValueError c"
    and delete_ok: "inv s \<Longrightarrow> app_delete app k ns s = (b, s') \<Longrightarrow> inv s' \<and> raises_only_ValueError b"
    and stats_ok: "inv s \<Longrightarrow> app_stats app s = (t, s') \<Longrightarrow> inv s' \<and> (\<exists>x. t = Inr x)"
begin

text \<open>An outcome that keeps the invariant and is not an internal error.\<close>

lemma single_outcome_ok:
  assumes "\<And>ns r s'. f ns (rw_app w) = (r, s') \<Longrightarrow> inv s' \<and> raises_only_ValueError (py_bind r answer)"
    and "inv (rw_app w)" "single_outcome d c f answer w = (resp, s', code, det)"
  shows "inv s' \<and> (code = rw_code w \<or> code = Some INVALID_ARGUMENT \<or> code = Some RESOURCE_EXHAUSTED)"
proof (cases "header_namespace c")
  case (Inl e)
  with assms header_namespace_Inl [OF Inl] show ?thesis
    by (auto simp: single_outcome_def error_outcome_def)
next
  case (Inr ns)
  with assms(1) [of ns] assms(3) show ?thesis
    by (auto simp: single_outcome_def error_outcome_def raises_only_ValueError_def
        split: sum.splits option.splits prod.splits)
qed

lemma set_answer_total: "\<exists>x. set_answer st = Inr x"
  by (cases st) simp_all

lemma conditional_answer_total: "\<exists>x. conditional_answer st = Inr x"
  by (cases st) simp_all

lemma bind_total:
  "raises_only_ValueError r \<Longrightarrow> \<forall>x. \<exists>y. g x = Inr y \<Longrightarrow> raises_only_ValueError (py_bind r g)"
  by (cases r) (simp_all add: raises_only_ValueError_def, metis sum.case(2))

lemma bind_answers:
  "raises_only_ValueError r1 \<Longrightarrow> raises_only_ValueError (py_bind r1 set_answer)"
  "raises_only_ValueError r2 \<Longrightarrow> raises_only_ValueError (py_bind r2 conditional_answer)"
  "raises_only_ValueError r3 \<Longrightarrow> raises_only_ValueError (py_bind r3 delete_answer)"
  by (intro bind_total allI set_answer_total conditional_answer_total; simp add: delete_answer_def)+

lemma bind_get: "raises_only_ValueError r \<Longrightarrow> bytes_or_none r \<Longrightarrow> raises_only_ValueError (py_bind r get_answer)"
  by (cases r) (auto simp: raises_only_ValueError_def bytes_or_none_def get_answer_def)

lemma each_inv:
  assumes step: "\<And>k s r s'. inv s \<Longrightarrow> f k s = (r, s') \<Longrightarrow> inv s'"
  shows "inv s \<Longrightarrow> each f ks s = (rs, s') \<Longrightarrow> inv s'"
proof (induction ks arbitrary: s rs)
  case (Cons k ks)
  obtain r s1 where r: "f k s = (r, s1)" by fastforce
  obtain rs1 s2 where e: "each f ks s1 = (rs1, s2)" by fastforce
  from Cons.IH [OF step [OF Cons.prems(1) r]] e Cons.prems(2) r show ?case by simp
qed simp

text \<open>The handlers keep the invariant and answer with no internal error.\<close>

lemma get_handler_ok:
  assumes "inv (rw_app w)" "outcome (grpc_get app c k w) = (r, s', code, det)"
  shows "inv s' \<and> (code = rw_code w \<or> code = Some INVALID_ARGUMENT \<or> code = Some RESOURCE_EXHAUSTED)"
  by (rule single_outcome_ok [OF _ assms(1) assms(2) [unfolded outcome_get]]) (use get_ok [OF assms(1)] bind_get in blast)

lemma set_handler_ok:
  assumes "inv (rw_app w)" "outcome (grpc_set app c it w) = (r, s', code, det)"
  shows "inv s' \<and> (code = rw_code w \<or> code = Some INVALID_ARGUMENT \<or> code = Some RESOURCE_EXHAUSTED)"
  by (rule single_outcome_ok [OF _ assms(1) assms(2) [unfolded outcome_set]])
     (use set_ok [OF assms(1)] bind_answers in blast)

lemma set_if_absent_handler_ok:
  assumes "inv (rw_app w)" "outcome (grpc_set_if_absent app c it w) = (r, s', code, det)"
  shows "inv s' \<and> (code = rw_code w \<or> code = Some INVALID_ARGUMENT \<or> code = Some RESOURCE_EXHAUSTED)"
  by (rule single_outcome_ok [OF _ assms(1) assms(2) [unfolded outcome_set_if_absent]])
     (use set_if_absent_ok [OF assms(1)] bind_answers in blast)

lemma compare_and_set_handler_ok:
  assumes "inv (rw_app w)" "outcome (grpc_compare_and_set app c rq w) = (r, s', code, det)"
  shows "inv s' \<and> (code = rw_code w \<or> code = Some INVALID_ARGUMENT \<or> code = Some RESOURCE_EXHAUSTED)"
  by (rule single_outcome_ok [OF _ assms(1) assms(2) [unfolded outcome_compare_and_set]])
     (use compare_and_set_ok [OF assms(1)] bind_answers in blast)

lemma delete_handler_ok:
  assumes "inv (rw_app w)" "outcome (grpc_delete app c k w) = (r, s', code, det)"
  shows "inv s' \<and> (code = rw_code w \<or> code = Some INVALID_ARGUMENT \<or> code = Some RESOURCE_EXHAUSTED)"
  by (rule single_outcome_ok [OF _ assms(1) assms(2) [unfolded outcome_delete]])
     (use delete_ok [OF assms(1)] bind_answers in blast)

lemmas single_handlers_ok =
  get_handler_ok set_handler_ok set_if_absent_handler_ok compare_and_set_handler_ok delete_handler_ok

lemma batch_ok:
  assumes "inv (rw_app w)" "\<And>ns k s r s'. inv s \<Longrightarrow> f ns k s = (r, s') \<Longrightarrow> inv s'"
    and "(case header_namespace c of
       Inl e \<Rightarrow> error_outcome [] w (rw_app w) e
     | Inr ns \<Rightarrow> (let (rs, s) = each (f ns) ks (rw_app w) in (items rs, s, rw_code w, rw_details w))) =
      (is, s', code, det)"
  shows "inv s' \<and> (code = rw_code w \<or> code = Some INVALID_ARGUMENT)"
proof (cases "header_namespace c")
  case (Inl e)
  with assms(1,3) header_namespace_Inl [OF Inl] show ?thesis by (auto simp: error_outcome_def)
next
  case (Inr ns)
  obtain rs s where e: "each (f ns) ks (rw_app w) = (rs, s)" by fastforce
  from each_inv [OF assms(2) assms(1) e] e Inr assms(3) show ?thesis by auto
qed

lemma multi_get_handler_ok:
  assumes "inv (rw_app w)" "outcome (grpc_multi_get app c keys w) = (r, s', code, det)"
  shows "inv s' \<and> (code = rw_code w \<or> code = Some INVALID_ARGUMENT)"
  by (rule batch_ok [OF assms(1) _ assms(2) [unfolded outcome_multi_get]]) (use get_ok in blast)

lemma multi_set_handler_ok:
  assumes "inv (rw_app w)" "outcome (grpc_multi_set app c its w) = (r, s', code, det)"
  shows "inv s' \<and> (code = rw_code w \<or> code = Some INVALID_ARGUMENT)"
  by (rule batch_ok [OF assms(1) _ assms(2) [unfolded outcome_multi_set]]) (use set_ok in blast)

lemma multi_delete_handler_ok:
  assumes "inv (rw_app w)" "outcome (grpc_multi_delete app c keys w) = (r, s', code, det)"
  shows "inv s' \<and> (code = rw_code w \<or> code = Some INVALID_ARGUMENT)"
  by (rule batch_ok [OF assms(1) _ assms(2) [unfolded outcome_multi_delete]]) (use delete_ok in blast)

lemmas batch_handlers_ok = multi_get_handler_ok multi_set_handler_ok multi_delete_handler_ok

end

end
