(* ===== verification/OrderedDict.thy ===== *)
theory OrderedDict
  imports Prelude
begin

text \<open>
  \<^verbatim>\<open>collections.OrderedDict\<close> as the memory store uses it: a list of key-value pairs, oldest position
  first, in which every key occurs once. Assigning to a present key keeps its position, assigning
  to a new key appends, \<^verbatim>\<open>move_to_end\<close> makes a key the newest.
\<close>

type_synonym ('k, 'v) odict = "('k \<times> 'v) list"

definition od_get :: "'k \<Rightarrow> ('k, 'v) odict \<Rightarrow> 'v option" where
  "od_get k d = map_of d k"

definition od_contains :: "'k \<Rightarrow> ('k, 'v) odict \<Rightarrow> bool" where
  "od_contains k d \<longleftrightarrow> map_of d k \<noteq> None"

definition od_setitem :: "'k \<Rightarrow> 'v \<Rightarrow> ('k, 'v) odict \<Rightarrow> ('k, 'v) odict" where
  "od_setitem k v d = AList.update k v d"

text \<open>The dictionary after \<^verbatim>\<open>pop(k, None)\<close>; the popped value is \<open>od_get k d\<close>.\<close>

definition od_pop :: "'k \<Rightarrow> ('k, 'v) odict \<Rightarrow> ('k, 'v) odict" where
  "od_pop k d = AList.delete k d"

text \<open>\<^verbatim>\<open>move_to_end\<close> of a missing key raises \<^verbatim>\<open>KeyError\<close>; the store never does that.\<close>

definition od_move_to_end :: "'k \<Rightarrow> ('k, 'v) odict \<Rightarrow> ('k, 'v) odict" where
  "od_move_to_end k d =
     (case map_of d k of None \<Rightarrow> d | Some v \<Rightarrow> AList.delete k d @ [(k, v)])"

definition od_keys :: "('k, 'v) odict \<Rightarrow> 'k list" where
  "od_keys d = map fst d"

definition od_wf :: "('k, 'v) odict \<Rightarrow> bool" where
  "od_wf d \<longleftrightarrow> distinct (map fst d)"

section \<open>Lookups after updates\<close>

lemma od_contains_iff: "od_contains k d \<longleftrightarrow> k \<in> fst ` set d"
  by (simp add: od_contains_def map_of_eq_None_iff)

lemma od_get_contains: "od_contains k d \<longleftrightarrow> od_get k d \<noteq> None"
  by (simp add: od_contains_def od_get_def)

lemma od_get_Nil [simp]: "od_get k [] = None"
  by (simp add: od_get_def)

lemma od_get_setitem [simp]: "od_get k (od_setitem k' v d) = (if k = k' then Some v else od_get k d)"
  by (simp add: od_get_def od_setitem_def update_conv)

lemma od_get_pop [simp]: "od_get k (od_pop k' d) = (if k = k' then None else od_get k d)"
  by (simp add: od_get_def od_pop_def delete_conv)

lemma od_get_snoc [simp]:
  "od_get k (d @ [(k', v)]) =
     (case od_get k d of None \<Rightarrow> if k = k' then Some v else None | Some w \<Rightarrow> Some w)"
  by (simp add: od_get_def map_add_def split: option.splits)

lemma od_get_move_to_end [simp]: "od_get k (od_move_to_end k' d) = od_get k d"
  by (auto simp: od_get_def od_move_to_end_def delete_conv map_add_def split: option.splits)

lemma od_get_in_set: "od_get k d = Some v \<Longrightarrow> (k, v) \<in> set d"
  by (simp add: od_get_def map_of_SomeD)

lemma od_get_iff: "od_wf d \<Longrightarrow> od_get k d = Some v \<longleftrightarrow> (k, v) \<in> set d"
  unfolding od_get_def od_wf_def by (rule map_of_eq_Some_iff)

lemma od_get_suffix:
  assumes "od_wf d" "suffix d' d"
  shows "od_get k d' = None \<or> od_get k d' = od_get k d"
proof (cases "od_get k d'")
  case (Some v)
  then have "(k, v) \<in> set d'" by (rule od_get_in_set)
  with suffix_set [OF assms(2)] have "(k, v) \<in> set d" by auto
  then have "od_get k d = Some v" by (simp add: od_get_iff [OF assms(1)])
  with Some show ?thesis by simp
qed simp

section \<open>Shape of the list after updates\<close>

lemma od_pop_absent: "od_get k d = None \<Longrightarrow> od_pop k d = d"
  by (simp add: od_get_def od_pop_def map_of_eq_None_iff delete_id)

lemma od_setitem_absent: "od_get k d = None \<Longrightarrow> od_setitem k v d = d @ [(k, v)]"
  by (induction d) (auto simp: od_get_def od_setitem_def split: if_splits)

lemma od_move_to_end_last:
  assumes "od_get k d = None"
  shows "od_move_to_end k (d @ [(k, v)]) = d @ [(k, v)]"
proof -
  have "AList.delete k (d @ [(k, v)]) = AList.delete k d"
    by (induction d) auto
  moreover have "map_of (d @ [(k, v)]) k = Some v"
    using assms by (simp add: od_get_def map_add_def)
  ultimately show ?thesis
    using od_pop_absent [OF assms] by (simp add: od_move_to_end_def od_pop_def)
qed

lemma od_move_to_end_eq: "od_get k d = Some v \<Longrightarrow> od_move_to_end k d = od_pop k d @ [(k, v)]"
  by (simp add: od_get_def od_move_to_end_def od_pop_def)

lemma od_move_to_end_absent: "od_get k d = None \<Longrightarrow> od_move_to_end k d = d"
  by (simp add: od_get_def od_move_to_end_def)

lemma od_pop_Cons [simp]:
  "od_pop k ((k', v) # d) = (if k = k' then od_pop k d else (k', v) # od_pop k d)"
  by (auto simp: od_pop_def)

lemma od_pop_Nil [simp]: "od_pop k [] = []"
  by (simp add: od_pop_def)

lemma od_pop_set: "set (od_pop k d) \<subseteq> set d"
  by (auto simp: od_pop_def AList.delete_eq)

lemma od_pop_fst: "fst ` set (od_pop k d) = fst ` set d - {k}"
  by (auto simp: od_pop_def AList.delete_eq image_iff)

lemma od_pop_length_le: "length (od_pop k d) \<le> length d"
  by (simp add: od_pop_def length_delete_le)

lemma od_pop_length:
  "od_wf d \<Longrightarrow> od_get k d = Some v \<Longrightarrow> length d = Suc (length (od_pop k d))"
  by (induction d) (auto simp: od_wf_def od_get_def od_pop_absent map_of_eq_None_iff image_iff
      split: if_splits)

section \<open>Well-formedness\<close>

lemma od_wf_Nil [simp]: "od_wf []"
  by (simp add: od_wf_def)

lemma od_wf_Cons [simp]: "od_wf ((k, v) # d) \<longleftrightarrow> od_get k d = None \<and> od_wf d"
  by (auto simp: od_wf_def od_get_def map_of_eq_None_iff)

lemma od_wf_pop [intro]: "od_wf d \<Longrightarrow> od_wf (od_pop k d)"
  by (simp add: od_wf_def od_pop_def distinct_delete)

lemma od_wf_snoc: "od_wf (d @ [(k, v)]) \<longleftrightarrow> od_get k d = None \<and> od_wf d"
  by (auto simp: od_wf_def od_get_def map_of_eq_None_iff)

lemma od_wf_setitem [intro]: "od_wf d \<Longrightarrow> od_wf (od_setitem k v d)"
  by (simp add: od_wf_def od_setitem_def distinct_update)

lemma od_wf_move_to_end [intro]: "od_wf d \<Longrightarrow> od_wf (od_move_to_end k d)"
  by (auto simp: od_move_to_end_def od_wf_snoc od_get_def delete_conv od_pop_def [symmetric]
      split: option.splits)
     (simp add: od_pop_def delete_conv)

lemma od_wf_suffix: "od_wf d \<Longrightarrow> suffix d' d \<Longrightarrow> od_wf d'"
  by (auto simp: suffix_def od_wf_def)

lemma od_pop_head: "od_wf ((k, v) # d) \<Longrightarrow> od_pop k ((k, v) # d) = d"
  by (simp add: od_pop_absent)

end
