(* ===== verification/MemoryStore.thy ===== *)
theory MemoryStore
  imports StoreModels Results OrderedDict
begin

text \<open>
  The in-memory backend, \<^verbatim>\<open>CacheStore\<close> of \<^verbatim>\<open>tiny_cache/infrastructure/memory_store.py\<close>, one definition
  per method with the prefix \<open>mem_\<close>. Methods that run under \<^verbatim>\<open>self.lock\<close> are atomic steps: a
  method takes the state and returns its result with the new state. A method that validates its
  arguments returns a sum; the exception leaves the state unchanged.
\<close>

record cache_store = store_state +
  store :: "(string, cache_entry) odict"

section \<open>Construction\<close>

definition mem_init ::
    "int option \<Rightarrow> int option \<Rightarrow> int option \<Rightarrow> int option \<Rightarrow> (nat \<Rightarrow> real) \<Rightarrow> cache_store py" where
  "mem_init p_max_items p_max_memory_mb p_cleanup_interval p_max_value_bytes p_clock =
     py_bind
       (cache_store_limits_resolve p_max_items p_max_memory_mb p_cleanup_interval p_max_value_bytes)
       (\<lambda>limits. Inr
          \<lparr> max_items = lim_max_items limits,
            max_memory_bytes = lim_max_memory_bytes limits,
            max_value_bytes = lim_max_value_bytes limits,
            cleanup_interval = lim_cleanup_interval limits,
            current_memory_bytes = 0, hits = 0, misses = 0, evictions = 0, lru_evictions = 0,
            expired_removals = 0, rejected_oversize = 0, rejected_capacity = 0,
            clock = p_clock, clock_reads = 0, store = [] \<rparr>)"

section \<open>Expiry and removal\<close>

text \<open>The clock is read only when the entry has a ttl.\<close>

definition mem_is_expired :: "cache_entry \<Rightarrow> cache_store \<Rightarrow> bool \<times> cache_store" where
  "mem_is_expired entry s =
     (case e_ttl entry of
        None \<Rightarrow> (False, s)
      | Some ttl \<Rightarrow>
          (let (now, s') = read_clock s in (now - e_created_at entry \<ge> of_int ttl, s')))"

definition mem_remove_entry :: "string \<Rightarrow> cache_store \<Rightarrow> cache_store" where
  "mem_remove_entry key s =
     (case od_get key (store s) of
        None \<Rightarrow> s
      | Some entry \<Rightarrow>
          s\<lparr>store := od_pop key (store s),
            current_memory_bytes := current_memory_bytes s - e_size_bytes entry\<rparr>)"

definition mem_remove_expired_entry :: "string \<Rightarrow> cache_store \<Rightarrow> cache_store" where
  "mem_remove_expired_entry key s =
     (if od_contains key (store s)
      then let s' = mem_remove_entry key s in s'\<lparr>expired_removals := expired_removals s' + 1\<rparr>
      else s)"

text \<open>The comprehension over \<^verbatim>\<open>self.store.items()\<close>, reading the clock entry by entry.\<close>

fun mem_expired_keys ::
    "(string \<times> cache_entry) list \<Rightarrow> cache_store \<Rightarrow> string list \<times> cache_store" where
  "mem_expired_keys [] s = ([], s)"
| "mem_expired_keys ((key, entry) # items) s =
     (let (exp, s1) = mem_is_expired entry s;
          (ks, s2) = mem_expired_keys items s1
      in (if exp then key # ks else ks, s2))"

fun mem_remove_keys :: "string list \<Rightarrow> cache_store \<Rightarrow> cache_store" where
  "mem_remove_keys [] s = s"
| "mem_remove_keys (key # keys) s = mem_remove_keys keys (mem_remove_expired_entry key s)"

definition mem_remove_expired_entries :: "cache_store \<Rightarrow> cache_store" where
  "mem_remove_expired_entries s =
     (let (expired_keys, s1) = mem_expired_keys (store s) s in mem_remove_keys expired_keys s1)"

section \<open>Eviction\<close>

definition mem_evict_lru :: "cache_store \<Rightarrow> bool \<times> cache_store" where
  "mem_evict_lru s =
     (case store s of
        [] \<Rightarrow> (False, s)
      | (lru_key, _) # _ \<Rightarrow>
          (let s' = mem_remove_entry lru_key s
           in (True, s'\<lparr>evictions := evictions s' + 1, lru_evictions := lru_evictions s' + 1\<rparr>)))"

lemma mem_evict_lru_shrinks:
  "mem_evict_lru s = (True, s') \<Longrightarrow> length (store s') < length (store s)"
  by (auto simp: mem_evict_lru_def mem_remove_entry_def od_get_def Let_def le_imp_less_Suc
      od_pop_length_le split: list.splits option.splits)

function mem_evict_to_fit :: "int \<Rightarrow> cache_store \<Rightarrow> bool \<times> cache_store" where
  "mem_evict_to_fit required s =
     (if current_memory_bytes s + required > max_memory_bytes s \<and> store s \<noteq> []
      then (case mem_evict_lru s of
              (False, s') \<Rightarrow> (False, s')
            | (True, s') \<Rightarrow> mem_evict_to_fit required s')
      else (current_memory_bytes s + required \<le> max_memory_bytes s, s))"
  by pat_completeness auto
termination
  by (relation "measure (\<lambda>(_, s). length (store s))") (auto dest: sym mem_evict_lru_shrinks)

text \<open>
  The loop that makes room for a new key: \<open>False\<close> is the early return of the loop body, with the
  rejection counted.
\<close>

function mem_evict_for_new_key :: "cache_store \<Rightarrow> bool \<times> cache_store" where
  "mem_evict_for_new_key s =
     (if int (length (store s)) \<ge> max_items s
      then (case mem_evict_lru s of
              (False, s') \<Rightarrow> (False, s'\<lparr>rejected_capacity := rejected_capacity s' + 1\<rparr>)
            | (True, s') \<Rightarrow> mem_evict_for_new_key s')
      else (True, s))"
  by pat_completeness auto
termination
  by (relation "measure (\<lambda>s. length (store s))") (auto dest: sym mem_evict_lru_shrinks)

declare mem_evict_to_fit.simps [simp del] mem_evict_for_new_key.simps [simp del]

section \<open>Writing\<close>

text \<open>Putting the previous entry of the key back after a rejected write.\<close>

definition mem_restore :: "string \<Rightarrow> cache_entry option \<Rightarrow> cache_store \<Rightarrow> cache_store" where
  "mem_restore key old_entry s =
     (case old_entry of
        None \<Rightarrow> s
      | Some e \<Rightarrow>
          s\<lparr>store := od_setitem key e (store s),
            current_memory_bytes := current_memory_bytes s + e_size_bytes e\<rparr>)"

definition mem_store_value ::
    "string \<Rightarrow> bytes \<Rightarrow> int option \<Rightarrow> cache_entry option \<Rightarrow> cache_store
      \<Rightarrow> cache_set_status \<times> cache_store" where
  "mem_store_value key value ttl old_entry s =
     (let s0 = (case old_entry of
                  None \<Rightarrow> s
                | Some e \<Rightarrow> s\<lparr>current_memory_bytes := current_memory_bytes s - e_size_bytes e\<rparr>);
          (now, s1) = read_clock s0;
          entry = cache_entry_init now value ttl (Some now)
      in if e_size_bytes entry > max_value_bytes s1
         then let s2 = mem_restore key old_entry s1
              in (Set_VALUE_TOO_LARGE, s2\<lparr>rejected_oversize := rejected_oversize s2 + 1\<rparr>)
         else
           (let (fits, s2) =
                  (if current_memory_bytes s1 + e_size_bytes entry > max_memory_bytes s1
                   then mem_evict_to_fit (e_size_bytes entry) s1 else (True, s1))
            in if \<not> fits
               then let s3 = mem_restore key old_entry s2
                    in (Set_CAPACITY_EXHAUSTED, s3\<lparr>rejected_capacity := rejected_capacity s3 + 1\<rparr>)
               else
                 (let (room, s3) =
                        (if old_entry = None then mem_evict_for_new_key s2 else (True, s2))
                  in if \<not> room then (Set_CAPACITY_EXHAUSTED, s3)
                     else
                       (Set_OK,
                        s3\<lparr>store := od_move_to_end key (od_setitem key entry (store s3)),
                           current_memory_bytes :=
                             current_memory_bytes s3 + e_size_bytes entry\<rparr>))))"

section \<open>The methods of the port\<close>

definition mem_get_locked :: "string \<Rightarrow> cache_store \<Rightarrow> bytes option \<times> cache_store" where
  "mem_get_locked key s =
     (case od_get key (store s) of
        None \<Rightarrow> (None, s\<lparr>misses := misses s + 1\<rparr>)
      | Some entry \<Rightarrow>
          (let (exp, s1) = mem_is_expired entry s
           in if exp
              then (None, mem_remove_expired_entry key (s1\<lparr>misses := misses s1 + 1\<rparr>))
              else (Some (e_value entry),
                    s1\<lparr>store := od_move_to_end key (store s1), hits := hits s1 + 1\<rparr>)))"

definition mem_get :: "string \<Rightarrow> cache_store \<Rightarrow> bytes option py \<times> cache_store" where
  "mem_get key s =
     (case validate_key (PStr key) of
        Inl e \<Rightarrow> (Inl e, s)
      | Inr _ \<Rightarrow> (let (r, s') = mem_get_locked key s in (Inr r, s')))"

definition mem_set_locked ::
    "string \<Rightarrow> bytes \<Rightarrow> int option \<Rightarrow> cache_store \<Rightarrow> cache_set_status \<times> cache_store" where
  "mem_set_locked key value ttl s =
     (let old_entry = od_get key (store s)
      in mem_store_value key value ttl old_entry (s\<lparr>store := od_pop key (store s)\<rparr>))"

definition mem_set ::
    "string \<Rightarrow> bytes \<Rightarrow> int option \<Rightarrow> cache_store \<Rightarrow> cache_set_status py \<times> cache_store" where
  "mem_set key value ttl s =
     (case py_bind (validate_key (PStr key)) (\<lambda>_. validate_value (PBytes value)) of
        Inl e \<Rightarrow> (Inl e, s)
      | Inr _ \<Rightarrow> (let (r, s') = mem_set_locked key value ttl s in (Inr r, s')))"

definition mem_set_if_absent_locked ::
    "string \<Rightarrow> bytes \<Rightarrow> int option \<Rightarrow> cache_store
      \<Rightarrow> cache_conditional_set_status py \<times> cache_store" where
  "mem_set_if_absent_locked key value ttl s =
     (let (exists, s1) =
            (case od_get key (store s) of
               None \<Rightarrow> (False, s)
             | Some entry \<Rightarrow>
                 (let (exp, s1) = mem_is_expired entry s
                  in if exp then (False, mem_remove_expired_entry key s1) else (True, s1)))
      in if exists then (Inr Cond_EXISTS, s1)
         else let (st, s2) = mem_store_value key value ttl None s1
              in (conditional_status_from_set_status st, s2))"

definition mem_set_if_absent ::
    "string \<Rightarrow> bytes \<Rightarrow> int option \<Rightarrow> cache_store
      \<Rightarrow> cache_conditional_set_status py \<times> cache_store" where
  "mem_set_if_absent key value ttl s =
     (case py_bind (validate_key (PStr key)) (\<lambda>_. validate_value (PBytes value)) of
        Inl e \<Rightarrow> (Inl e, s)
      | Inr _ \<Rightarrow> mem_set_if_absent_locked key value ttl s)"

definition mem_compare_and_set_locked ::
    "string \<Rightarrow> bytes \<Rightarrow> bytes \<Rightarrow> int option \<Rightarrow> cache_store
      \<Rightarrow> cache_conditional_set_status py \<times> cache_store" where
  "mem_compare_and_set_locked key expected_value value ttl s =
     (case od_get key (store s) of
        None \<Rightarrow> (Inr Cond_NOT_FOUND, s)
      | Some existing \<Rightarrow>
          (let (exp, s1) = mem_is_expired existing s
           in if exp then (Inr Cond_NOT_FOUND, mem_remove_expired_entry key s1)
              else if e_value existing \<noteq> expected_value then (Inr Cond_MISMATCH, s1)
              else let (st, s2) =
                         mem_store_value key value ttl (od_get key (store s1))
                           (s1\<lparr>store := od_pop key (store s1)\<rparr>)
                   in (conditional_status_from_set_status st, s2)))"

definition mem_compare_and_set ::
    "string \<Rightarrow> bytes \<Rightarrow> bytes \<Rightarrow> int option \<Rightarrow> cache_store
      \<Rightarrow> cache_conditional_set_status py \<times> cache_store" where
  "mem_compare_and_set key expected_value value ttl s =
     (case py_bind (validate_key (PStr key))
             (\<lambda>_. py_bind (validate_value (PBytes expected_value))
                    (\<lambda>_. validate_value (PBytes value))) of
        Inl e \<Rightarrow> (Inl e, s)
      | Inr _ \<Rightarrow> mem_compare_and_set_locked key expected_value value ttl s)"

definition mem_delete :: "string \<Rightarrow> cache_store \<Rightarrow> bool py \<times> cache_store" where
  "mem_delete key s =
     (case validate_key (PStr key) of
        Inl e \<Rightarrow> (Inl e, s)
      | Inr _ \<Rightarrow>
          (if od_contains key (store s) then (Inr True, mem_remove_entry key s)
           else (Inr False, s)))"

text \<open>The snapshot taken under the lock after the expired entries are gone.\<close>

definition mem_snapshot_stats :: "cache_store \<Rightarrow> cache_stats_snapshot" where
  "mem_snapshot_stats s =
     (let total = hits s + misses s
      in \<lparr> st_size = int (length (store s)),
           st_hits = hits s,
           st_misses = misses s,
           st_evictions = evictions s,
           st_lru_evictions = lru_evictions s,
           st_expired_removals = expired_removals s,
           st_rejected_oversize = rejected_oversize s,
           st_rejected_capacity = rejected_capacity s,
           st_hit_rate = (if total > 0 then of_int (hits s) / of_int total else 0),
           st_memory_usage_bytes = current_memory_bytes s,
           st_max_memory_bytes = max_memory_bytes s,
           st_max_value_bytes = max_value_bytes s,
           st_max_items = max_items s \<rparr>)"

definition mem_stats :: "cache_store \<Rightarrow> cache_stats_snapshot \<times> cache_store" where
  "mem_stats s =
     (let s' = mem_remove_expired_entries s in (mem_snapshot_stats s', s'))"

section \<open>The other methods\<close>

definition mem_clear :: "cache_store \<Rightarrow> cache_store" where
  "mem_clear s =
     s\<lparr>store := [], current_memory_bytes := 0, hits := 0, misses := 0, evictions := 0,
       lru_evictions := 0, expired_removals := 0, rejected_oversize := 0,
       rejected_capacity := 0\<rparr>"

definition mem_snapshot_items :: "cache_store \<Rightarrow> (string \<times> cache_entry) list" where
  "mem_snapshot_items s = store s"

definition mem_remove_if_expired :: "string \<Rightarrow> cache_store \<Rightarrow> cache_store" where
  "mem_remove_if_expired key s =
     (case od_get key (store s) of
        None \<Rightarrow> s
      | Some entry \<Rightarrow>
          (let (exp, s1) = mem_is_expired entry s
           in if exp then mem_remove_expired_entry key s1 else s1))"

end
