(* ===== verification/MemoryInvariant.thy ===== *)
theory MemoryInvariant
  imports MemoryStore
begin

text \<open>
  The invariant of the memory store and the closed form of its writes. The eviction loops are shown
  equal to \<^const>\<open>drop_until\<close> on the ordered dictionary, so a write is characterised by one equation
  instead of two nested loops, and every later proof about writes rests on that equation.
\<close>

section \<open>Memory accounting\<close>

definition total_size :: "(string, cache_entry) odict \<Rightarrow> int" where
  "total_size d = sum_list (map (e_size_bytes \<circ> snd) d)"

lemma total_size_simps [simp]:
  "total_size [] = 0"
  "total_size (x # d) = e_size_bytes (snd x) + total_size d"
  "total_size (d @ d') = total_size d + total_size d'"
  by (simp_all add: total_size_def)

lemma total_size_pop:
  "od_wf d \<Longrightarrow> od_get k d = Some e \<Longrightarrow> total_size (od_pop k d) = total_size d - e_size_bytes e"
proof (induction d)
  case (Cons x d)
  obtain k' e' where x: "x = (k', e')" by (cases x)
  with Cons show ?case
    by (cases "k = k'") (auto simp: od_get_def od_pop_absent split: if_splits)
qed simp

definition entry_ok :: "int \<Rightarrow> string \<times> cache_entry \<Rightarrow> bool" where
  "entry_ok limit x \<longleftrightarrow>
     valid_key (fst x) \<and>
     e_size_bytes (snd x) = sys_getsizeof (e_value (snd x)) \<and>
     e_size_bytes (snd x) \<le> limit \<and>
     (\<forall>t. e_ttl (snd x) = Some t \<longrightarrow> 0 < t)"

lemma total_size_nonneg: "list_all (entry_ok limit) d \<Longrightarrow> 0 \<le> total_size d"
  by (induction d) (auto simp: entry_ok_def intro!: add_nonneg_nonneg intro: order_less_imp_le)

definition mem_inv :: "cache_store \<Rightarrow> bool" where
  "mem_inv s \<longleftrightarrow>
     state_wf s \<and> od_wf (store s) \<and>
     list_all (entry_ok (max_value_bytes s)) (store s) \<and>
     current_memory_bytes s = total_size (store s) \<and>
     current_memory_bytes s \<le> max_memory_bytes s \<and>
     int (length (store s)) \<le> max_items s"

lemma mem_inv_entry: "mem_inv s \<Longrightarrow> od_get k (store s) = Some e \<Longrightarrow> entry_ok (max_value_bytes s) (k, e)"
  by (auto simp: mem_inv_def list_all_iff dest: od_get_in_set)

lemma mem_inv_wf [dest]: "mem_inv s \<Longrightarrow> od_wf (store s)"
  by (simp add: mem_inv_def)

lemma list_all_suffix: "list_all P xs \<Longrightarrow> suffix ys xs \<Longrightarrow> list_all P ys"
  by (auto simp: suffix_def)

lemma total_size_suffix:
  "list_all (entry_ok l) d \<Longrightarrow> suffix d' d \<Longrightarrow> total_size d' \<le> total_size d"
  by (auto simp: suffix_def dest: total_size_nonneg)

section \<open>Simple steps in closed form\<close>

lemma mem_is_expired_eq:
  "mem_is_expired e s =
     (expired_at (next_reading s) e,
      if e_ttl e = None then s else s\<lparr>clock_reads := Suc (clock_reads s)\<rparr>)"
  by (simp add: mem_is_expired_def expired_at_def read_clock_def next_reading_def
      split: option.splits)

lemma mem_remove_entry_absent [simp]: "od_get k (store s) = None \<Longrightarrow> mem_remove_entry k s = s"
  by (simp add: mem_remove_entry_def)

lemma mem_remove_expired_entry_eq:
  "mem_remove_expired_entry k s =
     (case od_get k (store s) of
        None \<Rightarrow> s
      | Some e \<Rightarrow>
          s\<lparr>store := od_pop k (store s),
            current_memory_bytes := current_memory_bytes s - e_size_bytes e,
            expired_removals := expired_removals s + 1\<rparr>)"
  by (auto simp: mem_remove_expired_entry_def mem_remove_entry_def od_get_contains Let_def
      split: option.splits)

text \<open>The state after its dictionary has been cut down to \<open>d\<close> by evictions.\<close>

definition evicted_to :: "(string, cache_entry) odict \<Rightarrow> cache_store \<Rightarrow> cache_store" where
  "evicted_to d s =
     s\<lparr>store := d,
       current_memory_bytes := current_memory_bytes s - (total_size (store s) - total_size d),
       evictions := evictions s + (int (length (store s)) - int (length d)),
       lru_evictions := lru_evictions s + (int (length (store s)) - int (length d))\<rparr>"

lemma evicted_to_simps [simp]:
  "store (evicted_to d s) = d"
  "max_items (evicted_to d s) = max_items s"
  "max_memory_bytes (evicted_to d s) = max_memory_bytes s"
  "max_value_bytes (evicted_to d s) = max_value_bytes s"
  "current_memory_bytes (evicted_to d s) =
     current_memory_bytes s - (total_size (store s) - total_size d)"
  by (simp_all add: evicted_to_def)

lemma evicted_to_self [simp]: "store s = d \<Longrightarrow> evicted_to d s = s"
  by (simp add: evicted_to_def)

lemma evicted_to_trans [simp]: "evicted_to d' (evicted_to d s) = evicted_to d' s"
  by (simp add: evicted_to_def)

lemma mem_evict_lru_Nil: "store s = [] \<Longrightarrow> mem_evict_lru s = (False, s)"
  by (simp add: mem_evict_lru_def)

lemma mem_evict_lru_Cons:
  "od_wf (store s) \<Longrightarrow> store s = x # d \<Longrightarrow> mem_evict_lru s = (True, evicted_to d s)"
  by (cases x)
     (auto simp: mem_evict_lru_def mem_remove_entry_def evicted_to_def od_get_def od_pop_absent)

section \<open>The eviction loops in closed form\<close>

lemma mem_evict_to_fit_eq:
  assumes "od_wf (store s)" "current_memory_bytes s = total_size (store s)"
  shows "mem_evict_to_fit req s =
    (let d = drop_until (\<lambda>d. total_size d + req \<le> max_memory_bytes s) (store s)
     in (total_size d + req \<le> max_memory_bytes s, evicted_to d s))"
  using assms
proof (induction "store s" arbitrary: s)
  case Nil
  then show ?case
    by (subst mem_evict_to_fit.simps) (simp add: Let_def flip: Nil(1))
next
  case (Cons x d)
  let ?fits = "\<lambda>d. total_size d + req \<le> max_memory_bytes s"
  show ?case
  proof (cases "?fits (x # d)")
    case True
    with Cons.hyps(2) Cons.prems show ?thesis
      by (subst mem_evict_to_fit.simps) (simp add: Let_def flip: Cons.hyps(2))
  next
    case False
    have step: "mem_evict_lru s = (True, evicted_to d s)"
      using Cons.prems(1) Cons.hyps(2) [symmetric] by (rule mem_evict_lru_Cons)
    have "od_wf d" using Cons.prems(1) by (cases x) (simp flip: Cons.hyps(2))
    then have "mem_evict_to_fit req (evicted_to d s) =
        (let d' = drop_until ?fits d in (?fits d', evicted_to d' (evicted_to d s)))"
      using Cons.hyps(1) [of "evicted_to d s"] Cons.prems(2) by simp
    with False step Cons.prems(2) show ?thesis
      by (subst mem_evict_to_fit.simps) (simp add: Let_def flip: Cons.hyps(2))
  qed
qed

lemma mem_evict_for_new_key_eq:
  assumes "od_wf (store s)" "1 \<le> max_items s"
  shows "mem_evict_for_new_key s =
    (True, evicted_to (drop_until (\<lambda>d. int (length d) < max_items s) (store s)) s)"
  using assms
proof (induction "store s" arbitrary: s)
  case Nil
  then show ?case
    by (subst mem_evict_for_new_key.simps) (simp flip: Nil(1))
next
  case (Cons x d)
  show ?case
  proof (cases "int (length (x # d)) < max_items s")
    case True
    then show ?thesis
      by (subst mem_evict_for_new_key.simps) (simp flip: Cons.hyps(2))
  next
    case False
    have step: "mem_evict_lru s = (True, evicted_to d s)"
      using Cons.prems(1) Cons.hyps(2) [symmetric] by (rule mem_evict_lru_Cons)
    have "od_wf d" using Cons.prems(1) by (cases x) (simp flip: Cons.hyps(2))
    with Cons.hyps(1) [of "evicted_to d s"] Cons.prems(2) False step show ?thesis
      by (subst mem_evict_for_new_key.simps) (simp flip: Cons.hyps(2))
  qed
qed

section \<open>Writes in closed form\<close>

text \<open>
  The entries a write of \<open>sz\<close> bytes under \<open>key\<close> keeps: all but the key itself, minus the shortest
  prefix of least recently used ones whose removal makes room for the bytes and, for a new key,
  for one more item.
\<close>

definition kept_entries :: "string \<Rightarrow> int \<Rightarrow> cache_store \<Rightarrow> (string, cache_entry) odict" where
  "kept_entries key sz s =
     (let d0 = od_pop key (store s);
          d1 = drop_until (\<lambda>d. total_size d + sz \<le> max_memory_bytes s) d0
      in if od_contains key (store s) then d1
         else drop_until (\<lambda>d. int (length d) < max_items s) d1)"

definition written :: "string \<Rightarrow> cache_entry \<Rightarrow> cache_store \<Rightarrow> cache_store" where
  "written key entry s =
     (let d = kept_entries key (e_size_bytes entry) s;
          n = int (length (od_pop key (store s))) - int (length d)
      in s\<lparr>store := d @ [(key, entry)],
           current_memory_bytes := total_size d + e_size_bytes entry,
           evictions := evictions s + n, lru_evictions := lru_evictions s + n,
           clock_reads := Suc (clock_reads s)\<rparr>)"

definition write_rejected :: "string \<Rightarrow> cache_store \<Rightarrow> cache_store" where
  "write_rejected key s =
     s\<lparr>store := od_move_to_end key (store s), rejected_oversize := rejected_oversize s + 1,
       clock_reads := Suc (clock_reads s)\<rparr>"

lemma kept_entries_suffix: "suffix (kept_entries key sz s) (od_pop key (store s))"
  unfolding kept_entries_def Let_def
  by (auto intro: drop_until_suffix suffix_order.trans)

lemma od_get_kept_self [simp]: "od_get key (kept_entries key sz s) = None"
proof -
  have "fst ` set (kept_entries key sz s) \<subseteq> fst ` set (od_pop key (store s))"
    using suffix_set [OF kept_entries_suffix] by (rule image_mono)
  then show ?thesis
    by (auto simp: od_pop_fst od_get_def map_of_eq_None_iff)
qed

lemma kept_entries_total:
  assumes "sz \<le> max_memory_bytes s" "list_all (entry_ok l) (store s)"
  shows "total_size (kept_entries key sz s) + sz \<le> max_memory_bytes s"
proof -
  let ?d1 = "drop_until (\<lambda>d. total_size d + sz \<le> max_memory_bytes s) (od_pop key (store s))"
  have fits: "total_size ?d1 + sz \<le> max_memory_bytes s"
    using assms(1) by (intro drop_until_holds [where P = "\<lambda>d. total_size d + sz \<le> max_memory_bytes s"]) simp
  have "list_all (entry_ok l) (od_pop key (store s))"
    using assms(2) od_pop_set [of key "store s"] by (auto simp: list_all_iff)
  then have "list_all (entry_ok l) ?d1"
    by (rule list_all_suffix) (rule drop_until_suffix)
  from total_size_suffix [OF this drop_until_suffix [of "\<lambda>d. int (length d) < max_items s"]] fits
  show ?thesis
    by (simp add: kept_entries_def Let_def)
qed

lemma kept_entries_length:
  assumes "mem_inv s"
  shows "int (length (kept_entries key sz s)) < max_items s"
proof (cases "od_contains key (store s)")
  case True
  then obtain e where "od_get key (store s) = Some e"
    by (auto simp: od_get_contains)
  with assms have "int (length (od_pop key (store s))) < max_items s"
    using od_pop_length [of "store s" key e] by (auto simp: mem_inv_def)
  then show ?thesis
    using suffix_length_le [OF kept_entries_suffix [of key sz s]] by simp
next
  case False
  have "1 \<le> max_items s" using assms by (simp add: mem_inv_def state_wf_def)
  with False show ?thesis
    by (simp add: kept_entries_def Let_def drop_until_holds [where P = "\<lambda>d. int (length d) < max_items s"])
qed

text \<open>Popping the old entry and subtracting its size keeps the accounting exact.\<close>

lemma popped_total:
  assumes "od_wf (store s)" "current_memory_bytes s = total_size (store s)"
  shows "(case od_get key (store s) of None \<Rightarrow> current_memory_bytes s
          | Some e \<Rightarrow> current_memory_bytes s - e_size_bytes e) = total_size (od_pop key (store s))"
  using assms by (auto simp: od_pop_absent total_size_pop split: option.splits)

text \<open>
  The body of the write from the state \<open>s0\<close> in which the old entry is already gone from the
  dictionary and from the accounting.
\<close>

lemma mem_store_value_body:
  assumes "od_wf (store s0)" "current_memory_bytes s0 = total_size (store s0)"
    and "1 \<le> max_items s0" "max_value_bytes s0 \<le> max_memory_bytes s0"
    and "s0 = (case old of None \<Rightarrow> s
           | Some e \<Rightarrow> s\<lparr>current_memory_bytes := current_memory_bytes s - e_size_bytes e\<rparr>)"
    and "od_get key (store s0) = None"
  shows "mem_store_value key v ttl old s =
    (let now = next_reading s0; e = new_entry v ttl now; sz = sys_getsizeof v;
         s1 = s0\<lparr>clock_reads := Suc (clock_reads s0)\<rparr>;
         d1 = drop_until (\<lambda>d. total_size d + sz \<le> max_memory_bytes s0) (store s0);
         d2 = (if old = None then drop_until (\<lambda>d. int (length d) < max_items s0) d1 else d1);
         s2 = evicted_to d2 s1
     in if sz > max_value_bytes s0
        then (Set_VALUE_TOO_LARGE,
              (mem_restore key old s1)\<lparr>rejected_oversize := rejected_oversize s0 + 1\<rparr>)
        else (Set_OK, s2\<lparr>store := d2 @ [(key, e)],
                         current_memory_bytes := total_size d2 + sz\<rparr>))"
proof -
  let ?sz = "sys_getsizeof v"
  let ?s1 = "s0\<lparr>clock_reads := Suc (clock_reads s0)\<rparr>"
  let ?fits = "\<lambda>d. total_size d + ?sz \<le> max_memory_bytes s0"
  let ?d1 = "drop_until ?fits (store s0)"
  have big: "rejected_oversize (mem_restore key old ?s1) = rejected_oversize s0"
    by (simp add: mem_restore_def split: option.splits)
  show ?thesis
  proof (cases "?sz > max_value_bytes s0")
    case True
    then show ?thesis
      using big by (simp add: mem_store_value_def Let_def read_clock_def flip: assms(5))
  next
    case False
    have fits: "?fits ?d1"
      using False assms(4) by (intro drop_until_holds [where P = ?fits]) simp
    have loop: "(if current_memory_bytes ?s1 + ?sz > max_memory_bytes ?s1
        then mem_evict_to_fit ?sz ?s1 else (True, ?s1)) = (True, evicted_to ?d1 ?s1)"
      using assms(1,2) fits
      by (auto simp: mem_evict_to_fit_eq Let_def drop_until_id [of ?fits])
    let ?d2 = "if old = None then drop_until (\<lambda>d. int (length d) < max_items s0) ?d1 else ?d1"
    have suf1: "suffix ?d1 (store s0)" by (rule drop_until_suffix)
    then have wf1: "od_wf ?d1" using assms(1) by (rule od_wf_suffix [rotated])
    have "suffix ?d2 ?d1" by (simp add: drop_until_suffix)
    with suf1 have suf2: "suffix ?d2 (store s0)" by (rule suffix_order.trans [rotated])
    have absent: "od_get key ?d2 = None"
      using od_get_suffix [OF assms(1) suf2, of key] assms(6) by auto
    have room: "(if old = None then mem_evict_for_new_key (evicted_to ?d1 ?s1)
        else (True, evicted_to ?d1 ?s1)) = (True, evicted_to ?d2 ?s1)"
      using wf1 assms(3) by (simp add: mem_evict_for_new_key_eq)
    have fin: "od_move_to_end key (od_setitem key e ?d2) = ?d2 @ [(key, e)]" for e
      using absent by (simp only: od_setitem_absent od_move_to_end_last)
    show ?thesis
      using False assms(2)
      by (simp only: mem_store_value_def Let_def read_clock_def assms(5) [symmetric] prod.case
          cache_entry_init_simps evicted_to_simps loop room fin next_reading_def [symmetric])
        simp
  qed
qed

text \<open>
  The write of \<open>key\<close> from a state that satisfies the invariant: too large a value is rejected with
  the old entry back as the most recently used one, everything else is stored.
\<close>

lemma mem_store_value_eq:
  assumes inv: "mem_inv s"
  shows "mem_store_value key v ttl (od_get key (store s)) (s\<lparr>store := od_pop key (store s)\<rparr>) =
    (if sys_getsizeof v > max_value_bytes s then (Set_VALUE_TOO_LARGE, write_rejected key s)
     else (Set_OK, written key (new_entry v ttl (next_reading s)) s))"
proof -
  let ?d0 = "od_pop key (store s)"
  let ?s0 = "s\<lparr>store := ?d0, current_memory_bytes := total_size ?d0\<rparr>"
  have wf: "od_wf (store s)" and mem: "current_memory_bytes s = total_size (store s)"
    and items: "1 \<le> max_items s" and lim: "max_value_bytes s \<le> max_memory_bytes s"
    using inv by (auto simp: mem_inv_def state_wf_def)
  have s0: "?s0 = (case od_get key (store s) of None \<Rightarrow> s\<lparr>store := ?d0\<rparr>
      | Some e \<Rightarrow> (s\<lparr>store := ?d0\<rparr>)\<lparr>current_memory_bytes :=
          current_memory_bytes (s\<lparr>store := ?d0\<rparr>) - e_size_bytes e\<rparr>)"
    using popped_total [OF wf mem, of key] by (simp split: option.splits)
  have body: "mem_store_value key v ttl (od_get key (store s)) (s\<lparr>store := ?d0\<rparr>) =
    (let now = next_reading ?s0; e = new_entry v ttl now; sz = sys_getsizeof v;
         s1 = ?s0\<lparr>clock_reads := Suc (clock_reads ?s0)\<rparr>;
         d1 = drop_until (\<lambda>d. total_size d + sz \<le> max_memory_bytes ?s0) (store ?s0);
         d2 = (if od_get key (store s) = None
               then drop_until (\<lambda>d. int (length d) < max_items ?s0) d1 else d1);
         s2 = evicted_to d2 s1
     in if sz > max_value_bytes ?s0
        then (Set_VALUE_TOO_LARGE, (mem_restore key (od_get key (store s)) s1)
               \<lparr>rejected_oversize := rejected_oversize ?s0 + 1\<rparr>)
        else (Set_OK, s2\<lparr>store := d2 @ [(key, e)],
                         current_memory_bytes := total_size d2 + sz\<rparr>))"
    using wf items lim by (intro mem_store_value_body [OF _ _ _ _ s0]) auto
  have restore: "mem_restore key (od_get key (store s)) (?s0\<lparr>clock_reads := n\<rparr>) =
      s\<lparr>store := od_move_to_end key (store s), clock_reads := n\<rparr>" for n
  proof (cases "od_get key (store s)")
    case None
    with mem have "total_size (od_pop key (store s)) = current_memory_bytes s"
      by (simp add: od_pop_absent)
    with None show ?thesis
      by (simp add: mem_restore_def od_pop_absent od_move_to_end_absent)
  next
    case (Some e)
    with wf mem show ?thesis
      by (simp add: mem_restore_def od_setitem_absent od_move_to_end_eq total_size_pop)
  qed
  show ?thesis
    unfolding body
    by (simp add: Let_def restore write_rejected_def written_def kept_entries_def evicted_to_def
        next_reading_def od_get_contains)
qed

lemma mem_set_locked_eq:
  "mem_inv s \<Longrightarrow> mem_set_locked key v ttl s =
    (if sys_getsizeof v > max_value_bytes s then (Set_VALUE_TOO_LARGE, write_rejected key s)
     else (Set_OK, written key (new_entry v ttl (next_reading s)) s))"
  by (simp add: mem_set_locked_def mem_store_value_eq)

end
