(* ===== verification/MemoryOps.thy ===== *)
theory MemoryOps
  imports MemoryInvariant
begin

text \<open>
  Every method of the memory store keeps the invariant, and what the methods do to the contents:
  the conditional writes in terms of the unconditional one, the purge of expired entries, and the
  operations as one step function over which runs are lists.
\<close>

section \<open>Preservation of the invariant\<close>

lemma mem_inv_clock_reads [simp]: "mem_inv (s\<lparr>clock_reads := n\<rparr>) = mem_inv s"
  by (simp add: mem_inv_def state_wf_def)

lemma mem_inv_misses [inv_intros]: "mem_inv s \<Longrightarrow> mem_inv (s\<lparr>misses := misses s + 1\<rparr>)"
  by (simp add: mem_inv_def state_wf_def)

lemma mem_inv_is_expired [inv_intros]:
  "mem_inv s \<Longrightarrow> mem_is_expired e s = (b, s') \<Longrightarrow> mem_inv s'"
  by (auto simp: mem_is_expired_eq split: if_splits)

lemma list_all_move_to_end: "list_all P d \<Longrightarrow> list_all P (od_move_to_end k d)"
  using od_pop_set [of k d]
  by (auto simp: od_move_to_end_def list_all_iff od_pop_def split: option.splits dest: map_of_SomeD)

lemma total_size_move_to_end: "od_wf d \<Longrightarrow> total_size (od_move_to_end k d) = total_size d"
  by (cases "od_get k d")
     (simp_all add: od_move_to_end_eq total_size_pop od_move_to_end_absent)

lemma length_move_to_end: "od_wf d \<Longrightarrow> length (od_move_to_end k d) = length d"
  by (cases "od_get k d")
     (simp_all add: od_move_to_end_eq od_pop_length [symmetric] od_move_to_end_absent)

lemma mem_inv_hit [inv_intros]:
  "mem_inv s \<Longrightarrow> mem_inv (s\<lparr>store := od_move_to_end k (store s), hits := hits s + 1\<rparr>)"
  by (auto simp: mem_inv_def state_wf_def list_all_move_to_end total_size_move_to_end
      length_move_to_end)

lemma mem_inv_write_rejected [inv_intros]: "mem_inv s \<Longrightarrow> mem_inv (write_rejected k s)"
  by (auto simp: mem_inv_def state_wf_def write_rejected_def list_all_move_to_end
      total_size_move_to_end length_move_to_end)

lemma mem_inv_remove_entry [inv_intros]:
  assumes "mem_inv s"
  shows "mem_inv (mem_remove_entry k s)"
proof (cases "od_get k (store s)")
  case None
  with assms show ?thesis by simp
next
  case (Some e)
  have "0 \<le> e_size_bytes e"
    using mem_inv_entry [OF assms Some] by (simp add: entry_ok_def less_imp_le)
  with assms Some od_pop_set [of k "store s"] od_pop_length_le [of k "store s"] show ?thesis
    by (auto simp: mem_inv_def state_wf_def mem_remove_entry_def total_size_pop list_all_iff)
qed

lemma mem_inv_remove_expired_entry [inv_intros]:
  assumes "mem_inv s"
  shows "mem_inv (mem_remove_expired_entry k s)"
proof -
  have "mem_inv (s'\<lparr>expired_removals := expired_removals s' + 1\<rparr>)" if "mem_inv s'" for s'
    using that by (simp add: mem_inv_def state_wf_def)
  with assms show ?thesis
    by (simp add: mem_remove_expired_entry_def Let_def mem_inv_remove_entry)
qed

lemma mem_inv_written [inv_intros]:
  assumes inv: "mem_inv s" and key: "valid_key k"
    and size: "sys_getsizeof v \<le> max_value_bytes s"
  shows "mem_inv (written k (new_entry v ttl now) s)"
proof -
  let ?d = "kept_entries k (sys_getsizeof v) s"
  have all: "list_all (entry_ok (max_value_bytes s)) (store s)"
    and lim: "sys_getsizeof v \<le> max_memory_bytes s"
    using inv size by (auto simp: mem_inv_def state_wf_def)
  have "list_all (entry_ok (max_value_bytes s)) (od_pop k (store s))"
    using all od_pop_set [of k "store s"] by (auto simp: list_all_iff)
  then have "list_all (entry_ok (max_value_bytes s)) ?d"
    by (rule list_all_suffix) (rule kept_entries_suffix)
  moreover have "entry_ok (max_value_bytes s) (k, new_entry v ttl now)"
    using key size by (auto simp: entry_ok_def dest: e_ttl_init_positive)
  moreover have "od_wf ?d"
    using inv by (intro od_wf_suffix [OF od_wf_pop kept_entries_suffix]) auto
  moreover have "length ?d \<le> length (od_pop k (store s))"
    by (rule suffix_length_le [OF kept_entries_suffix])
  moreover note kept_entries_total [OF lim all, of k] kept_entries_length [OF inv, of k "sys_getsizeof v"]
  ultimately show ?thesis
    using inv by (auto simp: written_def Let_def mem_inv_def state_wf_def od_wf_snoc)
qed

lemma mem_inv_set_locked [inv_intros]:
  "mem_inv s \<Longrightarrow> valid_key k \<Longrightarrow> mem_set_locked k v ttl s = (r, s') \<Longrightarrow> mem_inv s'"
  by (auto simp: mem_set_locked_eq intro: inv_intros split: if_splits)

section \<open>The conditional writes in terms of the unconditional one\<close>

text \<open>The state in which a conditional write decides: its key looked at, an expired entry removed.\<close>

definition mem_probe :: "string \<Rightarrow> cache_store \<Rightarrow> cache_entry option \<times> cache_store" where
  "mem_probe key s =
     (case od_get key (store s) of
        None \<Rightarrow> (None, s)
      | Some e \<Rightarrow>
          (let (exp, s1) = mem_is_expired e s
           in if exp then (None, mem_remove_expired_entry key s1) else (Some e, s1)))"

lemma mem_probe_None_get: "mem_inv s \<Longrightarrow> mem_probe k s = (None, s') \<Longrightarrow> od_get k (store s') = None"
  by (auto simp: mem_probe_def mem_is_expired_eq mem_remove_expired_entry_eq
      split: option.splits if_splits)

lemma mem_probe_Some_get:
  "mem_probe k s = (Some e, s') \<Longrightarrow> od_get k (store s) = Some e \<and> store s' = store s"
  by (auto simp: mem_probe_def mem_is_expired_eq split: option.splits if_splits)

lemma mem_inv_probe [inv_intros]: "mem_inv s \<Longrightarrow> mem_probe k s = (r, s') \<Longrightarrow> mem_inv s'"
  by (auto simp: mem_probe_def mem_is_expired_eq intro: inv_intros split: option.splits if_splits)

lemma mem_set_if_absent_locked_eq:
  assumes "mem_inv s"
  shows "mem_set_if_absent_locked k v ttl s =
    (case mem_probe k s of
       (Some _, s1) \<Rightarrow> (Inr Cond_EXISTS, s1)
     | (None, s1) \<Rightarrow> (let (st, s2) = mem_set_locked k v ttl s1 in (Inr (stored_status st), s2)))"
proof (cases "mem_probe k s")
  case (Pair r s1)
  show ?thesis
  proof (cases r)
    case None
    with Pair assms have "od_get k (store s1) = None" by (auto intro: mem_probe_None_get)
    then have "mem_set_locked k v ttl s1 = mem_store_value k v ttl None s1"
      by (simp add: mem_set_locked_def od_pop_absent)
    with Pair None show ?thesis
      by (auto simp: mem_set_if_absent_locked_def mem_probe_def Let_def
          split: option.splits prod.splits if_splits)
  next
    case (Some e)
    with Pair show ?thesis
      by (auto simp: mem_set_if_absent_locked_def mem_probe_def Let_def
          split: option.splits prod.splits if_splits)
  qed
qed

lemma mem_compare_and_set_locked_eq:
  "mem_compare_and_set_locked k x v ttl s =
    (case mem_probe k s of
       (None, s1) \<Rightarrow> (Inr Cond_NOT_FOUND, s1)
     | (Some e, s1) \<Rightarrow>
         if e_value e \<noteq> x then (Inr Cond_MISMATCH, s1)
         else let (st, s2) = mem_set_locked k v ttl s1 in (Inr (stored_status st), s2))"
  by (auto simp: mem_compare_and_set_locked_def mem_probe_def mem_set_locked_def Let_def
      split: option.splits prod.splits)

lemma mem_get_locked_eq:
  "mem_get_locked k s =
    (case mem_probe k s of
       (None, s1) \<Rightarrow> (None, s1\<lparr>misses := misses s1 + 1\<rparr>)
     | (Some e, s1) \<Rightarrow>
         (Some (e_value e), s1\<lparr>store := od_move_to_end k (store s1), hits := hits s1 + 1\<rparr>))"
  by (auto simp: mem_get_locked_def mem_probe_def mem_is_expired_eq mem_remove_expired_entry_eq
      split: option.splits prod.splits)

section \<open>The purge of expired entries\<close>

lemma mem_expired_keys_state:
  "mem_expired_keys items s = (ks, s') \<Longrightarrow>
     s' = s\<lparr>clock_reads := clock_reads s + length (filter (\<lambda>(_, e). e_ttl e \<noteq> None) items)\<rparr>"
  by (induction items s arbitrary: ks s' rule: mem_expired_keys.induct)
     (auto simp: mem_is_expired_eq split: prod.splits if_splits)

lemma mem_expired_keys_subset:
  "mem_expired_keys items s = (ks, s') \<Longrightarrow> set ks \<subseteq> fst ` set items"
proof (induction items arbitrary: s ks s')
  case (Cons x items)
  obtain k e where x: "x = (k, e)" by (cases x)
  obtain b s1 where ex: "mem_is_expired e s = (b, s1)" by fastforce
  obtain ks' s2 where rest: "mem_expired_keys items s1 = (ks', s2)" by fastforce
  from Cons.IH [OF rest] Cons.prems x ex rest show ?case
    by (auto split: if_splits)
qed simp

text \<open>
  With a clock that never goes back, an entry listed as expired is expired from then on, and an
  entry that was expired when the scan started is listed.
\<close>

lemma next_reading_mono:
  "mono (clock s) \<Longrightarrow> m \<le> n \<Longrightarrow>
     next_reading (s\<lparr>clock_reads := m\<rparr>) \<le> next_reading (s\<lparr>clock_reads := n\<rparr>)"
  by (simp add: next_reading_def monoD)

lemma mem_expired_keys_sound:
  "mem_expired_keys items s = (ks, s') \<Longrightarrow> mono (clock s) \<Longrightarrow> k \<in> set ks \<Longrightarrow>
     \<exists>e. (k, e) \<in> set items \<and> expired_at (next_reading s') e"
proof (induction items s arbitrary: ks s' rule: mem_expired_keys.induct)
  case (2 key e items s)
  obtain b s1 where ex: "mem_is_expired e s = (b, s1)" by fastforce
  obtain ks' where rest: "mem_expired_keys items s1 = (ks', s')"
    using "2.prems"(1) ex by (auto split: prod.splits if_splits)
  have s': "\<exists>n. s' = s\<lparr>clock_reads := n\<rparr> \<and> clock_reads s \<le> n"
    using ex mem_expired_keys_state [OF rest] by (auto simp: mem_is_expired_eq split: if_splits)
  have mono1: "mono (clock s1)"
    using ex "2.prems"(2) by (auto simp: mem_is_expired_eq split: if_splits)
  show ?case
  proof (cases "k \<in> set ks'")
    case True
    with "2.IH" [OF ex [symmetric] refl rest mono1] show ?thesis by auto
  next
    case False
    with "2.prems" ex rest have "k = key" "expired_at (next_reading s) e"
      by (auto simp: mem_is_expired_eq split: if_splits)
    moreover have "next_reading s \<le> next_reading s'"
      using s' next_reading_mono [OF "2.prems"(2), of "clock_reads s"] by auto
    ultimately show ?thesis by (auto intro: expired_at_mono)
  qed
qed simp

lemma mem_expired_keys_complete:
  "mem_expired_keys items s = (ks, s') \<Longrightarrow> mono (clock s) \<Longrightarrow> (k, e) \<in> set items \<Longrightarrow>
     expired_at t e \<Longrightarrow> t \<le> next_reading s \<Longrightarrow> k \<in> set ks"
proof (induction items s arbitrary: ks s' rule: mem_expired_keys.induct)
  case (2 key e' items s)
  obtain b s1 where ex: "mem_is_expired e' s = (b, s1)" by fastforce
  obtain ks' where rest: "mem_expired_keys items s1 = (ks', s')"
    using "2.prems"(1) ex by (auto split: prod.splits if_splits)
  have s1: "mono (clock s1)" "next_reading s \<le> next_reading s1"
    using ex "2.prems"(2) next_reading_mono [of s "clock_reads s" "Suc (clock_reads s)"]
    by (auto simp: mem_is_expired_eq split: if_splits)
  show ?case
  proof (cases "(k, e) \<in> set items")
    case True
    have "t \<le> next_reading s1" using s1(2) "2.prems"(5) by simp
    with "2.IH" [OF ex [symmetric] refl rest s1(1) True "2.prems"(4)] "2.prems"(1) ex rest
    show ?thesis by (auto split: if_splits)
  next
    case False
    with "2.prems"(3) have "k = key" "e = e'" by auto
    with "2.prems" ex rest show ?thesis
      by (auto simp: mem_is_expired_eq dest: expired_at_mono)
  qed
qed simp

lemma mem_remove_keys_store:
  "store (mem_remove_keys ks s) = filter (\<lambda>x. fst x \<notin> set ks) (store s)"
proof (induction ks s rule: mem_remove_keys.induct)
  case (2 key keys s)
  have "store (mem_remove_expired_entry key s) = od_pop key (store s)"
    by (simp add: mem_remove_expired_entry_eq od_pop_absent split: option.splits)
  moreover have "od_pop key d = filter (\<lambda>x. fst x \<noteq> key) d" for d :: "(string, cache_entry) odict"
    by (induction d) (auto simp: od_pop_def)
  ultimately show ?case
    using 2 by (auto intro: filter_cong)
qed simp

lemma mem_inv_remove_keys [inv_intros]: "mem_inv s \<Longrightarrow> mem_inv (mem_remove_keys ks s)"
  by (induction ks s rule: mem_remove_keys.induct) (auto intro: inv_intros)

lemma mem_inv_remove_expired_entries [inv_intros]:
  assumes "mem_inv s"
  shows "mem_inv (mem_remove_expired_entries s)"
proof -
  obtain ks s1 where p: "mem_expired_keys (store s) s = (ks, s1)" by fastforce
  with mem_expired_keys_state [OF p] assms have "mem_inv s1" by simp
  with p show ?thesis
    by (simp add: mem_remove_expired_entries_def mem_inv_remove_keys)
qed

text \<open>Only the accounting, the removal counter and the dictionary differ after removals.\<close>

lemma mem_remove_keys_frame:
  "\<exists>d c n. mem_remove_keys ks s = s\<lparr>store := d, current_memory_bytes := c, expired_removals := n\<rparr>"
proof (induction ks s rule: mem_remove_keys.induct)
  case (1 s)
  have "s = s\<lparr>store := store s, current_memory_bytes := current_memory_bytes s,
      expired_removals := expired_removals s\<rparr>" by simp
  then show ?case by (metis mem_remove_keys.simps(1))
next
  case (2 key keys s)
  then obtain d c n where "mem_remove_keys (key # keys) s =
      (mem_remove_expired_entry key s)\<lparr>store := d, current_memory_bytes := c, expired_removals := n\<rparr>"
    by auto
  then show ?case
    by (auto simp: mem_remove_expired_entry_eq split: option.splits)
qed

section \<open>The operations as one step function\<close>

fun mem_exec :: "store_op \<Rightarrow> cache_store \<Rightarrow> cache_store" where
  "mem_exec (Op_get k) s = snd (mem_get k s)"
| "mem_exec (Op_set k v ttl) s = snd (mem_set k v ttl s)"
| "mem_exec (Op_set_if_absent k v ttl) s = snd (mem_set_if_absent k v ttl s)"
| "mem_exec (Op_compare_and_set k x v ttl) s = snd (mem_compare_and_set k x v ttl s)"
| "mem_exec (Op_delete k) s = snd (mem_delete k s)"
| "mem_exec Op_stats s = snd (mem_stats s)"
| "mem_exec Op_clear s = mem_clear s"
| "mem_exec (Op_remove_if_expired k) s = mem_remove_if_expired k s"

fun mem_run :: "store_op list \<Rightarrow> cache_store \<Rightarrow> cache_store" where
  "mem_run [] s = s"
| "mem_run (op # ops) s = mem_run ops (mem_exec op s)"

lemma mem_inv_get_locked [inv_intros]:
  "mem_inv s \<Longrightarrow> mem_get_locked k s = (r, s') \<Longrightarrow> mem_inv s'"
  by (auto simp: mem_get_locked_eq intro: inv_intros split: option.splits prod.splits)

lemma mem_inv_get [inv_intros]: "mem_inv s \<Longrightarrow> mem_inv (snd (mem_get k s))"
  by (auto simp: mem_get_def intro: inv_intros split: sum.splits prod.splits)

lemma mem_inv_set [inv_intros]: "mem_inv s \<Longrightarrow> mem_inv (snd (mem_set k v ttl s))"
  by (auto simp: mem_set_def py_simps intro: inv_intros split: sum.splits prod.splits)

lemma mem_inv_conditional_locked:
  assumes inv: "mem_inv s" and key: "valid_key k"
  shows "mem_inv (snd (mem_set_if_absent_locked k v ttl s))"
    "mem_inv (snd (mem_compare_and_set_locked k x v ttl s))"
proof -
  obtain r s1 where p: "mem_probe k s = (r, s1)" by fastforce
  with inv have "mem_inv s1" by (rule mem_inv_probe)
  moreover obtain st s2 where w: "mem_set_locked k v ttl s1 = (st, s2)" by fastforce
  ultimately have "mem_inv s1" "mem_inv s2" by (auto intro: mem_inv_set_locked key)
  with inv p w show "mem_inv (snd (mem_set_if_absent_locked k v ttl s))"
    "mem_inv (snd (mem_compare_and_set_locked k x v ttl s))"
    by (simp_all add: mem_set_if_absent_locked_eq mem_compare_and_set_locked_eq split: option.splits)
qed

lemma mem_inv_set_if_absent [inv_intros]: "mem_inv s \<Longrightarrow> mem_inv (snd (mem_set_if_absent k v ttl s))"
  by (simp add: mem_set_if_absent_def mem_inv_conditional_locked split: sum.splits)

lemma mem_inv_compare_and_set [inv_intros]:
  "mem_inv s \<Longrightarrow> mem_inv (snd (mem_compare_and_set k x v ttl s))"
  by (simp add: mem_compare_and_set_def mem_inv_conditional_locked split: sum.splits)

lemma mem_inv_delete [inv_intros]: "mem_inv s \<Longrightarrow> mem_inv (snd (mem_delete k s))"
  by (auto simp: mem_delete_def intro: inv_intros split: sum.splits)

lemma mem_inv_stats [inv_intros]: "mem_inv s \<Longrightarrow> mem_inv (snd (mem_stats s))"
  by (simp add: mem_stats_def Let_def mem_inv_remove_expired_entries)

lemma mem_inv_clear [inv_intros]: "mem_inv s \<Longrightarrow> mem_inv (mem_clear s)"
  by (simp add: mem_inv_def state_wf_def mem_clear_def)

lemma mem_inv_remove_if_expired [inv_intros]: "mem_inv s \<Longrightarrow> mem_inv (mem_remove_if_expired k s)"
  by (auto simp: mem_remove_if_expired_def intro: inv_intros split: option.splits prod.splits)

lemma mem_inv_exec [inv_intros]: "mem_inv s \<Longrightarrow> mem_inv (mem_exec op s)"
  by (cases op) (auto intro: inv_intros)

lemma mem_inv_run [inv_intros]: "mem_inv s \<Longrightarrow> mem_inv (mem_run ops s)"
  by (induction ops s rule: mem_run.induct) (auto intro: inv_intros)

lemma mem_inv_init: "mem_init mi mm ci mv clk = Inr s \<Longrightarrow> mem_inv s"
  using limits_resolve_wf [of mi mm ci mv]
  by (auto simp: mem_init_def py_simps mem_inv_def state_wf_def limits_wf_def)

end
