(* ===== verification/MemoryProps.thy ===== *)
theory MemoryProps
  imports MemoryOps
begin

text \<open>
  The correctness of the in-memory backend: bounds and accounting in every reachable state, the
  exact effect of every method, least-recently-used eviction, expiry, and the statistics.
  \<open>sample_store\<close> and the states built from it are the inputs of the witnesses.
\<close>

section \<open>Frames\<close>

definition same_config :: "cache_store \<Rightarrow> cache_store \<Rightarrow> bool" where
  "same_config s s' \<longleftrightarrow>
     max_items s' = max_items s \<and> max_memory_bytes s' = max_memory_bytes s \<and>
     max_value_bytes s' = max_value_bytes s \<and> cleanup_interval s' = cleanup_interval s \<and>
     clock s' = clock s \<and> clock_reads s \<le> clock_reads s'"

lemma same_config_refl [intro, simp]: "same_config s s"
  by (simp add: same_config_def)

lemma same_config_trans [trans]: "same_config s s' \<Longrightarrow> same_config s' s'' \<Longrightarrow> same_config s s''"
  by (simp add: same_config_def)

lemma same_config_probe: "mem_probe k s = (r, s') \<Longrightarrow> same_config s s'"
  by (auto simp: mem_probe_def mem_is_expired_eq mem_remove_expired_entry_eq same_config_def
      split: option.splits if_splits)

lemma same_config_set_locked:
  "mem_inv s \<Longrightarrow> mem_set_locked k v ttl s = (r, s') \<Longrightarrow> same_config s s'"
  by (auto simp: mem_set_locked_eq write_rejected_def written_def Let_def same_config_def
      split: if_splits)

lemma same_config_remove_expired_entries: "same_config s (mem_remove_expired_entries s)"
proof -
  obtain ks s1 where p: "mem_expired_keys (store s) s = (ks, s1)" by fastforce
  with mem_expired_keys_state [OF p] mem_remove_keys_frame [of ks s1] show ?thesis
    by (auto simp: mem_remove_expired_entries_def same_config_def)
qed

lemma same_config_writes:
  assumes "mem_inv s"
  shows "same_config s (snd (mem_set k v ttl s))"
    "same_config s (snd (mem_set_if_absent k v ttl s))"
    "same_config s (snd (mem_compare_and_set k x v ttl s))"
  using assms
  by (auto simp: mem_set_def mem_set_if_absent_def mem_set_if_absent_locked_eq
      mem_compare_and_set_def mem_compare_and_set_locked_eq
      intro: same_config_set_locked same_config_probe mem_inv_probe same_config_trans
      split: sum.splits prod.splits option.splits)

lemma same_config_get: "same_config s (snd (mem_get k s))"
proof -
  have "same_config s (snd (mem_get_locked k s))"
  proof (cases "mem_probe k s")
    case (Pair r s1)
    from same_config_probe [OF Pair] show ?thesis
      by (auto simp: mem_get_locked_eq Pair same_config_def split: option.splits)
  qed
  then show ?thesis
    by (auto simp: mem_get_def split: sum.splits prod.splits)
qed

lemma same_config_others:
  "same_config s (snd (mem_delete k s))"
  "same_config s (mem_clear s)"
  "same_config s (mem_remove_if_expired k s)"
  "same_config s (snd (mem_stats s))"
  by (auto simp: mem_delete_def mem_remove_entry_def mem_clear_def mem_remove_if_expired_def
        mem_is_expired_eq mem_remove_expired_entry_eq same_config_def split: sum.splits option.splits)
     (use same_config_remove_expired_entries [of s] in
        \<open>auto simp: mem_stats_def Let_def same_config_def\<close>)

lemma same_config_exec: "mem_inv s \<Longrightarrow> same_config s (mem_exec op s)"
  by (cases op) (simp_all add: same_config_writes same_config_get same_config_others)

lemma same_config_run: "mem_inv s \<Longrightarrow> same_config s (mem_run ops s)"
  by (induction ops s rule: mem_run.induct)
     (auto intro: same_config_trans same_config_exec mem_inv_exec)

section \<open>Sample states for the witnesses\<close>

text \<open>Two items, one megabyte, values of at most 40 bytes; reading \<open>n\<close> of the clock is \<open>n\<close>.\<close>

definition sample_store :: cache_store where
  "sample_store =
     \<lparr> max_items = 2, max_memory_bytes = 1048576, max_value_bytes = 40, cleanup_interval = 10,
       current_memory_bytes = 0, hits = 0, misses = 0, evictions = 0, lru_evictions = 0,
       expired_removals = 0, rejected_oversize = 0, rejected_capacity = 0,
       clock = real, clock_reads = 0, store = [] \<rparr>"

lemma sample_store_init: "mem_init (Some 2) (Some 1) None (Some 40) real = Inr sample_store"
  by (simp add: mem_init_def cache_store_limits_resolve_def sample_store_def
      DEFAULT_CLEANUP_INTERVAL_def)

lemma sample_store_inv: "mem_inv sample_store"
  by (rule mem_inv_init [OF sample_store_init])

text \<open>The full store holding \<open>''a''\<close> without ttl and \<open>''b''\<close> with a ttl of one second.\<close>

definition sample_full :: cache_store where
  "sample_full = mem_run [Op_set ''a'' [1] None, Op_set ''b'' [2] (Some 1)] sample_store"

lemma sample_full_inv: "mem_inv sample_full"
  unfolding sample_full_def by (intro mem_inv_run sample_store_inv)

lemma valid_key_a [simp]: "valid_key [c]"
  by (simp add: valid_key_def)

lemma sample_set:
  "mem_inv s \<Longrightarrow> valid_key k \<Longrightarrow> snd (mem_set k v ttl s) =
     (if sys_getsizeof v > max_value_bytes s then write_rejected k s
      else written k (new_entry v ttl (next_reading s)) s)"
  by (simp add: mem_set_def mem_set_locked_eq)

section \<open>Bounds and accounting\<close>

text \<open>
  C3: whatever limits the store was built with and whatever operations ran, its keys are distinct,
  it holds at most the configured number of items, its memory counter is exactly the sum of the
  sizes of its entries and within the configured memory, every entry fits the per-value limit, and
  the limits are still the configured ones.
\<close>

theorem memory_store_bounds:
  assumes "mem_init p_items p_mb p_interval p_value clk = Inr s0"
  shows "let s = mem_run ops s0
    in distinct (od_keys (store s)) \<and>
       int (length (store s)) \<le> max_items s \<and>
       current_memory_bytes s = sum_list (map (\<lambda>x. sys_getsizeof (e_value (snd x))) (store s)) \<and>
       current_memory_bytes s \<le> max_memory_bytes s \<and>
       list_all (\<lambda>x. sys_getsizeof (e_value (snd x)) \<le> max_value_bytes s) (store s) \<and>
       max_items s = max_items s0 \<and> max_memory_bytes s = max_memory_bytes s0 \<and>
       max_value_bytes s = max_value_bytes s0"
proof -
  let ?s = "mem_run ops s0"
  have init: "mem_inv s0" using assms by (rule mem_inv_init)
  then have inv: "mem_inv ?s" by (rule mem_inv_run)
  then have ok: "list_all (entry_ok (max_value_bytes ?s)) (store ?s)"
    by (simp add: mem_inv_def)
  then have "total_size (store ?s) = sum_list (map (\<lambda>x. sys_getsizeof (e_value (snd x))) (store ?s))"
    unfolding total_size_def by (intro arg_cong [where f = sum_list]) (auto simp: list_all_iff entry_ok_def)
  moreover have "list_all (\<lambda>x. sys_getsizeof (e_value (snd x)) \<le> max_value_bytes ?s) (store ?s)"
    using ok by (auto simp: list_all_iff entry_ok_def)
  ultimately show ?thesis
    using inv same_config_run [OF init, of ops]
    by (auto simp: Let_def mem_inv_def od_wf_def od_keys_def same_config_def)
qed

theorem memory_store_bounds_witness:
  "let s = mem_run [Op_set ''a'' [1] None, Op_set ''b'' [2] (Some 1), Op_set ''c'' [3] None] sample_store
   in int (length (store s)) \<le> 2"
  using memory_store_bounds
    [OF sample_store_init, of "[Op_set ''a'' [1] None, Op_set ''b'' [2] (Some 1), Op_set ''c'' [3] None]"]
  by (simp add: Let_def sample_store_def)

section \<open>Writes\<close>

lemma mem_set_eq:
  assumes "mem_inv s"
  shows "mem_set k v ttl s =
    (if \<not> valid_key k
     then (Inl (ValueError (if k = [] then ''Key cannot be empty''
                            else ''Key is too long (max 256)'')), s)
     else if sys_getsizeof v > max_value_bytes s then (Inr Set_VALUE_TOO_LARGE, write_rejected k s)
     else (Inr Set_OK, written k (new_entry v ttl (next_reading s)) s))"
proof -
  have "dec 256 = ''256''"
    by code_simp
  with assms show ?thesis
    by (auto simp: mem_set_def validate_key_cases mem_set_locked_eq)
qed

text \<open>
  C9: the whole effect of \<^verbatim>\<open>set\<close>. The two eviction loops amount to one cut of the recency list: the
  write keeps \<^const>\<open>kept_entries\<close>, appends the new entry, counts the evictions, and stamps the entry
  with the clock; an oversize value changes only the recency of the key and the rejection counter;
  an invalid key changes nothing.
\<close>

theorem mem_set_spec:
  assumes "mem_inv s"
  shows "mem_set k v ttl s =
    (if \<not> valid_key k
     then (Inl (ValueError (if k = [] then ''Key cannot be empty''
                            else ''Key is too long (max 256)'')), s)
     else if sys_getsizeof v > max_value_bytes s then (Inr Set_VALUE_TOO_LARGE, write_rejected k s)
     else (Inr Set_OK, written k (new_entry v ttl (next_reading s)) s))"
  using assms by (rule mem_set_eq)

theorem mem_set_spec_witness:
  "mem_set ''a'' [7] None sample_store =
     (Inr Set_OK, written ''a'' (new_entry [7] None (next_reading sample_store)) sample_store)"
  using mem_set_spec [OF sample_store_inv, of "''a''" "[7]" None]
  by (simp add: sys_getsizeof_def sample_store_def)

text \<open>
  C6: eviction is least recently used and minimal. A successful \<^verbatim>\<open>set\<close> removes a prefix of the
  recency list (the longest unused entries) and leaves the others in order; had it removed one entry
  less, the value would not have fitted in memory, or the new key not in the item limit.
\<close>

theorem mem_set_evicts_minimal_lru_prefix:
  assumes "mem_inv s" and "mem_set k v ttl s = (Inr Set_OK, s')"
  shows "\<exists>kept e. store s' = kept @ [(k, e)] \<and> e_value e = v \<and>
    suffix kept (od_pop k (store s)) \<and>
    evictions s' = evictions s + int (length (od_pop k (store s)) - length kept) \<and>
    (\<forall>more. suffix more (od_pop k (store s)) \<longrightarrow> length kept < length more \<longrightarrow>
       total_size more + sys_getsizeof v > max_memory_bytes s \<or>
       \<not> od_contains k (store s) \<and> int (length more) \<ge> max_items s)"
proof -
  let ?e = "new_entry v ttl (next_reading s)" and ?d0 = "od_pop k (store s)"
  let ?kept = "kept_entries k (sys_getsizeof v) s"
  let ?fits = "\<lambda>d. total_size d + sys_getsizeof v \<le> max_memory_bytes s"
  let ?room = "\<lambda>d. int (length d) < max_items s"
  have s': "s' = written k ?e s" and "valid_key k"
    using assms(2) mem_set_eq [OF assms(1), of k v ttl] by (auto split: if_splits)
  have len: "length ?kept \<le> length ?d0"
    by (rule suffix_length_le [OF kept_entries_suffix])
  have "length more \<le> length ?kept"
    if "suffix more ?d0" "?fits more" "od_contains k (store s) \<or> ?room more" for more
  proof -
    have fits: "length more \<le> length (drop_until ?fits ?d0)"
      using that by (intro drop_until_longest [where P = ?fits])
    then have "suffix more (drop_until ?fits ?d0)"
      using that(1) drop_until_suffix [of ?fits ?d0] by (metis suffix_length_suffix)
    then have "length more \<le> length (drop_until ?room (drop_until ?fits ?d0))" if "?room more"
      using that by (intro drop_until_longest [where P = ?room])
    with fits that(3) show ?thesis by (auto simp: kept_entries_def Let_def)
  qed
  then have "\<forall>more. suffix more ?d0 \<longrightarrow> length ?kept < length more \<longrightarrow>
      \<not> ?fits more \<or> \<not> od_contains k (store s) \<and> \<not> ?room more"
    by (metis not_le)
  with len show ?thesis
    by (intro exI [of _ ?kept] exI [of _ ?e])
       (simp add: s' written_def Let_def kept_entries_suffix of_nat_diff not_le not_less)
qed

lemma sample_third_set:
  "mem_set ''c'' [3] None sample_full =
     (Inr Set_OK, written ''c'' (new_entry [3] None (next_reading sample_full)) sample_full)"
proof -
  have "max_value_bytes sample_full = 40"
    using same_config_run [OF sample_store_inv, of "[Op_set ''a'' [1] None, Op_set ''b'' [2] (Some 1)]"]
    unfolding sample_full_def [symmetric] by (simp add: same_config_def) (simp add: sample_store_def)
  then show ?thesis
    using mem_set_eq [OF sample_full_inv, of "''c''" "[3]" None] by (simp add: sys_getsizeof_def)
qed

theorem mem_set_evicts_minimal_lru_prefix_witness:
  "\<exists>kept e. store (snd (mem_set ''c'' [3] None sample_full)) = kept @ [(''c'', e)] \<and>
     e_value e = [3] \<and> suffix kept (od_pop ''c'' (store sample_full))"
  using mem_set_evicts_minimal_lru_prefix [OF sample_full_inv sample_third_set]
  unfolding sample_third_set by auto

text \<open>The full sample store, evaluated.\<close>

lemma sample_full_eq:
  "sample_full =
     \<lparr> max_items = 2, max_memory_bytes = 1048576, max_value_bytes = 40, cleanup_interval = 10,
       current_memory_bytes = 68, hits = 0, misses = 0, evictions = 0, lru_evictions = 0,
       expired_removals = 0, rejected_oversize = 0, rejected_capacity = 0,
       clock = real, clock_reads = 2,
       store = [(''a'', new_entry [1] None 0), (''b'', new_entry [2] (Some 1) 1)] \<rparr>"
proof -
  have a: "mem_exec (Op_set ''a'' [1] None) sample_store =
      sample_store\<lparr>store := [(''a'', new_entry [1] None 0)], current_memory_bytes := 34, clock_reads := 1\<rparr>"
    using sample_set [OF sample_store_inv, of "''a''" "[1]" None]
    by (simp add: written_def kept_entries_def sample_store_def sys_getsizeof_def next_reading_def
        od_contains_def)
  have "mem_inv (mem_exec (Op_set ''a'' [1] None) sample_store)"
    by (intro mem_inv_exec sample_store_inv)
  from sample_set [OF this, of "''b''" "[2]" "Some 1"] show ?thesis
    unfolding sample_full_def mem_run.simps mem_exec.simps(2) [of "''b''"] a
    by (simp add: written_def kept_entries_def sample_store_def sys_getsizeof_def next_reading_def
        od_contains_def total_size_def Let_def)
qed

lemma sample_full_simps [simp]:
  "max_value_bytes sample_full = 40" "clock sample_full = real" "clock_reads sample_full = 2"
  "store sample_full = [(''a'', new_entry [1] None 0), (''b'', new_entry [2] (Some 1) 1)]"
  by (simp_all add: sample_full_eq)

text \<open>
  The memory backend never answers that its capacity is exhausted. Because a value that passes
  the per-value limit always fits once enough entries are evicted, the capacity branches of the
  three writes are unreachable from a well-formed store.
\<close>

theorem mem_capacity_never_exhausted:
  assumes "mem_inv s"
  shows "fst (mem_set k v ttl s) \<noteq> Inr Set_CAPACITY_EXHAUSTED \<and>
    fst (mem_set_if_absent k v ttl s) \<noteq> Inr Cond_CAPACITY_EXHAUSTED \<and>
    fst (mem_compare_and_set k x v ttl s) \<noteq> Inr Cond_CAPACITY_EXHAUSTED"
proof -
  have locked: "fst (mem_set_locked k v ttl t) \<noteq> Set_CAPACITY_EXHAUSTED" if "mem_inv t" for t
    using that by (simp add: mem_set_locked_eq)
  obtain r s1 where p: "mem_probe k s = (r, s1)" by fastforce
  with assms have "mem_inv s1" by (rule mem_inv_probe)
  then obtain st s2 where w: "mem_set_locked k v ttl s1 = (st, s2)" "st \<noteq> Set_CAPACITY_EXHAUSTED"
    using locked [of s1] by (metis fst_conv surj_pair)
  show ?thesis
    using assms locked [OF assms] p w
    by (auto simp: mem_set_def mem_set_if_absent_def mem_compare_and_set_def
        mem_set_if_absent_locked_eq mem_compare_and_set_locked_eq
        split: sum.splits prod.splits option.splits)
qed

theorem mem_capacity_never_exhausted_witness:
  "fst (mem_set ''c'' [3] None sample_full) \<noteq> Inr Set_CAPACITY_EXHAUSTED"
  using mem_capacity_never_exhausted [OF sample_full_inv, of "''c''" "[3]" None "[]"] by simp

text \<open>
  A rejected oversize \<^verbatim>\<open>set\<close> loses nothing: every key maps to the entry it had, the memory
  counter is unchanged and nothing is evicted. The rejected key, when present, becomes the most
  recently used one.
\<close>

theorem mem_set_oversize_keeps_contents:
  assumes "mem_inv s" "valid_key k" "sys_getsizeof v > max_value_bytes s"
  shows "\<exists>s'. mem_set k v ttl s = (Inr Set_VALUE_TOO_LARGE, s') \<and>
    (\<forall>k'. od_get k' (store s') = od_get k' (store s)) \<and>
    current_memory_bytes s' = current_memory_bytes s \<and> evictions s' = evictions s \<and>
    rejected_oversize s' = rejected_oversize s + 1 \<and>
    (\<forall>e. od_get k (store s) = Some e \<longrightarrow> store s' = od_pop k (store s) @ [(k, e)])"
  using assms by (simp add: mem_set_eq write_rejected_def od_move_to_end_eq)

theorem mem_set_oversize_keeps_contents_witness:
  "\<exists>s'. mem_set ''a'' (replicate 8 0) None sample_full = (Inr Set_VALUE_TOO_LARGE, s') \<and>
     store s' = [(''b'', new_entry [2] (Some 1) 1), (''a'', new_entry [1] None 0)]"
  using mem_set_oversize_keeps_contents [OF sample_full_inv, of "''a''" "replicate 8 0" None]
  by (auto simp: sys_getsizeof_def od_get_def)

section \<open>Reads and expiry\<close>

lemma mem_get_eq:
  assumes "valid_key k"
  shows "mem_get k s =
    (case od_get k (store s) of
       None \<Rightarrow> (Inr None, s\<lparr>misses := misses s + 1\<rparr>)
     | Some e \<Rightarrow>
         let n = clock_reads s + (if e_ttl e = None then 0 else 1)
         in if expired_at (next_reading s) e
            then (Inr None,
                  s\<lparr>store := od_pop k (store s), misses := misses s + 1,
                    current_memory_bytes := current_memory_bytes s - e_size_bytes e,
                    expired_removals := expired_removals s + 1, clock_reads := n\<rparr>)
            else (Inr (Some (e_value e)),
                  s\<lparr>store := od_pop k (store s) @ [(k, e)], hits := hits s + 1, clock_reads := n\<rparr>))"
  using assms
  by (auto simp: mem_get_def mem_get_locked_eq mem_probe_def mem_is_expired_eq
      mem_remove_expired_entry_eq od_move_to_end_eq Let_def split: option.splits)

text \<open>
  C10: \<^verbatim>\<open>get\<close> on every branch. An invalid key raises and changes nothing; a missing key counts a miss;
  an expired entry is removed and counted as a miss and as an expired removal; a live entry is
  returned, counted as a hit and moved to the most recently used position.
\<close>

theorem mem_get_spec:
  assumes "valid_key k"
  shows "mem_get k s =
    (case od_get k (store s) of
       None \<Rightarrow> (Inr None, s\<lparr>misses := misses s + 1\<rparr>)
     | Some e \<Rightarrow>
         let n = clock_reads s + (if e_ttl e = None then 0 else 1)
         in if expired_at (next_reading s) e
            then (Inr None,
                  s\<lparr>store := od_pop k (store s), misses := misses s + 1,
                    current_memory_bytes := current_memory_bytes s - e_size_bytes e,
                    expired_removals := expired_removals s + 1, clock_reads := n\<rparr>)
            else (Inr (Some (e_value e)),
                  s\<lparr>store := od_pop k (store s) @ [(k, e)], hits := hits s + 1, clock_reads := n\<rparr>))"
  using assms by (rule mem_get_eq)

theorem mem_get_spec_witness:
  "fst (mem_get ''a'' sample_full) = Inr (Some [1]) \<and> fst (mem_get ''b'' sample_full) = Inr None"
  using mem_get_spec [of "''a''" sample_full] mem_get_spec [of "''b''" sample_full]
  by (simp add: od_get_def expired_at_def cache_entry_init_def next_reading_def)

lemma mem_set_then_get:
  assumes "mem_inv s" and "mem_set k v ttl s = (Inr Set_OK, s')"
  shows "fst (mem_get k s') =
    Inr (if (case ttl of None \<Rightarrow> False
             | Some t \<Rightarrow> t > 0 \<and> clock s (Suc (clock_reads s)) - clock s (clock_reads s) \<ge> of_int t)
         then None else Some v)"
proof -
  let ?e = "new_entry v ttl (next_reading s)"
  have key: "valid_key k" and s': "s' = written k ?e s"
    using assms(2) mem_set_eq [OF assms(1), of k v ttl] by (auto split: if_splits)
  have "od_get k (store s') = Some ?e" and "next_reading s' = clock s (Suc (clock_reads s))"
    by (simp_all add: s' written_def Let_def next_reading_def)
  with mem_get_eq [OF key, of s'] show ?thesis
    by (auto simp: Let_def expired_at_def cache_entry_init_def next_reading_def split: option.splits)
qed

text \<open>
  A client reads its own write. After a successful \<^verbatim>\<open>set\<close>, the next \<^verbatim>\<open>get\<close> of the key returns the
  value, unless the ttl given was positive and the two clock readings are at least that far apart.
\<close>

theorem mem_read_your_write:
  assumes "mem_inv s" and "mem_set k v ttl s = (Inr Set_OK, s')"
  shows "fst (mem_get k s') =
    Inr (if (case ttl of None \<Rightarrow> False
             | Some t \<Rightarrow> t > 0 \<and> clock s (Suc (clock_reads s)) - clock s (clock_reads s) \<ge> of_int t)
         then None else Some v)"
  using assms by (rule mem_set_then_get)

theorem mem_read_your_write_witness:
  "fst (mem_get ''c'' (snd (mem_set ''c'' [3] None sample_full))) = Inr (Some [3])"
  using mem_read_your_write [OF sample_full_inv sample_third_set] unfolding sample_third_set by simp

text \<open>
  The value a key shows at a reading of the clock: what \<^verbatim>\<open>get\<close> would return if it read that time.
\<close>

definition live_value :: "real \<Rightarrow> string \<Rightarrow> cache_store \<Rightarrow> bytes option" where
  "live_value now k s =
     (case od_get k (store s) of
        None \<Rightarrow> None
      | Some e \<Rightarrow> if expired_at now e then None else Some (e_value e))"

lemma mem_probe_live:
  "mem_probe k s = (r, s1) \<Longrightarrow> live_value (next_reading s) k s = map_option e_value r"
  by (cases "od_get k (store s)"; cases r)
     (auto simp: mem_probe_def mem_is_expired_eq live_value_def split: if_splits)

lemma mem_probe_others:
  "mem_probe k s = (r, s1) \<Longrightarrow> k' \<noteq> k \<Longrightarrow> od_get k' (store s1) = od_get k' (store s)"
  by (auto simp: mem_probe_def mem_is_expired_eq mem_remove_expired_entry_eq
      split: option.splits if_splits)

lemma mem_probe_config:
  assumes "mem_probe k s = (r, s1)"
  shows "max_value_bytes s1 = max_value_bytes s" "clock s1 = clock s"
  using same_config_probe [OF assms] by (simp_all add: same_config_def)

lemma od_get_written:
  assumes "mem_inv s"
  shows "od_get k (store (written k e s)) = Some e"
    and "k' \<noteq> k \<Longrightarrow> od_get k' (store (written k e s)) \<in> {None, od_get k' (store s)}"
proof -
  show "od_get k (store (written k e s)) = Some e"
    by (simp add: written_def Let_def)
  assume "k' \<noteq> k"
  moreover have "od_wf (od_pop k (store s))" using assms by auto
  ultimately show "od_get k' (store (written k e s)) \<in> {None, od_get k' (store s)}"
    using od_get_suffix [OF _ kept_entries_suffix, of k s k' "e_size_bytes e"]
    by (auto simp: written_def Let_def split: option.splits)
qed

section \<open>Conditional writes\<close>

lemma mem_compare_and_set_result:
  assumes "mem_inv s" "valid_key k"
  shows "\<exists>s'. mem_compare_and_set k x v ttl s =
      (Inr (case live_value (next_reading s) k s of
              None \<Rightarrow> Cond_NOT_FOUND
            | Some w \<Rightarrow> if w \<noteq> x then Cond_MISMATCH
                        else if sys_getsizeof v > max_value_bytes s then Cond_VALUE_TOO_LARGE
                        else Cond_STORED), s') \<and>
    (case live_value (next_reading s) k s of
       None \<Rightarrow> od_get k (store s') = None
     | Some w \<Rightarrow>
         if w = x \<and> sys_getsizeof v \<le> max_value_bytes s
         then \<exists>now. od_get k (store s') = Some (new_entry v ttl now)
         else od_get k (store s') = od_get k (store s))"
proof -
  obtain r s1 where p: "mem_probe k s = (r, s1)" by fastforce
  with assms(1) have inv: "mem_inv s1" by (rule mem_inv_probe)
  note facts = p mem_probe_live [OF p] mem_probe_config [OF p] mem_set_locked_eq [OF inv]
  show ?thesis
  proof (cases r)
    case None
    with facts assms mem_probe_None_get [of s k s1] show ?thesis
      by (simp add: mem_compare_and_set_def mem_compare_and_set_locked_eq)
  next
    case (Some e)
    with facts assms mem_probe_Some_get [of k s e s1] od_get_written(1) [OF inv, of k] show ?thesis
      by (auto simp: mem_compare_and_set_def mem_compare_and_set_locked_eq write_rejected_def)
  qed
qed

text \<open>
  C11: \<^verbatim>\<open>compare_and_set\<close> decides on the live value at its first clock reading. No live value:
  \<open>NOT_FOUND\<close>. A live value other than the expected one: \<open>MISMATCH\<close>. A match: the value is stored
  when it is within the per-value limit, and only then does the key map to the new entry.
\<close>

theorem mem_compare_and_set_spec:
  assumes "mem_inv s" "valid_key k"
  shows "\<exists>s'. mem_compare_and_set k x v ttl s =
      (Inr (case live_value (next_reading s) k s of
              None \<Rightarrow> Cond_NOT_FOUND
            | Some w \<Rightarrow> if w \<noteq> x then Cond_MISMATCH
                        else if sys_getsizeof v > max_value_bytes s then Cond_VALUE_TOO_LARGE
                        else Cond_STORED), s') \<and>
    (case live_value (next_reading s) k s of
       None \<Rightarrow> od_get k (store s') = None
     | Some w \<Rightarrow>
         if w = x \<and> sys_getsizeof v \<le> max_value_bytes s
         then \<exists>now. od_get k (store s') = Some (new_entry v ttl now)
         else od_get k (store s') = od_get k (store s))"
  using assms by (rule mem_compare_and_set_result)

theorem mem_compare_and_set_spec_witness:
  "fst (mem_compare_and_set ''a'' [1] [9] None sample_full) = Inr Cond_STORED \<and>
   fst (mem_compare_and_set ''a'' [2] [9] None sample_full) = Inr Cond_MISMATCH \<and>
   fst (mem_compare_and_set ''b'' [2] [9] None sample_full) = Inr Cond_NOT_FOUND"
  using mem_compare_and_set_spec [OF sample_full_inv, of "''a''" "[1]" "[9]" None]
    mem_compare_and_set_spec [OF sample_full_inv, of "''a''" "[2]" "[9]" None]
    mem_compare_and_set_spec [OF sample_full_inv, of "''b''" "[2]" "[9]" None]
  by (auto simp: live_value_def od_get_def expired_at_def cache_entry_init_def next_reading_def
      sys_getsizeof_def)

text \<open>
  \<^verbatim>\<open>set_if_absent\<close> stores exactly when the key has no live value at the clock reading: a live value
  answers \<open>EXISTS\<close> and the dictionary is unchanged, order included; an expired value counts as
  absent.
\<close>

theorem mem_set_if_absent_spec:
  assumes "mem_inv s" "valid_key k"
  shows "\<exists>s'. mem_set_if_absent k v ttl s =
      (Inr (if live_value (next_reading s) k s \<noteq> None then Cond_EXISTS
            else if sys_getsizeof v > max_value_bytes s then Cond_VALUE_TOO_LARGE
            else Cond_STORED), s') \<and>
    (if live_value (next_reading s) k s \<noteq> None then store s' = store s
     else if sys_getsizeof v > max_value_bytes s then od_get k (store s') = None
     else \<exists>now. od_get k (store s') = Some (new_entry v ttl now))"
proof -
  obtain r s1 where p: "mem_probe k s = (r, s1)" by fastforce
  with assms(1) have inv: "mem_inv s1" by (rule mem_inv_probe)
  note facts = p mem_probe_live [OF p] mem_probe_config [OF p] mem_set_locked_eq [OF inv]
  show ?thesis
  proof (cases r)
    case None
    with facts assms mem_probe_None_get [of s k s1] od_get_written(1) [OF inv, of k] show ?thesis
      by (auto simp: mem_set_if_absent_def mem_set_if_absent_locked_eq write_rejected_def)
  next
    case (Some e)
    with facts assms mem_probe_Some_get [of k s e s1] show ?thesis
      by (simp add: mem_set_if_absent_def mem_set_if_absent_locked_eq)
  qed
qed

theorem mem_set_if_absent_spec_witness:
  "fst (mem_set_if_absent ''a'' [9] None sample_full) = Inr Cond_EXISTS \<and>
   fst (mem_set_if_absent ''b'' [9] None sample_full) = Inr Cond_STORED"
  using mem_set_if_absent_spec [OF sample_full_inv, of "''a''" "[9]" None]
    mem_set_if_absent_spec [OF sample_full_inv, of "''b''" "[9]" None]
  by (auto simp: live_value_def od_get_def expired_at_def cache_entry_init_def next_reading_def
      sys_getsizeof_def)

text \<open>The key an operation names.\<close>

definition op_key :: "store_op \<Rightarrow> string option" where
  "op_key op = (case op of
       Op_get k \<Rightarrow> Some k | Op_set k _ _ \<Rightarrow> Some k | Op_set_if_absent k _ _ \<Rightarrow> Some k
     | Op_compare_and_set k _ _ _ \<Rightarrow> Some k | Op_delete k \<Rightarrow> Some k
     | Op_stats \<Rightarrow> None | Op_clear \<Rightarrow> None | Op_remove_if_expired k \<Rightarrow> Some k)"

lemma mem_set_locked_others:
  assumes "mem_inv s" "mem_set_locked k v ttl s = (r, s')" "k' \<noteq> k"
  shows "od_get k' (store s') \<in> {None, od_get k' (store s)}"
  using assms od_get_written(2) [OF assms(1,3)]
  by (auto simp: mem_set_locked_eq write_rejected_def split: if_splits)

lemma mem_conditional_others:
  assumes "mem_inv s" "k' \<noteq> k"
  shows "od_get k' (store (snd (mem_set_if_absent k v ttl s))) \<in> {None, od_get k' (store s)}"
    "od_get k' (store (snd (mem_compare_and_set k x v ttl s))) \<in> {None, od_get k' (store s)}"
proof -
  obtain r s1 where p: "mem_probe k s = (r, s1)" by fastforce
  with assms(1) have inv: "mem_inv s1" by (rule mem_inv_probe)
  obtain st s2 where w: "mem_set_locked k v ttl s1 = (st, s2)" by fastforce
  note facts = p w mem_probe_others [OF p assms(2)] mem_set_locked_others [OF inv w assms(2)]
  show "od_get k' (store (snd (mem_set_if_absent k v ttl s))) \<in> {None, od_get k' (store s)}"
    "od_get k' (store (snd (mem_compare_and_set k x v ttl s))) \<in> {None, od_get k' (store s)}"
    using facts assms(1)
    by (auto simp: mem_set_if_absent_def mem_set_if_absent_locked_eq mem_compare_and_set_def
        mem_compare_and_set_locked_eq split: sum.splits option.splits)
qed

lemma od_get_filter_keys:
  "od_get k (filter (\<lambda>x. fst x \<notin> A) d) = (if k \<in> A then None else od_get k d)"
  by (induction d) (auto simp: od_get_def)

lemma mem_purge_get:
  "od_get k (store (mem_remove_expired_entries s)) \<in> {None, od_get k (store s)}"
proof -
  obtain ks s1 where p: "mem_expired_keys (store s) s = (ks, s1)" by fastforce
  have "store s1 = store s" using mem_expired_keys_state [OF p] by simp
  with p show ?thesis
    by (simp add: mem_remove_expired_entries_def mem_remove_keys_store od_get_filter_keys)
qed

lemma mem_get_invalid: "\<not> valid_key k \<Longrightarrow> snd (mem_get k s) = s"
  by (simp add: mem_get_def validate_key_cases)

lemma mem_exec_frame:
  assumes "mem_inv s" "op_key op \<noteq> Some k"
  shows "od_get k (store (mem_exec op s)) = None \<or>
    od_get k (store (mem_exec op s)) = od_get k (store s)"
proof (cases op)
  case (Op_get k')
  with assms mem_get_invalid [of k' s] show ?thesis
    by (cases "valid_key k'") (auto simp: mem_get_eq Let_def op_key_def split: option.splits)
next
  case (Op_set k' v ttl)
  with assms show ?thesis
    using od_get_written(2) [OF assms(1), of k k'] by (auto simp: mem_set_eq op_key_def write_rejected_def)
next
  case (Op_set_if_absent k' v ttl)
  with assms show ?thesis using mem_conditional_others(1) [OF assms(1), of k k'] by (auto simp: op_key_def)
next
  case (Op_compare_and_set k' x v ttl)
  with assms show ?thesis using mem_conditional_others(2) [OF assms(1), of k k'] by (auto simp: op_key_def)
next
  case Op_stats
  then show ?thesis using mem_purge_get [of k s] by (simp add: mem_stats_def Let_def)
qed (use assms in \<open>auto simp: op_key_def mem_delete_def mem_remove_entry_def mem_clear_def
      mem_remove_if_expired_def mem_is_expired_eq mem_remove_expired_entry_eq
      split: option.splits sum.splits\<close>)

text \<open>
  Operations on one key never change what another key maps to, except by removing it: a get,
  set, conditional write or delete of \<open>k\<close> leaves the entry of every other key the same or gone.
\<close>

theorem mem_op_frame:
  assumes "mem_inv s" "op_key op \<noteq> Some k"
  shows "od_get k (store (mem_exec op s)) = None \<or>
    od_get k (store (mem_exec op s)) = od_get k (store s)"
  using assms by (rule mem_exec_frame)

theorem mem_op_frame_witness:
  "od_get ''a'' (store (mem_exec (Op_delete ''b'') sample_full)) = Some (new_entry [1] None 0)"
  using mem_op_frame [OF sample_full_inv, of "Op_delete ''b''" "''a''"]
  by (simp add: op_key_def mem_delete_def od_contains_def mem_remove_entry_def od_get_def)

section \<open>Expired entries never come back\<close>

text \<open>The operations that can make a dead key live again.\<close>

definition revives :: "string \<Rightarrow> store_op \<Rightarrow> bool" where
  "revives k op \<longleftrightarrow>
     (case op of
        Op_set k' _ _ \<Rightarrow> k' = k
      | Op_set_if_absent k' _ _ \<Rightarrow> k' = k
      | _ \<Rightarrow> False)"

lemma next_reading_exec:
  assumes "mem_inv s" "mono (clock s)"
  shows "next_reading s \<le> next_reading (mem_exec op s)" "mono (clock (mem_exec op s))"
  using same_config_exec [OF assms(1), of op] assms(2)
  by (auto simp: same_config_def next_reading_def monoD)

lemma live_value_dead:
  assumes "live_value t k s = None" "od_get k (store s') = None \<or> od_get k (store s') = od_get k (store s)"
    and "t \<le> t'"
  shows "live_value t' k s' = None"
  using assms by (auto simp: live_value_def intro: expired_at_mono split: option.splits if_splits)

lemma dead_exec:
  assumes "mem_inv s" "mono (clock s)" "valid_key k" "live_value (next_reading s) k s = None"
    and "\<not> revives k op"
  shows "live_value (next_reading (mem_exec op s)) k (mem_exec op s) = None"
proof -
  have "od_get k (store (mem_exec op s)) = None \<or> od_get k (store (mem_exec op s)) = od_get k (store s)"
  proof (cases "op_key op = Some k")
    case False
    with mem_exec_frame [OF assms(1)] show ?thesis by blast
  next
    case True
    show ?thesis
    proof (cases op)
      case (Op_get k')
      with True assms(3) show ?thesis
        by (auto simp: op_key_def mem_get_eq Let_def split: option.splits)
    next
      case (Op_compare_and_set k' x v ttl)
      with True have "op = Op_compare_and_set k x v ttl" by (simp add: op_key_def)
      with mem_compare_and_set_result [OF assms(1,3), of x v ttl] assms(4) show ?thesis by auto
    qed (use True assms(5) in \<open>auto simp: op_key_def revives_def mem_delete_def mem_remove_entry_def
        mem_remove_if_expired_def mem_is_expired_eq mem_remove_expired_entry_eq
        split: option.splits sum.splits\<close>)
  qed
  from live_value_dead [OF assms(4) this next_reading_exec(1) [OF assms(1,2)]] show ?thesis .
qed

lemma dead_run:
  "mem_inv s \<Longrightarrow> mono (clock s) \<Longrightarrow> valid_key k \<Longrightarrow> live_value (next_reading s) k s = None \<Longrightarrow>
   list_all (\<lambda>op. \<not> revives k op) ops \<Longrightarrow>
   live_value (next_reading (mem_run ops s)) k (mem_run ops s) = None"
proof (induction ops s rule: mem_run.induct)
  case (2 op ops s)
  then show ?case
    by (simp add: dead_exec mem_inv_exec next_reading_exec(2))
qed simp

text \<open>
  C13: expiry is final. With a clock that never goes back, a key that is missing or expired at the
  next reading stays invisible to \<^verbatim>\<open>get\<close> after any operations other than a \<^verbatim>\<open>set\<close> or \<^verbatim>\<open>set_if_absent\<close>
  of that key; a \<^verbatim>\<open>compare_and_set\<close> cannot revive it.
\<close>

theorem mem_expired_stays_gone:
  assumes "mem_inv s" "mono (clock s)" "valid_key k" "live_value (next_reading s) k s = None"
    and "list_all (\<lambda>op. \<not> revives k op) ops"
  shows "fst (mem_get k (mem_run ops s)) = Inr None"
  using dead_run [OF assms] mem_get_eq [OF assms(3), of "mem_run ops s"]
  by (auto simp: live_value_def Let_def split: option.splits if_splits)

theorem mem_expired_stays_gone_witness:
  "fst (mem_get ''b'' (mem_run [Op_compare_and_set ''b'' [2] [9] None, Op_set ''c'' [3] None] sample_full))
     = Inr None"
  by (rule mem_expired_stays_gone [OF sample_full_inv])
     (simp_all add: mono_def live_value_def od_get_def expired_at_def cache_entry_init_def
        next_reading_def revives_def)

section \<open>Deletion and statistics\<close>

text \<open>
  \<^verbatim>\<open>delete\<close> reports whether an entry was there, expired or not, and afterwards the key is gone, all
  other entries are unchanged in order, and the memory of the entry is released. Deleting again
  reports \<open>False\<close> and changes nothing.
\<close>

theorem mem_delete_spec:
  assumes "mem_inv s" "valid_key k"
  shows "\<exists>s'. mem_delete k s = (Inr (od_contains k (store s)), s') \<and>
    store s' = od_pop k (store s) \<and> current_memory_bytes s' = total_size (od_pop k (store s)) \<and>
    mem_delete k s' = (Inr False, s')"
proof (cases "od_get k (store s)")
  case None
  with assms show ?thesis
    by (simp add: mem_delete_def od_get_contains od_pop_absent mem_inv_def)
next
  case (Some e)
  with assms show ?thesis
    by (simp add: mem_delete_def od_get_contains mem_remove_entry_def mem_inv_def total_size_pop)
qed

theorem mem_delete_spec_witness:
  "fst (mem_delete ''a'' sample_full) = Inr True \<and> fst (mem_delete ''c'' sample_full) = Inr False"
  using mem_delete_spec [OF sample_full_inv, of "''a''"] mem_delete_spec [OF sample_full_inv, of "''c''"]
  by (auto simp: od_contains_def)

lemma mem_remove_keys_count:
  "od_wf (store s) \<Longrightarrow> expired_removals (mem_remove_keys ks s) =
     expired_removals s + (int (length (store s)) - int (length (store (mem_remove_keys ks s))))"
proof (induction ks s rule: mem_remove_keys.induct)
  case (2 key keys s)
  have "od_wf (store (mem_remove_expired_entry key s))"
    using "2.prems" by (auto simp: mem_remove_expired_entry_eq split: option.splits)
  with 2 show ?case
    by (auto simp: mem_remove_expired_entry_eq od_pop_length split: option.splits)
qed simp

lemma mem_stats_decompose:
  assumes "mem_stats s = (st, s')"
  obtains ks n d c m where
    "mem_expired_keys (store s) s = (ks, s\<lparr>clock_reads := n\<rparr>)"
    "s' = mem_remove_keys ks (s\<lparr>clock_reads := n\<rparr>)"
    "s' = s\<lparr>store := d, current_memory_bytes := c, expired_removals := m, clock_reads := n\<rparr>"
    "st = mem_snapshot_stats s'"
proof -
  obtain ks s1 where p: "mem_expired_keys (store s) s = (ks, s1)" by fastforce
  obtain n where s1: "s1 = s\<lparr>clock_reads := n\<rparr>" using mem_expired_keys_state [OF p] by auto
  have s': "s' = mem_remove_keys ks s1" and st: "st = mem_snapshot_stats s'"
    using assms p by (auto simp: mem_stats_def mem_remove_expired_entries_def Let_def)
  obtain d c m where "s' = s1\<lparr>store := d, current_memory_bytes := c, expired_removals := m\<rparr>"
    using mem_remove_keys_frame [of ks s1] s' by blast
  then have "s' = s\<lparr>store := d, current_memory_bytes := c, expired_removals := m, clock_reads := n\<rparr>"
    by (simp add: s1)
  from that [OF p [unfolded s1] s' [unfolded s1] this st] show ?thesis .
qed

text \<open>
  \<^verbatim>\<open>stats\<close> purges the expired entries and nothing else. With a clock that never goes back, the
  removed entries are all expired by the end of the scan and include every entry that was expired
  when it began; the rest keep their order.
\<close>

theorem mem_stats_purges:
  assumes "mem_inv s" "mono (clock s)" "mem_stats s = (st, s')"
  shows "\<exists>gone. store s' = filter (\<lambda>x. fst x \<notin> gone) (store s) \<and>
      (\<forall>k. k \<in> gone \<longrightarrow> (\<exists>e. od_get k (store s) = Some e \<and> expired_at (next_reading s') e)) \<and>
      (\<forall>k e. od_get k (store s) = Some e \<longrightarrow> expired_at (next_reading s) e \<longrightarrow> k \<in> gone)"
proof -
  obtain ks n d c m where p: "mem_expired_keys (store s) s = (ks, s\<lparr>clock_reads := n\<rparr>)"
    and s': "s' = mem_remove_keys ks (s\<lparr>clock_reads := n\<rparr>)"
    and fr: "s' = s\<lparr>store := d, current_memory_bytes := c, expired_removals := m, clock_reads := n\<rparr>"
    by (rule mem_stats_decompose [OF assms(3)])
  have reading: "next_reading (s\<lparr>clock_reads := n\<rparr>) = next_reading s'"
    by (simp add: fr next_reading_def)
  have wf: "od_wf (store s)" using assms(1) by auto
  have "store s' = filter (\<lambda>x. fst x \<notin> set ks) (store s)"
    by (simp add: s' mem_remove_keys_store)
  moreover have "\<exists>e. od_get k (store s) = Some e \<and> expired_at (next_reading s') e" if "k \<in> set ks" for k
    using mem_expired_keys_sound [OF p assms(2) that] by (auto simp: reading od_get_iff [OF wf])
  moreover have "k \<in> set ks" if "od_get k (store s) = Some e" "expired_at (next_reading s) e" for k e
    using mem_expired_keys_complete [OF p assms(2) _ that(2)] that(1) by (auto simp: od_get_iff [OF wf])
  ultimately show ?thesis by blast
qed

theorem mem_stats_purges_witness:
  "\<exists>gone. store (snd (mem_stats sample_full)) = filter (\<lambda>x. fst x \<notin> gone) (store sample_full) \<and>
     ''b'' \<in> gone"
proof -
  obtain st s' where st: "mem_stats sample_full = (st, s')" by fastforce
  have "mono (clock sample_full)" by (simp add: mono_def)
  from mem_stats_purges [OF sample_full_inv this st] obtain gone where
    "store s' = filter (\<lambda>x. fst x \<notin> gone) (store sample_full)"
    "\<forall>k e. od_get k (store sample_full) = Some e \<longrightarrow> expired_at (next_reading sample_full) e \<longrightarrow> k \<in> gone"
    by blast
  with st show ?thesis
    by (intro exI [of _ gone])
       (simp add: od_get_def expired_at_def cache_entry_init_def next_reading_def)
qed

lemma hit_ratio:
  fixes h m :: int
  assumes "0 \<le> h" "0 \<le> m"
  defines "r \<equiv> if h + m > 0 then of_int h / of_int (h + m) else (0 :: real)"
  shows "0 \<le> r" "r \<le> 1" "r * of_int (h + m) = of_int h"
proof -
  have "h = 0" if "\<not> h + m > 0" using that assms by linarith
  moreover have "real_of_int (h + m) \<noteq> 0" if "h + m > 0" using that by linarith
  ultimately show "0 \<le> r" "r \<le> 1" "r * of_int (h + m) = of_int h"
    using assms by (auto simp: r_def divide_le_eq_1)
qed

text \<open>
  What \<^verbatim>\<open>stats\<close> reports. Size and memory are those of the entries left after the purge, the
  entries it removed are added to the expired removals, hits and misses are unchanged, and the hit
  rate is the hits divided by the lookups, between 0 and 1, and 0 when there were none.
\<close>

theorem mem_stats_reports:
  assumes "mem_inv s" "mem_stats s = (st, s')"
  shows "st_size st = int (length (store s')) \<and> st_memory_usage_bytes st = total_size (store s') \<and>
    st_expired_removals st = expired_removals s + (int (length (store s)) - int (length (store s'))) \<and>
    st_hits st = hits s \<and> st_misses st = misses s \<and> st_evictions st = st_lru_evictions st \<and>
    0 \<le> st_hit_rate st \<and> st_hit_rate st \<le> 1 \<and>
    st_hit_rate st * of_int (hits s + misses s) = of_int (hits s)"
proof -
  obtain ks n d c m where s': "s' = mem_remove_keys ks (s\<lparr>clock_reads := n\<rparr>)"
    and fr: "s' = s\<lparr>store := d, current_memory_bytes := c, expired_removals := m, clock_reads := n\<rparr>"
    and st: "st = mem_snapshot_stats s'"
    by (rule mem_stats_decompose [OF assms(2)])
  have inv: "mem_inv s'" using assms by (metis mem_inv_stats snd_conv)
  have "expired_removals s' = expired_removals s + (int (length (store s)) - int (length (store s')))"
    using mem_remove_keys_count [of "s\<lparr>clock_reads := n\<rparr>" ks] assms(1) by (auto simp: s')
  moreover have "0 \<le> hits s" "0 \<le> misses s" "hits s' = hits s" "misses s' = misses s"
    using assms(1) by (auto simp: mem_inv_def state_wf_def fr)
  ultimately show ?thesis
    using inv hit_ratio [of "hits s" "misses s"]
    by (simp add: st mem_snapshot_stats_def Let_def mem_inv_def state_wf_def)
qed

theorem mem_stats_reports_witness:
  "st_hits (fst (mem_stats sample_full)) = 0 \<and> st_hit_rate (fst (mem_stats sample_full)) \<le> 1"
  using mem_stats_reports [OF sample_full_inv, of "fst (mem_stats sample_full)" "snd (mem_stats sample_full)"]
  by (simp add: sample_full_eq)

definition lookups :: "cache_store \<Rightarrow> int" where
  "lookups s = hits s + misses s"

definition counted_lookup :: "store_op \<Rightarrow> bool" where
  "counted_lookup op \<longleftrightarrow> (case op of Op_get k \<Rightarrow> valid_key k | _ \<Rightarrow> False)"

lemma lookups_probe: "mem_probe k s = (r, s1) \<Longrightarrow> lookups s1 = lookups s"
  by (auto simp: mem_probe_def mem_is_expired_eq mem_remove_expired_entry_eq lookups_def
      split: option.splits if_splits)

lemma lookups_set_locked:
  "mem_inv s \<Longrightarrow> mem_set_locked k v ttl s = (r, s1) \<Longrightarrow> lookups s1 = lookups s"
  by (auto simp: mem_set_locked_eq write_rejected_def written_def Let_def lookups_def split: if_splits)

lemma lookups_conditional:
  assumes "mem_inv s"
  shows "lookups (snd (mem_set_if_absent k v ttl s)) = lookups s"
    "lookups (snd (mem_compare_and_set k x v ttl s)) = lookups s"
proof -
  obtain r s1 where p: "mem_probe k s = (r, s1)" by fastforce
  with assms have inv: "mem_inv s1" by (rule mem_inv_probe)
  obtain st s2 where w: "mem_set_locked k v ttl s1 = (st, s2)" by fastforce
  note facts = p w lookups_probe [OF p] lookups_set_locked [OF inv w]
  show "lookups (snd (mem_set_if_absent k v ttl s)) = lookups s"
    "lookups (snd (mem_compare_and_set k x v ttl s)) = lookups s"
    using facts assms
    by (auto simp: mem_set_if_absent_def mem_set_if_absent_locked_eq mem_compare_and_set_def
        mem_compare_and_set_locked_eq split: sum.splits option.splits)
qed

lemma lookups_exec:
  assumes "mem_inv s" "op \<noteq> Op_clear"
  shows "lookups (mem_exec op s) = lookups s + (if counted_lookup op then 1 else 0)"
proof (cases op)
  case (Op_get k)
  then show ?thesis
    using mem_get_eq [of k s] mem_get_invalid [of k s]
    by (auto simp: lookups_def counted_lookup_def Let_def split: option.splits)
next
  case (Op_set k v ttl)
  with assms(1) show ?thesis
    by (auto simp: mem_set_eq counted_lookup_def lookups_def write_rejected_def written_def Let_def)
next
  case Op_stats
  obtain st s' where st: "mem_stats s = (st, s')" by fastforce
  then obtain d c m n where
    "s' = s\<lparr>store := d, current_memory_bytes := c, expired_removals := m, clock_reads := n\<rparr>"
    by (rule mem_stats_decompose)
  with Op_stats st show ?thesis by (simp add: counted_lookup_def lookups_def)
next
  case (Op_set_if_absent k v ttl)
  with assms(1) show ?thesis by (simp add: counted_lookup_def lookups_conditional)
next
  case (Op_compare_and_set k x v ttl)
  with assms(1) show ?thesis by (simp add: counted_lookup_def lookups_conditional)
qed (use assms in \<open>auto simp: counted_lookup_def lookups_def mem_delete_def
      mem_remove_entry_def mem_remove_if_expired_def mem_is_expired_eq mem_remove_expired_entry_eq
      split: option.splits sum.splits\<close>)

text \<open>
  Every lookup is counted once. Over any run in which the store is not cleared, hits and misses
  together grow by the number of \<^verbatim>\<open>get\<close> calls with a valid key.
\<close>

theorem mem_lookups_counted:
  assumes "mem_inv s" "Op_clear \<notin> set ops"
  shows "hits (mem_run ops s) + misses (mem_run ops s) =
    hits s + misses s + int (length (filter counted_lookup ops))"
proof -
  have "lookups (mem_run ops s) = lookups s + int (length (filter counted_lookup ops))"
    using assms
    by (induction ops s rule: mem_run.induct) (auto simp: lookups_exec mem_inv_exec)
  then show ?thesis by (simp add: lookups_def)
qed

theorem mem_lookups_counted_witness:
  "hits (mem_run [Op_get ''a'', Op_get ''''] sample_full) +
   misses (mem_run [Op_get ''a'', Op_get ''''] sample_full) = 1"
  using mem_lookups_counted [OF sample_full_inv, of "[Op_get ''a'', Op_get '''']"]
  by (simp add: counted_lookup_def valid_key_def sample_full_eq)

end
