(* ===== verification/Cleaner.thy ===== *)
theory Cleaner
  imports MemoryProps
begin

text \<open>
  The background cleanup thread, \<^verbatim>\<open>ExpiredEntryCleaner\<close> of
  \<^verbatim>\<open>tiny_cache/infrastructure/memory_store_cleanup.py\<close>, running beside the clients of a store. The
  thread is given three callbacks by the backend; each callback that takes the lock is one atomic
  step, and clients may run between any two steps: after the snapshot, between two expiry checks,
  and between two removals.
\<close>

section \<open>The thread\<close>

record 's cleaner_callbacks =
  cb_snapshot_items :: "'s \<Rightarrow> (string \<times> cache_entry) list py \<times> 's"
  cb_remove_if_expired :: "string \<Rightarrow> 's \<Rightarrow> unit py \<times> 's"
  cb_is_expired :: "cache_entry \<Rightarrow> 's \<Rightarrow> bool \<times> 's"

text \<open>
  Where the thread is: in \<open>wait\<close>, inside the comprehension over the snapshot with the keys found so
  far, inside the removal loop, or returned.
\<close>

datatype cleaner_pc =
    Waiting
  | Checking "(string \<times> cache_entry) list" "string list"
  | Removing "string list"
  | Returned

record 's cleaner_system =
  cl_store :: 's
  cl_stop_event :: bool
  cl_pc :: cleaner_pc
  cl_errors_logged :: nat

text \<open>
  One step of \<^verbatim>\<open>run\<close>. \<open>wait\<close> returns true exactly when the stop event is set; an exception in the
  body is logged and the loop goes back to \<open>wait\<close>.
\<close>

definition cleaner_next :: "'s cleaner_callbacks \<Rightarrow> 's cleaner_system \<Rightarrow> 's cleaner_system option" where
  "cleaner_next cb sys =
     (case cl_pc sys of
        Returned \<Rightarrow> None
      | Waiting \<Rightarrow>
          (if cl_stop_event sys then Some (sys\<lparr>cl_pc := Returned\<rparr>)
           else (case cb_snapshot_items cb (cl_store sys) of
                   (Inl e, s) \<Rightarrow>
                     Some (sys\<lparr>cl_store := s, cl_errors_logged := cl_errors_logged sys + 1\<rparr>)
                 | (Inr items, s) \<Rightarrow> Some (sys\<lparr>cl_store := s, cl_pc := Checking items []\<rparr>)))
      | Checking [] expired_keys \<Rightarrow>
          Some (sys\<lparr>cl_pc := if expired_keys = [] then Waiting else Removing expired_keys\<rparr>)
      | Checking ((key, entry) # items) expired_keys \<Rightarrow>
          (let (exp, s) = cb_is_expired cb entry (cl_store sys)
           in Some (sys\<lparr>cl_store := s,
                cl_pc := Checking items (if exp then expired_keys @ [key] else expired_keys)\<rparr>))
      | Removing [] \<Rightarrow> Some (sys\<lparr>cl_pc := Waiting\<rparr>)
      | Removing (key # keys) \<Rightarrow>
          (case cb_remove_if_expired cb key (cl_store sys) of
             (Inl e, s) \<Rightarrow>
               Some (sys\<lparr>cl_store := s, cl_pc := Waiting,
                         cl_errors_logged := cl_errors_logged sys + 1\<rparr>)
           | (Inr _, s) \<Rightarrow> Some (sys\<lparr>cl_store := s, cl_pc := Removing keys\<rparr>)))"

text \<open>
  The store's \<^verbatim>\<open>stop\<close> sets the event; joining the thread with a timeout only observes it. A store
  built with \<^verbatim>\<open>start_cleaner=False\<close> has no thread.
\<close>

definition cleaner_stop :: "'s cleaner_system \<Rightarrow> 's cleaner_system" where
  "cleaner_stop sys = sys\<lparr>cl_stop_event := True\<rparr>"

definition cleaner_start :: "bool \<Rightarrow> 's \<Rightarrow> 's cleaner_system" where
  "cleaner_start start_cleaner s =
     \<lparr> cl_store = s, cl_stop_event = False,
       cl_pc = (if start_cleaner then Waiting else Returned), cl_errors_logged = 0 \<rparr>"

section \<open>The thread beside its clients\<close>

text \<open>
  \<open>client\<close> relates the store before and after one atomic operation of any other thread.
\<close>

inductive system_step ::
    "'s cleaner_callbacks \<Rightarrow> ('s \<Rightarrow> 's \<Rightarrow> bool) \<Rightarrow> 's cleaner_system \<Rightarrow> 's cleaner_system \<Rightarrow> bool"
  for cb client where
  thread: "cleaner_next cb sys = Some sys' \<Longrightarrow> system_step cb client sys sys'"
| client: "client (cl_store sys) s' \<Longrightarrow> system_step cb client sys (sys\<lparr>cl_store := s'\<rparr>)"
| stop: "system_step cb client sys (cleaner_stop sys)"

inductive_cases system_stepE: "system_step cb client sys sys'"

inductive system_reachable ::
    "'s cleaner_callbacks \<Rightarrow> ('s \<Rightarrow> 's \<Rightarrow> bool) \<Rightarrow> 's cleaner_system \<Rightarrow> 's cleaner_system \<Rightarrow> bool"
  for cb client sys0 where
  start: "system_reachable cb client sys0 sys0"
| step: "system_reachable cb client sys0 sys \<Longrightarrow> system_step cb client sys sys' \<Longrightarrow>
    system_reachable cb client sys0 sys'"

text \<open>The same interleavings as executable schedules.\<close>

datatype 's action = Thread | Client "'s \<Rightarrow> 's" | Stop

fun run_schedule :: "'s cleaner_callbacks \<Rightarrow> 's action list \<Rightarrow> 's cleaner_system \<Rightarrow> 's cleaner_system"
where
  "run_schedule cb [] sys = sys"
| "run_schedule cb (Thread # acts) sys =
     run_schedule cb acts (case cleaner_next cb sys of None \<Rightarrow> sys | Some sys' \<Rightarrow> sys')"
| "run_schedule cb (Client f # acts) sys =
     run_schedule cb acts (sys\<lparr>cl_store := f (cl_store sys)\<rparr>)"
| "run_schedule cb (Stop # acts) sys = run_schedule cb acts (cleaner_stop sys)"

section \<open>Stopping\<close>

text \<open>
  The steps the thread still has to make before it looks at the stop event again and returns.
\<close>

fun remaining_steps :: "cleaner_pc \<Rightarrow> nat" where
  "remaining_steps Returned = 0"
| "remaining_steps Waiting = 1"
| "remaining_steps (Checking items ks) = 3 + 2 * length items + length ks"
| "remaining_steps (Removing ks) = 2 + length ks"

lemma cleaner_next_None_iff: "cleaner_next cb sys = None \<longleftrightarrow> cl_pc sys = Returned"
  by (auto simp: cleaner_next_def split: cleaner_pc.splits list.splits sum.splits prod.splits)

lemma remaining_steps_0: "remaining_steps pc = 0 \<longleftrightarrow> pc = Returned"
  by (cases pc) auto

lemma cleaner_next_decreases:
  assumes "cl_stop_event sys" "cleaner_next cb sys = Some sys'"
  shows "cl_stop_event sys' \<and> remaining_steps (cl_pc sys') < remaining_steps (cl_pc sys)"
  using assms
  by (auto simp: cleaner_next_def split: cleaner_pc.splits list.splits sum.splits prod.splits if_splits)

lemma stopped_schedule:
  "cl_stop_event sys \<Longrightarrow>
   remaining_steps (cl_pc sys) \<le> length (filter (\<lambda>a. a = Thread) acts) \<Longrightarrow>
   cl_pc (run_schedule cb acts sys) = Returned"
proof (induction cb acts sys rule: run_schedule.induct)
  case (1 cb sys)
  then show ?case by (simp add: remaining_steps_0)
next
  case (2 cb acts sys)
  show ?case
  proof (cases "cleaner_next cb sys")
    case None
    then have "remaining_steps (cl_pc sys) = 0" by (simp add: cleaner_next_None_iff)
    with 2 None show ?thesis by simp
  next
    case (Some sys')
    from cleaner_next_decreases [OF "2.prems"(1) Some] 2 Some show ?thesis by simp
  qed
qed (simp_all add: cleaner_stop_def)

section \<open>The interface the thread relies on\<close>

text \<open>
  What a backend promises about its callbacks: none of them disturbs the invariant, looking does not
  change the contents, and the removal callback decides again, under the lock, whether the entry it
  finds is expired at that moment.
\<close>

locale expiring_store =
  fixes cb :: "'s cleaner_callbacks"
    and inv :: "'s \<Rightarrow> bool"
    and entry_of :: "'s \<Rightarrow> string \<Rightarrow> cache_entry option"
    and now :: "'s \<Rightarrow> real"
  assumes snapshot_keeps: "inv s \<Longrightarrow> cb_snapshot_items cb s = (r, s') \<Longrightarrow>
      inv s' \<and> entry_of s' = entry_of s"
    and check_keeps: "inv s \<Longrightarrow> cb_is_expired cb e s = (b, s') \<Longrightarrow>
      inv s' \<and> entry_of s' = entry_of s"
    and removal: "inv s \<Longrightarrow> cb_remove_if_expired cb k s = (res, s') \<Longrightarrow>
      inv s' \<and> (entry_of s' = entry_of s \<or>
        (\<exists>e. entry_of s k = Some e \<and> expired_at (now s) e) \<and> entry_of s' = (entry_of s)(k := None))"
begin

lemma thread_step_safe:
  assumes "inv (cl_store sys)" "cleaner_next cb sys = Some sys'"
  shows "inv (cl_store sys') \<and>
    (entry_of (cl_store sys') k = entry_of (cl_store sys) k \<or>
     entry_of (cl_store sys') k = None \<and>
       (\<exists>e. entry_of (cl_store sys) k = Some e \<and> expired_at (now (cl_store sys)) e))"
proof (cases "cl_pc sys")
  case Waiting
  with assms snapshot_keeps [of "cl_store sys"] show ?thesis
    by (auto simp: cleaner_next_def split: if_splits prod.splits sum.splits)
next
  case (Checking items ks)
  with assms check_keeps [of "cl_store sys"] show ?thesis
    by (auto simp: cleaner_next_def split: list.splits prod.splits)
next
  case (Removing ks)
  show ?thesis
  proof (cases ks)
    case Nil
    with Removing assms show ?thesis by (auto simp: cleaner_next_def)
  next
    case (Cons k' ks')
    obtain r s' where r: "cb_remove_if_expired cb k' (cl_store sys) = (r, s')" by fastforce
    with Removing Cons assms have "cl_store sys' = s'"
      by (auto simp: cleaner_next_def split: sum.splits)
    with removal [OF assms(1) r] show ?thesis by (auto split: if_splits)
  qed
next
  case Returned
  with assms show ?thesis by (simp add: cleaner_next_def)
qed

lemma reachable_inv:
  assumes "system_reachable cb client sys0 sys" "inv (cl_store sys0)"
    and "\<And>s s'. inv s \<Longrightarrow> client s s' \<Longrightarrow> inv s'"
  shows "inv (cl_store sys)"
  using assms(1)
proof (induction rule: system_reachable.induct)
  case start
  show ?case by (rule assms(2))
next
  case (step sys sys')
  from step.hyps(2) show ?case
    using step.IH assms(3) thread_step_safe
    by (auto elim!: system_stepE simp: cleaner_stop_def)
qed

end

section \<open>The memory store's callbacks\<close>

definition mem_callbacks :: "cache_store cleaner_callbacks" where
  "mem_callbacks =
     \<lparr> cb_snapshot_items = (\<lambda>s. (Inr (mem_snapshot_items s), s)),
       cb_remove_if_expired = (\<lambda>key s. (Inr (), mem_remove_if_expired key s)),
       cb_is_expired = mem_is_expired \<rparr>"

definition mem_entry_of :: "cache_store \<Rightarrow> string \<Rightarrow> cache_entry option" where
  "mem_entry_of s k = od_get k (store s)"

definition mem_client :: "cache_store \<Rightarrow> cache_store \<Rightarrow> bool" where
  "mem_client s s' \<longleftrightarrow> (\<exists>op. s' = mem_exec op s)"

lemma mem_remove_if_expired_entry:
  "mem_entry_of (mem_remove_if_expired k s) =
     (if \<exists>e. mem_entry_of s k = Some e \<and> expired_at (next_reading s) e
      then (mem_entry_of s)(k := None) else mem_entry_of s)"
  by (auto simp: mem_remove_if_expired_def mem_is_expired_eq mem_remove_expired_entry_eq
      mem_entry_of_def fun_eq_iff split: option.splits)

interpretation mem_cleaner: expiring_store mem_callbacks mem_inv mem_entry_of next_reading
proof unfold_locales
  fix s s' :: cache_store and r
  assume "mem_inv s" "cb_snapshot_items mem_callbacks s = (r, s')"
  then show "mem_inv s' \<and> mem_entry_of s' = mem_entry_of s"
    by (simp add: mem_callbacks_def)
next
  fix s s' :: cache_store and e b
  assume "mem_inv s" "cb_is_expired mem_callbacks e s = (b, s')"
  then show "mem_inv s' \<and> mem_entry_of s' = mem_entry_of s"
    by (auto simp: mem_callbacks_def mem_is_expired_eq mem_entry_of_def fun_eq_iff split: if_splits)
next
  fix s s' :: cache_store and k r
  assume inv: "mem_inv s" and "cb_remove_if_expired mem_callbacks k s = (r, s')"
  then have "s' = mem_remove_if_expired k s" by (simp add: mem_callbacks_def)
  with inv show "mem_inv s' \<and> (mem_entry_of s' = mem_entry_of s \<or>
      (\<exists>e. mem_entry_of s k = Some e \<and> expired_at (next_reading s) e) \<and>
      mem_entry_of s' = (mem_entry_of s)(k := None))"
    by (auto simp: mem_remove_if_expired_entry mem_inv_remove_if_expired)
qed

section \<open>Properties\<close>

text \<open>
  C12: the cleanup thread never removes a live entry. Whatever the clients did since the snapshot (a key
  it found expired may have been rewritten meanwhile), a step of the thread leaves every key's
  entry as it is, or removes one that is expired at the clock reading of that very step; and every
  state reachable by interleaving the thread, client operations and \<^verbatim>\<open>stop\<close> keeps the invariant.
\<close>

theorem cleaner_removes_only_expired:
  assumes "mem_init p_items p_mb p_interval p_value clk = Inr s0"
    and "system_reachable mem_callbacks mem_client (cleaner_start b s0) sys"
    and "cleaner_next mem_callbacks sys = Some sys'"
  shows "mem_inv (cl_store sys) \<and>
    (od_get k (store (cl_store sys')) = od_get k (store (cl_store sys)) \<or>
     od_get k (store (cl_store sys')) = None \<and>
       (\<exists>e. od_get k (store (cl_store sys)) = Some e \<and> expired_at (next_reading (cl_store sys)) e))"
proof -
  have "mem_inv (cl_store (cleaner_start b s0))"
    using mem_inv_init [OF assms(1)] by (simp add: cleaner_start_def)
  then have inv: "mem_inv (cl_store sys)"
    by (rule mem_cleaner.reachable_inv [OF assms(2)]) (auto simp: mem_client_def intro: mem_inv_exec)
  with mem_cleaner.thread_step_safe [OF inv assms(3), of k] show ?thesis
    by (simp add: mem_entry_of_def)
qed

theorem cleaner_removes_only_expired_witness:
  "od_get ''a'' (store (cl_store (cleaner_start True sample_store))) =
     od_get ''a'' (store (cl_store (run_schedule mem_callbacks [Thread] (cleaner_start True sample_store))))"
proof -
  have "cleaner_next mem_callbacks (cleaner_start True sample_store) =
      Some ((cleaner_start True sample_store)\<lparr>cl_pc := Checking [] []\<rparr>)"
    by (simp add: cleaner_next_def cleaner_start_def mem_callbacks_def mem_snapshot_items_def
        sample_store_def)
  from cleaner_removes_only_expired [OF sample_store_init system_reachable.start this, of "''a''"] this
  show ?thesis by auto
qed

text \<open>
  C37: stopping takes effect. Once the stop event is set, the thread returns after at most
  \<^const>\<open>remaining_steps\<close> further steps of its own, whatever the clients do in between.
\<close>

theorem cleaner_stops:
  assumes "cl_stop_event sys"
    and "remaining_steps (cl_pc sys) \<le> length (filter (\<lambda>a. a = Thread) acts)"
  shows "cl_pc (run_schedule cb acts sys) = Returned"
  using assms by (rule stopped_schedule)

theorem cleaner_stops_witness:
  "cl_pc (run_schedule mem_callbacks [Client mem_clear, Thread]
     (cleaner_stop (cleaner_start True sample_store))) = Returned"
  by (rule cleaner_stops) (simp_all add: cleaner_stop_def cleaner_start_def)

section \<open>An undisturbed pass\<close>

lemma run_schedule_append:
  "run_schedule cb (a @ b) sys = run_schedule cb b (run_schedule cb a sys)"
  by (induction cb a sys rule: run_schedule.induct) simp_all

lemma run_one:
  "cleaner_next cb sys = Some sys' \<Longrightarrow> run_schedule cb [Thread] sys = sys'"
  by simp

lemma run_checking:
  "mem_expired_keys items (cl_store sys) = (ks, s') \<Longrightarrow> cl_pc sys = Checking items acc \<Longrightarrow>
   run_schedule mem_callbacks (replicate (length items) Thread) sys =
     sys\<lparr>cl_store := s', cl_pc := Checking [] (acc @ ks)\<rparr>"
proof (induction items arbitrary: sys ks acc)
  case Nil
  then show ?case by simp
next
  case (Cons x items)
  obtain k e where x: "x = (k, e)" by (cases x)
  obtain b s1 where ex: "mem_is_expired e (cl_store sys) = (b, s1)" by fastforce
  let ?acc = "if b then acc @ [k] else acc"
  let ?sys1 = "sys\<lparr>cl_store := s1, cl_pc := Checking items ?acc\<rparr>"
  obtain ks' where rest: "mem_expired_keys items s1 = (ks', s')" and ks: "ks = (if b then k # ks' else ks')"
    using Cons.prems(1) x ex by (auto split: prod.splits if_splits)
  have "cleaner_next mem_callbacks sys = Some ?sys1"
    using Cons.prems(2) x ex by (simp add: cleaner_next_def mem_callbacks_def)
  with Cons.IH [of ?sys1 ks' ?acc] rest ks show ?case by auto
qed

fun mem_remove_all_if_expired :: "string list \<Rightarrow> cache_store \<Rightarrow> cache_store" where
  "mem_remove_all_if_expired [] s = s"
| "mem_remove_all_if_expired (k # ks) s = mem_remove_all_if_expired ks (mem_remove_if_expired k s)"

lemma run_removing:
  "cl_pc sys = Removing ks \<Longrightarrow>
   run_schedule mem_callbacks (replicate (length ks) Thread) sys =
     sys\<lparr>cl_store := mem_remove_all_if_expired ks (cl_store sys), cl_pc := Removing []\<rparr>"
proof (induction ks arbitrary: sys)
  case (Cons k ks)
  then have "cleaner_next mem_callbacks sys =
      Some (sys\<lparr>cl_store := mem_remove_if_expired k (cl_store sys), cl_pc := Removing ks\<rparr>)"
    by (simp add: cleaner_next_def mem_callbacks_def)
  with Cons.IH [of "sys\<lparr>cl_store := mem_remove_if_expired k (cl_store sys), cl_pc := Removing ks\<rparr>"]
  show ?case by simp
qed simp

lemma mem_remove_if_expired_mono:
  assumes "mono (clock s)"
  shows "mono (clock (mem_remove_if_expired k s)) \<and>
    next_reading s \<le> next_reading (mem_remove_if_expired k s)"
  using same_config_others(3) [of s k] assms by (auto simp: same_config_def next_reading_def monoD)

lemma mem_remove_all_gone:
  "mono (clock s) \<Longrightarrow> t \<le> next_reading s \<Longrightarrow> live_value t k s = None \<Longrightarrow>
   k \<in> set ks \<or> od_get k (store s) = None \<Longrightarrow>
   od_get k (store (mem_remove_all_if_expired ks s)) = None"
proof (induction ks s rule: mem_remove_all_if_expired.induct)
  case (2 k' ks s)
  let ?s = "mem_remove_if_expired k' s"
  have get: "od_get k (store ?s) =
      (if k = k' \<and> (\<exists>e. od_get k (store s) = Some e \<and> expired_at (next_reading s) e)
       then None else od_get k (store s))"
    using mem_remove_if_expired_entry [of k' s] by (auto simp: mem_entry_of_def fun_eq_iff)
  have "od_get k (store ?s) = None \<or> od_get k (store ?s) = od_get k (store s)"
    by (simp add: get)
  from live_value_dead [OF "2.prems"(3) this order.refl] have dead: "live_value t k ?s = None" .
  have "k \<in> set ks \<or> od_get k (store ?s) = None"
    using "2.prems" by (auto simp: get live_value_def intro: expired_at_mono split: option.splits if_splits)
  with 2 dead mem_remove_if_expired_mono [OF "2.prems"(1), of k'] show ?case by simp
qed simp

text \<open>
  C38: the thread does its work. A pass of the thread that no client disturbs ends back in \<open>wait\<close> with
  every entry that was expired when it woke up removed.
\<close>

theorem cleaner_pass_removes_expired:
  assumes "mono (clock s)"
  shows "\<exists>n. let sys = run_schedule mem_callbacks (replicate n Thread) (cleaner_start True s)
    in cl_pc sys = Waiting \<and>
       (\<forall>k e. od_get k (store s) = Some e \<longrightarrow> expired_at (next_reading s) e \<longrightarrow>
          od_get k (store (cl_store sys)) = None)"
proof -
  let ?start = "cleaner_start True s"
  obtain ks s1 where p: "mem_expired_keys (store s) s = (ks, s1)" by fastforce
  have s1: "\<exists>n. s1 = s\<lparr>clock_reads := n\<rparr> \<and> clock_reads s \<le> n"
    using mem_expired_keys_state [OF p] by auto
  let ?sys1 = "?start\<lparr>cl_pc := Checking (store s) []\<rparr>"
  let ?sys2 = "?start\<lparr>cl_store := s1, cl_pc := Checking [] ks\<rparr>"
  let ?s2 = "mem_remove_all_if_expired ks s1"
  let ?n = "Suc (length (store s) + Suc (if ks = [] then 0 else Suc (length ks)))"
  have wake: "cleaner_next mem_callbacks ?start = Some ?sys1"
    by (simp add: cleaner_next_def cleaner_start_def mem_callbacks_def mem_snapshot_items_def)
  have checked: "run_schedule mem_callbacks (replicate (length (store s)) Thread) ?sys1 = ?sys2"
    using run_checking [of "store s" ?sys1 ks s1 "[]"] p by (simp add: cleaner_start_def)
  have replicate: "replicate ?n Thread = [Thread] @ replicate (length (store s)) Thread @ [Thread] @
      (if ks = [] then [] else replicate (length ks) Thread @ [Thread])"
    by (simp add: replicate_add replicate_app_Cons_same replicate_append_same)
  let ?rest = "if ks = [] then [] else replicate (length ks) Thread @ [Thread]"
  let ?sys3 = "?start\<lparr>cl_store := s1, cl_pc := if ks = [] then Waiting else Removing ks\<rparr>"
  have decided: "cleaner_next mem_callbacks ?sys2 = Some ?sys3"
    by (simp add: cleaner_next_def)
  have "run_schedule mem_callbacks (replicate ?n Thread) ?start = run_schedule mem_callbacks ?rest ?sys3"
    by (simp only: replicate run_schedule_append run_one [OF wake] checked run_one [OF decided])
  also have "\<dots> = ?start\<lparr>cl_store := ?s2, cl_pc := Waiting\<rparr>"
  proof (cases "ks = []")
    case False
    have "cl_pc ?sys3 = Removing ks" using False by simp
    from run_removing [OF this] False show ?thesis
      by (simp add: run_schedule_append cleaner_next_def)
  qed simp
  finally have run: "run_schedule mem_callbacks (replicate ?n Thread) ?start =
      ?start\<lparr>cl_store := ?s2, cl_pc := Waiting\<rparr>" .
  have "od_get k (store ?s2) = None"
    if e: "od_get k (store s) = Some e" "expired_at (next_reading s) e" for k e
  proof -
    from e have "(k, e) \<in> set (store s)" by (intro od_get_in_set)
    with mem_expired_keys_complete [OF p assms _ e(2)] have "k \<in> set ks" by simp
    moreover have "mono (clock s1)" "next_reading s \<le> next_reading s1" "live_value (next_reading s) k s1 = None"
      using s1 assms e by (auto simp: next_reading_def live_value_def monoD)
    ultimately show ?thesis by (intro mem_remove_all_gone) auto
  qed
  with run show ?thesis by (intro exI [of _ ?n]) (simp add: Let_def)
qed

theorem cleaner_pass_removes_expired_witness:
  "\<exists>n. od_get ''b'' (store (cl_store
     (run_schedule mem_callbacks (replicate n Thread) (cleaner_start True sample_full)))) = None"
proof -
  have "mono (clock sample_full)" by (simp add: mono_def)
  moreover have "od_get ''b'' (store sample_full) = Some (new_entry [2] (Some 1) 1)"
    and "expired_at (next_reading sample_full) (new_entry [2] (Some 1) 1)"
    by (simp_all add: od_get_def expired_at_def cache_entry_init_def next_reading_def)
  ultimately show ?thesis
    using cleaner_pass_removes_expired [of sample_full] by (auto simp: Let_def)
qed

end
