(* ===== verification/MemoryBackend.thy ===== *)
theory MemoryBackend
  imports Service Cleaner
begin

text \<open>
  The in-memory store behind the port: the instance of the backend contract that discharges its laws
  for \<^verbatim>\<open>CacheStore\<close>, and what a client of the service sees on top of it.
\<close>

section \<open>The store as a backend\<close>

definition mem_port :: "cache_store cache_port" where
  "mem_port =
     \<lparr> port_get = mem_get, port_set = mem_set, port_set_if_absent = mem_set_if_absent,
       port_compare_and_set = mem_compare_and_set, port_delete = mem_delete,
       port_stats = (\<lambda>s. let (st, s') = mem_stats s in (Inr st, s')) \<rparr>"

lemma mem_port_simps [simp]:
  "port_get mem_port = mem_get" "port_set mem_port = mem_set"
  "port_set_if_absent mem_port = mem_set_if_absent"
  "port_compare_and_set mem_port = mem_compare_and_set" "port_delete mem_port = mem_delete"
  "port_stats mem_port s = (Inr (fst (mem_stats s)), snd (mem_stats s))"
  by (simp_all add: mem_port_def split: prod.split)

definition mem_content :: "cache_store \<Rightarrow> string \<Rightarrow> bytes option" where
  "mem_content s k = map_option e_value (od_get k (store s))"

lemma mem_content_cong: "(\<And>k. od_get k (store s') = od_get k (store s)) \<Longrightarrow> mem_content s' = mem_content s"
  by (simp add: mem_content_def fun_eq_iff)

lemma mem_content_pop: "store s' = od_pop k (store s) \<Longrightarrow> mem_content s' = (mem_content s)(k := None)"
  by (simp add: mem_content_def fun_eq_iff)

lemma mem_content_probe:
  "mem_probe k s = (r, s1) \<Longrightarrow>
     (case r of None \<Rightarrow> mem_content s1 = (mem_content s)(k := None)
              | Some e \<Rightarrow> mem_content s1 = mem_content s \<and> mem_content s k = Some (e_value e))"
  by (auto simp: mem_probe_def mem_is_expired_eq mem_remove_expired_entry_eq mem_content_def fun_eq_iff
      split: option.splits if_splits)

lemma mem_content_write_rejected [simp]: "mem_content (write_rejected k s) = mem_content s"
  by (rule mem_content_cong) (simp add: write_rejected_def)

lemma mem_content_written:
  assumes "mem_inv s"
  shows "mem_content (written k e s) k = Some (e_value e)"
    and "others_shrink k (mem_content s) (mem_content (written k e s))"
proof -
  show "mem_content (written k e s) k = Some (e_value e)"
    by (simp add: mem_content_def od_get_written(1) [OF assms])
  show "others_shrink k (mem_content s) (mem_content (written k e s))"
    using od_get_written(2) [OF assms] by (fastforce simp: mem_content_def others_shrink_def)
qed

text \<open>The locked part of a write, seen from the contents.\<close>

lemma mem_content_set_locked:
  assumes "mem_inv s" "valid_key k" "mem_set_locked k v ttl s = (st, s')"
  shows "mem_inv s' \<and>
    (st = Set_OK \<and> mem_content s' k = Some v \<and> others_shrink k (mem_content s) (mem_content s') \<or>
     st = Set_VALUE_TOO_LARGE \<and> mem_content s' = mem_content s)"
  using assms mem_inv_set_locked [OF assms]
    mem_content_written [OF assms(1), of k "new_entry v ttl (next_reading s)"]
  by (auto simp: mem_set_locked_eq split: if_splits)

section \<open>The laws of the contract\<close>

lemma mem_get_contract:
  assumes "mem_inv s" "valid_key k"
  shows "\<exists>v s'. mem_get k s = (Inr v, s') \<and> mem_inv s' \<and>
    (v = None \<and> mem_content s' = (mem_content s)(k := None) \<or>
     v = mem_content s k \<and> mem_content s' = mem_content s)"
proof -
  obtain r s1 where p: "mem_probe k s = (r, s1)" by fastforce
  have "mem_inv (snd (mem_get k s))" using assms by (intro mem_inv_get)
  moreover have "mem_content (s1\<lparr>misses := m\<rparr>) = mem_content s1"
    "mem_content (s1\<lparr>store := od_move_to_end k (store s1), hits := m\<rparr>) = mem_content s1" for m
    by (rule mem_content_cong; simp)+
  ultimately show ?thesis
    using mem_content_probe [OF p] assms p
    by (cases r) (auto simp: mem_get_def mem_get_locked_eq)
qed

lemma mem_set_if_absent_contract:
  assumes "mem_inv s" "valid_key k"
  shows "\<exists>st s'. mem_set_if_absent k v ttl s = (Inr st, s') \<and> mem_inv s' \<and>
    (st = Cond_STORED \<and> mem_content s' k = Some v \<and> others_shrink k (mem_content s) (mem_content s') \<or>
     st = Cond_EXISTS \<and> mem_content s k \<noteq> None \<and> mem_content s' = mem_content s \<or>
     st \<in> {Cond_VALUE_TOO_LARGE, Cond_CAPACITY_EXHAUSTED} \<and> mem_content s' = (mem_content s)(k := None))"
proof -
  obtain r s1 where p: "mem_probe k s = (r, s1)" by fastforce
  note probe = mem_content_probe [OF p] and inv = mem_inv_probe [OF assms(1) p]
  obtain st s2 where w: "mem_set_locked k v ttl s1 = (st, s2)" by fastforce
  note wrote = mem_content_set_locked [OF inv assms(2) w]
  show ?thesis
  proof (cases r)
    case None
    with assms p w have "mem_set_if_absent k v ttl s = (Inr (stored_status st), s2)"
      by (simp add: mem_set_if_absent_def mem_set_if_absent_locked_eq)
    with None probe wrote show ?thesis
      by (auto simp: others_shrink_def)
  next
    case (Some e)
    with assms p have "mem_set_if_absent k v ttl s = (Inr Cond_EXISTS, s1)"
      by (simp add: mem_set_if_absent_def mem_set_if_absent_locked_eq)
    with Some probe inv show ?thesis by simp
  qed
qed

lemma mem_compare_and_set_contract:
  assumes "mem_inv s" "valid_key k"
  shows "\<exists>st s'. mem_compare_and_set k x v ttl s = (Inr st, s') \<and> mem_inv s' \<and>
    (st = Cond_STORED \<and> mem_content s k = Some x \<and> mem_content s' k = Some v \<and>
       others_shrink k (mem_content s) (mem_content s') \<or>
     st = Cond_MISMATCH \<and> (\<exists>w. mem_content s k = Some w \<and> w \<noteq> x) \<and> mem_content s' = mem_content s \<or>
     st = Cond_NOT_FOUND \<and> mem_content s' = (mem_content s)(k := None) \<or>
     st \<in> {Cond_VALUE_TOO_LARGE, Cond_CAPACITY_EXHAUSTED} \<and> mem_content s k = Some x \<and>
       mem_content s' = mem_content s)"
proof -
  obtain r s1 where p: "mem_probe k s = (r, s1)" by fastforce
  note probe = mem_content_probe [OF p] and inv = mem_inv_probe [OF assms(1) p]
  obtain st s2 where w: "mem_set_locked k v ttl s1 = (st, s2)" by fastforce
  note wrote = mem_content_set_locked [OF inv assms(2) w]
  have eq: "mem_compare_and_set k x v ttl s =
      (case r of None \<Rightarrow> (Inr Cond_NOT_FOUND, s1)
       | Some e \<Rightarrow> if e_value e \<noteq> x then (Inr Cond_MISMATCH, s1) else (Inr (stored_status st), s2))"
    using assms p w by (simp add: mem_compare_and_set_def mem_compare_and_set_locked_eq split: option.split)
  show ?thesis
  proof (cases r)
    case None
    with eq probe inv show ?thesis by simp
  next
    case (Some e)
    with eq probe inv wrote show ?thesis by (cases "e_value e = x") auto
  qed
qed

lemma mem_content_remove_entry: "mem_content (mem_remove_entry k s) = (mem_content s)(k := None)"
  by (auto simp: mem_content_def mem_remove_entry_def fun_eq_iff split: option.splits)

lemma mem_delete_contract:
  assumes "mem_inv s" "valid_key k"
  shows "\<exists>s'. mem_delete k s = (Inr (mem_content s k \<noteq> None), s') \<and> mem_inv s' \<and>
    mem_content s' = (mem_content s)(k := None)"
proof (cases "od_contains k (store s)")
  case True
  then have "mem_content s k \<noteq> None" by (simp add: mem_content_def od_get_contains)
  with True assms mem_inv_remove_entry [OF assms(1), of k] show ?thesis
    by (simp add: mem_delete_def mem_content_remove_entry)
next
  case False
  then have "mem_content s k = None" by (simp add: mem_content_def od_get_contains)
  with False assms show ?thesis by (simp add: mem_delete_def fun_upd_idem)
qed

lemma mem_stats_contract:
  assumes "mem_inv s"
  shows "mem_inv (snd (mem_stats s)) \<and>
    (\<forall>k. mem_content (snd (mem_stats s)) k = None \<or> mem_content (snd (mem_stats s)) k = mem_content s k)"
proof -
  have "snd (mem_stats s) = mem_remove_expired_entries s" by (simp add: mem_stats_def Let_def)
  with assms show ?thesis
    using mem_purge_get [of _ s] mem_inv_stats [OF assms] by (fastforce simp: mem_content_def)
qed

interpretation mem_backend: cache_backend mem_port mem_inv mem_content
proof unfold_locales
  fix k v ttl and s :: cache_store
  assume "mem_inv s" "valid_key k"
  then show "\<exists>st s'. port_set mem_port k v ttl s = (Inr st, s') \<and> mem_inv s' \<and>
      (st = Set_OK \<and> mem_content s' k = Some v \<and> others_shrink k (mem_content s) (mem_content s') \<or>
       st \<noteq> Set_OK \<and> mem_content s' = mem_content s)"
    using mem_content_set_locked [of s k v ttl "fst (mem_set_locked k v ttl s)" "snd (mem_set_locked k v ttl s)"]
    by (auto simp: mem_set_def split: prod.split)
next
  fix s :: cache_store
  assume "mem_inv s"
  from mem_stats_contract [OF this]
  show "\<exists>st s'. port_stats mem_port s = (Inr st, s') \<and> mem_inv s' \<and>
      (\<forall>k. mem_content s' k = None \<or> mem_content s' k = mem_content s k)"
    by simp
qed (simp_all only: mem_port_simps mem_get_contract mem_set_if_absent_contract
      mem_compare_and_set_contract mem_delete_contract,
    simp_all add: mem_get_def mem_set_def mem_set_if_absent_def mem_compare_and_set_def mem_delete_def)

section \<open>What a client of the service sees\<close>

text \<open>
  C5: the service over the memory backend refines a lossy map. Whatever requests are made, in any
  order, in any namespaces, with any ttls and any clock: every reply is one a map that may forget
  values can give. A value returned is the last one successfully written under that namespace and
  key and not deleted since, a compare-and-set only succeeds against that value, and a request is
  refused exactly when its key or namespace is invalid.
\<close>

theorem service_refines_lossy_map:
  assumes "mem_init p_items p_mb p_interval p_value clk = Inr s0"
  shows "allowed_trace Map.empty (fst (svc_run mem_port requests s0))"
proof -
  have "mem_content s0 \<subseteq>\<^sub>m Map.empty"
    using assms by (auto simp: mem_init_def mem_content_def map_le_iff py_simps)
  with mem_backend.svc_run_tracks [OF mem_inv_init [OF assms], of Map.empty requests] show ?thesis
    by (metis surj_pair fst_conv)
qed

theorem service_refines_lossy_map_witness:
  "allowed_trace Map.empty (fst (svc_run mem_port
     [Set_req ''k'' [1] 5 (Some ''team''), Get_req ''k'' (Some ''team''), Get_req ''k'' None]
     sample_store))"
  by (rule service_refines_lossy_map [OF sample_store_init])

text \<open>
  C15: namespaces do not disturb each other. A request in one namespace, whatever it does, leaves the
  value of every key of another namespace what it was, or evicts it; it never writes it.
\<close>

theorem service_namespace_isolation:
  assumes "mem_inv s"
    and "request_key r = Some (storage_key k ns)"
    and "validate_namespace (py_opt_str ns) = Inr (Some n)"
    and "storage_key k' ns' = Inr sk'" "validate_namespace (py_opt_str ns') = Inr (Some n')" "n \<noteq> n'"
  shows "mem_content (snd (svc_call mem_port r s)) sk' \<in> {None, mem_content s sk'}"
proof (cases "storage_key k ns")
  case (Inl e)
  with assms(2) mem_backend.svc_call_refused [of r e s] show ?thesis by simp
next
  case (Inr sk)
  have "sk \<noteq> sk'"
    using Inr assms(3-6) by (auto simp: storage_key_cases dest: namespaced_key_inject split: if_splits)
  with mem_backend.svc_call_frame [OF assms(1), of r sk sk'] Inr assms(2) show ?thesis by simp
qed

theorem service_namespace_isolation_witness:
  "mem_content (snd (svc_call mem_port (Set_req ''k:1'' [9] 0 (Some ''team'')) sample_full)) ''1:a:k:1'' = None"
proof -
  have v: "validate_namespace (py_opt_str (Some ''team'')) = Inr (Some ''team'')"
    "validate_namespace (py_opt_str (Some ''a'')) = Inr (Some ''a'')"
    by (simp_all add: py_opt_str_def validate_namespace_valid)
  have k: "storage_key ''k:1'' (Some ''a'') = Inr ''1:a:k:1''"
    by (simp add: storage_key_cases v valid_key_def namespaced_key_sample)
  from service_namespace_isolation
      [OF sample_full_inv _ v(1) k v(2), of "Set_req ''k:1'' [9] 0 (Some ''team'')" "''k:1''"]
  show ?thesis by (simp add: request_key_def mem_content_def od_get_def)
qed

text \<open>
  A client of the service reads its own write. After a successful set in any namespace, a get of
  the same key in the same namespace returns the value, unless a positive ttl has run out between
  the two readings of the clock; a ttl of zero or less never expires.
\<close>

theorem service_read_your_write:
  assumes "mem_inv s" and "svc_set mem_port k v ttl ns s = (Inr Set_OK, s')"
  shows "fst (svc_get mem_port k ns s') =
    Inr (if ttl > 0 \<and> clock s (Suc (clock_reads s)) - clock s (clock_reads s) \<ge> of_int ttl
         then None else Some v)"
proof -
  obtain sk where sk: "storage_key k ns = Inr sk"
    and set: "mem_set sk v (normalize_ttl ttl) s = (Inr Set_OK, s')"
    using assms(2) by (auto simp: svc_set_def split: sum.splits)
  from mem_set_then_get [OF assms(1) set] sk show ?thesis
    by (simp add: svc_get_def normalize_ttl_def)
qed

theorem service_read_your_write_witness:
  "fst (svc_get mem_port ''c'' None (snd (svc_set mem_port ''c'' [3] 0 None sample_full))) = Inr (Some [3])"
proof -
  have "svc_set mem_port ''c'' [3] 0 None sample_full = mem_set ''c'' [3] None sample_full"
    by (simp add: svc_set_def storage_key_cases py_opt_str_def normalize_ttl_def)
  then have "svc_set mem_port ''c'' [3] 0 None sample_full =
      (Inr Set_OK, written ''c'' (new_entry [3] None (next_reading sample_full)) sample_full)"
    by (simp only: sample_third_set)
  from service_read_your_write [OF sample_full_inv this] this show ?thesis by simp
qed

text \<open>
  After a delete that returns, a get of the same key in the same namespace finds nothing.
\<close>

theorem service_delete_then_get:
  assumes "mem_inv s" "svc_delete mem_port k ns s = (Inr b, s')"
  shows "fst (svc_get mem_port k ns s') = Inr None"
  using mem_backend.svc_delete_then_get [OF assms] by auto

theorem service_delete_then_get_witness:
  "fst (svc_get mem_port ''a'' None (snd (svc_delete mem_port ''a'' None sample_full))) = Inr None"
proof -
  have "svc_delete mem_port ''a'' None sample_full = (Inr True, mem_remove_entry ''a'' sample_full)"
    by (simp add: svc_delete_def storage_key_cases py_opt_str_def mem_delete_def od_contains_def)
  from service_delete_then_get [OF sample_full_inv this] this show ?thesis by simp
qed

end
