(* ===== verification/GrpcProps.thy ===== *)
theory GrpcProps
  imports HandlerFacts MemoryBackend
begin

text \<open>
  The gRPC transport: every backend that fulfils the port's contract gives an application that
  fulfils the transport's, so the handlers over the memory backend never fail internally; and the
  properties of the handlers over any application.
\<close>

section \<open>From the port to the application\<close>

lemma reply_map_iff:
  "reply_map f x = (r, s') \<longleftrightarrow> s' = snd x \<and> r = map_sum id f (fst x)"
  by (auto simp: reply_map_def)

lemma raises_only_map [simp]:
  "raises_only_ValueError (map_sum id f r) = raises_only_ValueError r"
  by (cases r) (simp_all add: raises_only_ValueError_def)

lemma bytes_or_none_map [simp]: "bytes_or_none (map_sum id py_opt_bytes r)"
  by (cases r) (auto simp: bytes_or_none_def py_opt_bytes_def split: option.split)

lemma raises_only_Inr [simp]: "raises_only_ValueError (Inr x)"
  by (simp add: raises_only_ValueError_def)

lemma reply_allowed_raises:
  "reply_allowed m r rep \<Longrightarrow> raises_only_ValueError rep"
  by (cases rep) (auto simp: reply_allowed_def request_key_def raises_only_ValueError_def
      dest!: storage_key_Inl split: svc_request.splits sum.splits)

context cache_backend
begin

lemma svc_call_ok:
  "inv s \<Longrightarrow> svc_call P r s = (rep, s') \<Longrightarrow> inv s' \<and> raises_only_ValueError rep"
  using svc_call_tracks [of s "content s" r rep s'] reply_allowed_raises by auto

lemma svc_ok:
  assumes "inv s"
  shows "svc_get P k ns s = (r1, s') \<Longrightarrow> inv s' \<and> raises_only_ValueError r1"
    "svc_set P k v ttl ns s = (r2, s') \<Longrightarrow> inv s' \<and> raises_only_ValueError r2"
    "svc_set_if_absent P k v ttl ns s = (r3, s') \<Longrightarrow> inv s' \<and> raises_only_ValueError r3"
    "svc_compare_and_set P k x v ttl ns s = (r3, s') \<Longrightarrow> inv s' \<and> raises_only_ValueError r3"
    "svc_delete P k ns s = (r4, s') \<Longrightarrow> inv s' \<and> raises_only_ValueError r4"
  using svc_call_ok [OF assms, of "Get_req k ns"] svc_call_ok [OF assms, of "Set_req k v ttl ns"]
    svc_call_ok [OF assms, of "Set_if_absent_req k v ttl ns"]
    svc_call_ok [OF assms, of "Compare_and_set_req k x v ttl ns"] svc_call_ok [OF assms, of "Delete_req k ns"]
  by (simp_all add: reply_map_iff)

end

sublocale cache_backend \<subseteq> application: cache_application "service_app P" inv
proof unfold_locales
  fix s s' t assume "inv s" "app_stats (service_app P) s = (t, s')"
  with stats_law [of s] show "inv s' \<and> (\<exists>x. t = Inr x)"
    by (auto simp: service_app_def svc_stats_def)
qed (auto simp: service_app_def reply_map_iff dest: svc_ok svc_ok(1) [OF _ surjective_pairing])

text \<open>
  With the interpretation \<open>mem_backend\<close> this gives the application contract for the service over the
  memory store: its facts are \<open>mem_backend.application.\<close>, and \<open>mem_app\<close> is that application.
\<close>

definition mem_app :: "cache_store cache_app" where
  "mem_app = service_app mem_port"

section \<open>The handlers over any application\<close>

text \<open>
  The world of the witnesses: the full sample store behind the service, no request id set yet, and a
  call that names the namespace \<open>''team''\<close>.
\<close>

definition sample_world :: "cache_store rpc_world" where
  "sample_world =
     \<lparr> rw_app = sample_full, rw_request_id = ''-'', rw_uuid = (\<lambda>n. ''u'' @ dec n), rw_uuid_reads = 0,
       rw_debug_enabled = True, rw_log = [], rw_code = None, rw_details = None \<rparr>"

definition sample_call :: "(string \<times> pyobj) list \<Rightarrow> rpc_context" where
  "sample_call metadata = \<lparr> ctx_peer = Inr ''peer'', ctx_metadata = Inr (Some metadata) \<rparr>"

text \<open>
  C23: \<^verbatim>\<open>Get\<close> on every branch, over any application. A bad namespace header answers INVALID_ARGUMENT
  without calling the application; a \<^verbatim>\<open>ValueError\<close> of the application answers INVALID_ARGUMENT with its
  message; any other exception, and a value that is not bytes, answers INTERNAL with the request id
  and without the exception's text; otherwise the status is left alone and the response says
  whether there was a value, and which.
\<close>

theorem grpc_get_spec:
  "outcome (grpc_get app context key w) =
    (case header_namespace context of
       Inl e \<Rightarrow> (\<lparr> cv_found = False, cv_value = [] \<rparr>, rw_app w, Some INVALID_ARGUMENT, Some (exn_message e))
     | Inr ns \<Rightarrow>
         (case app_get app key ns (rw_app w) of
            (Inr PNone, s) \<Rightarrow> (\<lparr> cv_found = False, cv_value = [] \<rparr>, s, rw_code w, rw_details w)
          | (Inr (PBytes b), s) \<Rightarrow> (\<lparr> cv_found = True, cv_value = b \<rparr>, s, rw_code w, rw_details w)
          | (Inl (ValueError m), s) \<Rightarrow>
              (\<lparr> cv_found = False, cv_value = [] \<rparr>, s, Some INVALID_ARGUMENT, Some m)
          | (_, s) \<Rightarrow>
              (\<lparr> cv_found = False, cv_value = [] \<rparr>, s, Some INTERNAL,
               Some (''Internal server error (request_id='' @ effective_request_id w @ '')''))))"
proof (cases "header_namespace context")
  case (Inl e)
  with header_namespace_Inl [OF Inl] show ?thesis
    by (auto simp: outcome_get single_outcome_def error_outcome_def empty_cache_value_def)
next
  case (Inr ns)
  obtain r s where "app_get app key ns (rw_app w) = (r, s)" by fastforce
  with Inr show ?thesis
    by (auto simp: outcome_get single_outcome_def error_outcome_def empty_cache_value_def get_answer_def
        internal_error_details_def split: sum.split pyobj.split exn.split)
qed

text \<open>
  C24: the four writing operations, over any application. Each calls the application once with the
  fields of the request and the namespace of the header, answers with the status of the result, and
  sets RESOURCE_EXHAUSTED with the message of the refusal exactly when a write was refused for its
  size or for lack of capacity; exceptions are reported as for \<^verbatim>\<open>Get\<close>. A delete answers OK whether or
  not there was an entry.
\<close>

theorem grpc_write_specs:
  "outcome (grpc_set app context item w) =
     single_outcome CACHE_STATUS_UNSPECIFIED context
       (app_set app (it_key item) (it_value item) (it_ttl item)) set_answer w \<and>
   outcome (grpc_set_if_absent app context item w) =
     single_outcome CONDITIONAL_CACHE_STATUS_UNSPECIFIED context
       (app_set_if_absent app (it_key item) (it_value item) (it_ttl item)) conditional_answer w \<and>
   outcome (grpc_compare_and_set app context request w) =
     single_outcome CONDITIONAL_CACHE_STATUS_UNSPECIFIED context
       (app_compare_and_set app (cr_key request) (cr_expected_value request) (cr_value request)
          (cr_ttl request)) conditional_answer w \<and>
   outcome (grpc_delete app context key w) =
     single_outcome CACHE_STATUS_UNSPECIFIED context (app_delete app key) (\<lambda>_. Inr (PB_OK, None)) w"
proof -
  have "delete_answer = (\<lambda>_. Inr (PB_OK, None))"
    by (simp add: delete_answer_def fun_eq_iff)
  then show ?thesis
    using outcome_delete [of app "context" key w]
    by (simp add: outcome_set outcome_set_if_absent outcome_compare_and_set)
qed

text \<open>
  C25: a batch read is the single reads in order. \<^verbatim>\<open>MultiGet\<close> answers one item per key, in the order of
  the request, each the result of the application's own \<^verbatim>\<open>get\<close> in the state the previous one left; an
  invalid key or a failing lookup is reported in its own item and neither stops nor alters the
  others, and no item is both found and in error.
\<close>

theorem grpc_multi_get_spec:
  "outcome (grpc_multi_get app context keys w) =
    (case header_namespace context of
       Inl e \<Rightarrow> ([], rw_app w, Some INVALID_ARGUMENT, Some (exn_message e))
     | Inr ns \<Rightarrow>
         (let (rs, s) = each (\<lambda>k. app_get app k ns) keys (rw_app w)
          in (map (lookup_item (effective_request_id w)) rs, s, rw_code w, rw_details w))) \<and>
   map fst (fst (each (\<lambda>k. app_get app k ns) keys (rw_app w))) = keys \<and>
   \<not> (lk_found (lookup_item rid x) \<and> lk_error (lookup_item rid x) \<noteq> [])"
proof -
  have "\<not> (lk_found (lookup_item rid x) \<and> lk_error (lookup_item rid x) \<noteq> [])"
    by (auto simp: lookup_item_def split: prod.split sum.split pyobj.split exn.split)
  then show ?thesis
    by (auto simp: outcome_multi_get each_keys error_outcome_def dest: header_namespace_Inl
        split: sum.split)
qed

text \<open>
  C26: batch writes are the single writes in order. \<^verbatim>\<open>MultiSet\<close> and \<^verbatim>\<open>MultiDelete\<close> answer one result per
  item, in order, under the item's key; a refused or invalid item is an error result of its own and
  the call as a whole still succeeds.
\<close>

theorem grpc_multi_write_spec:
  "header_namespace context = Inr ns \<longrightarrow>
   outcome (grpc_multi_set app context items w) =
     (let (rs, s) = each (\<lambda>it. app_set app (it_key it) (it_value it) (it_ttl it) ns) items (rw_app w)
      in (map (\<lambda>(it, r). operation_item (effective_request_id w) set_refusal (it_key it, r)) rs, s,
          rw_code w, rw_details w)) \<and>
   outcome (grpc_multi_delete app context keys w) =
     (let (rs, s) = each (\<lambda>k. app_delete app k ns) keys (rw_app w)
      in (map (operation_item (effective_request_id w) (\<lambda>_. None)) rs, s, rw_code w, rw_details w))"
  by (simp add: outcome_multi_set outcome_multi_delete)

lemma sample_call_namespace:
  "header_namespace (sample_call []) = Inr None"
  "header_namespace (sample_call [(''X-Cache-Namespace'', PStr '' team '')]) = Inr (Some ''team'')"
proof -
  have "lower ''X-Cache-Namespace'' = NAMESPACE_HEADER" by code_simp
  moreover have "validate_namespace (PStr '' team '') = Inr (Some ''team'')" by code_simp
  ultimately show "header_namespace (sample_call []) = Inr None"
    "header_namespace (sample_call [(''X-Cache-Namespace'', PStr '' team '')]) = Inr (Some ''team'')"
    by (simp_all add: header_namespace_def sample_call_def truthy_def)
qed

theorem grpc_multi_write_spec_witness:
  "fst (outcome (grpc_multi_delete (service_app mem_port) (sample_call []) [''a'', ''''] sample_world)) =
     [\<lparr> or_key = ''a'', or_status = PB_OK, or_error = [] \<rparr>,
      \<lparr> or_key = [], or_status = PB_ERROR, or_error = ''Key cannot be empty'' \<rparr>]"
proof -
  have "valid_key ''a''" "\<not> valid_key ''''" by (simp_all add: valid_key_def)
  then show ?thesis
    using grpc_multi_write_spec [of "sample_call []" None "service_app mem_port" "[]" sample_world "[''a'', '''']"]
    by (auto simp: sample_call_namespace service_app_def svc_delete_def storage_key_cases py_opt_str_def
        mem_delete_def operation_item_def key_error_def split: prod.splits)
qed

text \<open>
  C39: no handler leaks its request id. Whatever happens in the body, errors included, the request id
  of the task after each of the nine handlers is the one before it, so an id generated for one call
  is never seen by the next.
\<close>

theorem grpc_handlers_restore_request_id:
  "list_all (\<lambda>request_id. request_id = rw_request_id w)
    [rw_request_id (snd (grpc_get app ctx key w)), rw_request_id (snd (grpc_set app ctx item w)),
     rw_request_id (snd (grpc_set_if_absent app ctx item w)),
     rw_request_id (snd (grpc_compare_and_set app ctx request w)),
     rw_request_id (snd (grpc_delete app ctx key w)), rw_request_id (snd (grpc_multi_get app ctx keys w)),
     rw_request_id (snd (grpc_multi_set app ctx items w)),
     rw_request_id (snd (grpc_multi_delete app ctx keys w)),
     rw_request_id (snd (grpc_stats pb_int app ctx w))]"
  by (simp add: single_handlers_restore batch_handlers_restore stats_restore)

section \<open>The handlers over the memory backend\<close>

text \<open>
  C22: over the memory backend no operation but \<^verbatim>\<open>Stats\<close> ever answers INTERNAL. Whatever the request and
  the metadata (invalid keys, oversize values, malformed or binary namespace headers, a context that
  raises), the status stays what it was or becomes INVALID_ARGUMENT or RESOURCE_EXHAUSTED, and the
  store stays well-formed.
\<close>

theorem grpc_memory_no_internal_error:
  assumes "mem_inv (rw_app w)"
  shows "list_all (\<lambda>(s, code, details). mem_inv s \<and>
      (code = rw_code w \<or> code = Some INVALID_ARGUMENT \<or> code = Some RESOURCE_EXHAUSTED))
    [snd (outcome (grpc_get mem_app ctx key w)), snd (outcome (grpc_set mem_app ctx item w)),
     snd (outcome (grpc_set_if_absent mem_app ctx item w)),
     snd (outcome (grpc_compare_and_set mem_app ctx request w)),
     snd (outcome (grpc_delete mem_app ctx key w)), snd (outcome (grpc_multi_get mem_app ctx keys w)),
     snd (outcome (grpc_multi_set mem_app ctx items w)),
     snd (outcome (grpc_multi_delete mem_app ctx keys w))]"
  using mem_backend.application.single_handlers_ok [OF assms, folded mem_app_def]
    mem_backend.application.batch_handlers_ok [OF assms, folded mem_app_def]
  by (simp add: case_prod_beta) (metis prod.collapse)

theorem grpc_memory_no_internal_error_witness:
  "fst (snd (snd (outcome (grpc_get mem_app (sample_call []) '''' sample_world)))) \<noteq> Some INTERNAL"
proof -
  have "mem_inv (rw_app sample_world)" by (simp add: sample_world_def sample_full_inv)
  from grpc_memory_no_internal_error [OF this, of "sample_call []" "''''"] show ?thesis
    by (auto simp: case_prod_beta sample_world_def)
qed


lemma sample_grpc_set:
  "fst (grpc_set mem_app (sample_call []) \<lparr> it_key = ''c'', it_value = [3], it_ttl = 0 \<rparr> sample_world) = PB_OK"
proof -
  have "svc_set mem_port ''c'' [3] 0 None sample_full = mem_set ''c'' [3] None sample_full"
    by (simp add: svc_set_def storage_key_cases py_opt_str_def normalize_ttl_def)
  then have "fst (outcome (grpc_set mem_app (sample_call []) \<lparr> it_key = ''c'', it_value = [3], it_ttl = 0 \<rparr>
      sample_world)) = PB_OK"
    by (simp add: outcome_set single_outcome_def sample_call_namespace mem_app_def service_app_def
        sample_world_def sample_third_set)
  then show ?thesis
    by (metis fst_conv outcome.simps surj_pair)
qed


section \<open>Statistics on the wire\<close>

text \<open>The integers a field of the given width can hold.\<close>

definition fits :: "nat \<Rightarrow> int \<Rightarrow> bool" where
  "fits bits i \<longleftrightarrow> - (2 ^ (bits - 1)) \<le> i \<and> i < 2 ^ (bits - 1)"

definition stats_fit :: "cache_stats_snapshot \<Rightarrow> bool" where
  "stats_fit st \<longleftrightarrow>
     list_all (fits 32) [st_size st, st_hits st, st_misses st, st_evictions st, st_max_items st,
       st_lru_evictions st, st_expired_removals st, st_rejected_oversize st, st_rejected_capacity st] \<and>
     list_all (fits 64) [st_memory_usage_bytes st, st_max_memory_bytes st, st_max_value_bytes st]"

text \<open>
  C40: \<^verbatim>\<open>Stats\<close> works as long as the counters fit their 32-bit fields, and only so long. With a protobuf
  library that rejects an integer outside its field's range, the handler answers with exactly the
  snapshot of the store when every field fits, and with INTERNAL from the moment one counter (the
  hits, say) passes the range; the store is purged in either case.
\<close>

theorem grpc_stats_range:
  assumes "\<And>bits i. fits bits i \<Longrightarrow> pb_int bits i = Inr i"
    and "\<And>bits i. \<not> fits bits i \<Longrightarrow> \<exists>m. pb_int bits i = Inl (ValueError m)"
    and "mem_stats (rw_app w) = (st, s')"
  shows "outcome (grpc_stats pb_int mem_app ctx w) =
    (if stats_fit st
     then (\<lparr> sg_size = st_size st, sg_hits = st_hits st, sg_misses = st_misses st,
             sg_evictions = st_evictions st, sg_hit_rate = st_hit_rate st,
             sg_memory_usage_bytes = st_memory_usage_bytes st, sg_max_memory_bytes = st_max_memory_bytes st,
             sg_max_items = st_max_items st, sg_max_value_bytes = st_max_value_bytes st,
             sg_lru_evictions = st_lru_evictions st, sg_expired_removals = st_expired_removals st,
             sg_rejected_oversize = st_rejected_oversize st,
             sg_rejected_capacity = st_rejected_capacity st \<rparr>, s', rw_code w, rw_details w)
     else (empty_cache_stats, s', Some INTERNAL,
           Some (''Internal server error (request_id='' @ effective_request_id w @ '')'')))"
proof -
  have app: "app_stats mem_app (rw_app w) = (Inr st, s')"
    using assms(3) by (simp add: mem_app_def service_app_def svc_stats_def)
  show ?thesis
  proof (cases "stats_fit st")
    case True
    then show ?thesis
      using app assms(1)
      by (simp add: outcome_stats cache_stats_response_def stats_fit_def)
  next
    case False
    have fails: "\<exists>e. py_bind (pb_int bits i) f = Inl e"
      if "fits bits i \<Longrightarrow> \<exists>e. f i = Inl e" for bits i and f :: "int \<Rightarrow> cache_stats_msg py"
      using that assms(1,2) by (cases "fits bits i") (auto, metis py_bind_simps(1))
    have "\<exists>e. cache_stats_response pb_int st = Inl e"
      unfolding cache_stats_response_def
      by (intro fails) (use False in \<open>simp add: stats_fit_def\<close>)
    then show ?thesis
      using app False by (auto simp: outcome_stats internal_error_details_def)
  qed
qed

definition pb_int_check :: "nat \<Rightarrow> int \<Rightarrow> int py" where
  "pb_int_check bits i = (if fits bits i then Inr i else Inl (ValueError ''Value out of range''))"

lemma mem_stats_hits:
  assumes "mem_stats s = (st, s')"
  shows "st_hits st = hits s"
proof -
  obtain ks n d c m where
    fr: "s' = s\<lparr>store := d, current_memory_bytes := c, expired_removals := m, clock_reads := n\<rparr>" and
    st: "st = mem_snapshot_stats s'"
    by (rule mem_stats_decompose [OF assms])
  have "st_hits st = hits s'" unfolding st by (simp add: mem_snapshot_stats_def Let_def)
  also have "\<dots> = hits s" unfolding fr by simp
  finally show ?thesis .
qed

theorem grpc_stats_range_witness:
  "fst (snd (snd (outcome (grpc_stats pb_int_check mem_app (sample_call [])
     (sample_world\<lparr>rw_app := sample_full\<lparr>hits := 2147483648\<rparr>\<rparr>))))) = Some INTERNAL"
proof -
  let ?w = "sample_world\<lparr>rw_app := sample_full\<lparr>hits := 2147483648\<rparr>\<rparr>"
  obtain st s' where st: "mem_stats (rw_app ?w) = (st, s')" by fastforce
  then have "\<not> stats_fit st"
    using mem_stats_hits [of "sample_full\<lparr>hits := 2147483648\<rparr>"] by (simp add: stats_fit_def fits_def)
  moreover have "pb_int_check bits i = Inr i" if "fits bits i" for bits i
    using that by (simp add: pb_int_check_def)
  moreover have "\<exists>m. pb_int_check bits i = Inl (ValueError m)" if "\<not> fits bits i" for bits i
    using that by (simp add: pb_int_check_def)
  ultimately show ?thesis
    using grpc_stats_range [OF _ _ st, of pb_int_check "sample_call []"] by simp
qed

end
