(* ===== verification/Interceptors.thy ===== *)
theory Interceptors
  imports HandlerFacts
begin

text \<open>
  What the server puts around the handlers: the request id and active request interceptors of
  \<^verbatim>\<open>tiny_cache/transport/grpc/interceptors.py\<close>, and the counter of
  \<^verbatim>\<open>tiny_cache/transport/active_requests.py\<close> they keep.
\<close>

section \<open>The counter of active requests\<close>

definition increment :: "int \<Rightarrow> int" where
  "increment v = v + 1"

definition decrement :: "int \<Rightarrow> int" where
  "decrement v = max (v - 1) 0"

section \<open>The request id scope\<close>

definition REQUEST_ID_HEADER :: string where
  "REQUEST_ID_HEADER = ''x-request-id''"

text \<open>
  The context an interceptor sees. \<open>sc_send\<close> is what \<^verbatim>\<open>send_initial_metadata\<close> answers.
\<close>

record server_context =
  sc_peer :: "string py"
  sc_metadata :: "(string \<times> string) list option py"
  sc_send :: "unit py"

text \<open>The same context as the handler sees it.\<close>

definition handler_context :: "server_context \<Rightarrow> rpc_context" where
  "handler_context sc =
     \<lparr> ctx_peer = sc_peer sc,
       ctx_metadata = map_sum id (map_option (map (\<lambda>(k, v). (k, PStr v)))) (sc_metadata sc) \<rparr>"

fun request_id_loop :: "(string \<times> string) list \<Rightarrow> string option" where
  "request_id_loop [] = None"
| "request_id_loop ((key, v) # rest) =
     (if lower key = REQUEST_ID_HEADER \<and> v \<noteq> [] then Some v else request_id_loop rest)"

definition get_request_id_from_metadata ::
    "(string \<times> string) list option py \<Rightarrow> 's rpc_world \<Rightarrow> string option \<times> 's rpc_world" where
  "get_request_id_from_metadata metadata w =
     (case metadata of
        Inl e \<Rightarrow> (None, log_debug (Log_debug ''Unable to read request id from metadata'') w)
      | Inr m \<Rightarrow> (request_id_loop (case m of None \<Rightarrow> [] | Some kvs \<Rightarrow> kvs), w))"

text \<open>
  Entering the scope: the id, the token with which the variable is reset, and the initial metadata
  that was sent, if the call accepted it. \<^verbatim>\<open>invocation_metadata()\<close> is called outside the guarded
  loop, so an exception of that call ends the call.
\<close>

definition enter_request_id_scope ::
    "server_context \<Rightarrow> 's rpc_world
      \<Rightarrow> (string \<times> string \<times> (string \<times> string) list option) py \<times> 's rpc_world" where
  "enter_request_id_scope sc w =
     (case sc_metadata sc of
        Inl e \<Rightarrow> (Inl e, w)
      | Inr m \<Rightarrow>
          (let (found, w1) = get_request_id_from_metadata (Inr m) w;
               (request_id, w2) =
                 (case found of
                    Some i \<Rightarrow> (i, w1)
                  | None \<Rightarrow> (rw_uuid w1 (rw_uuid_reads w1), w1\<lparr>rw_uuid_reads := Suc (rw_uuid_reads w1)\<rparr>));
               token = rw_request_id w2;
               w3 = w2\<lparr>rw_request_id := request_id\<rparr>
           in (case sc_send sc of
                 Inr _ \<Rightarrow> (Inr (request_id, token, Some [(REQUEST_ID_HEADER, request_id)]), w3)
               | Inl e \<Rightarrow>
                   (Inr (request_id, token, None),
                    log_debug (Log_debug ''Unable to send request id metadata'') w3))))"

definition leave_request_id_scope :: "string \<Rightarrow> 's rpc_world \<Rightarrow> 's rpc_world" where
  "leave_request_id_scope token w = w\<lparr>rw_request_id := token\<rparr>"

text \<open>
  A unary handler inside the scope: the initial metadata sent, and its result or the exception.
\<close>

definition with_request_id ::
    "server_context \<Rightarrow> ('s rpc_world \<Rightarrow> 'r py \<times> 's rpc_world) \<Rightarrow> 's rpc_world
      \<Rightarrow> (string \<times> string) list option \<times> 'r py \<times> 's rpc_world" where
  "with_request_id sc behavior w =
     (case enter_request_id_scope sc w of
        (Inl e, w1) \<Rightarrow> (None, Inl e, w1)
      | (Inr (request_id, token, sent), w1) \<Rightarrow>
          (let (r, w2) = behavior w1 in (sent, r, leave_request_id_scope token w2)))"

section \<open>Streams\<close>

text \<open>
  A response stream is pulled item by item; \<^verbatim>\<open>_iterate_responses\<close> makes no difference between a
  synchronous and an asynchronous iterator, and neither does a generator here, which is a function from
  its own state. The wrapped stream enters its scope when the first item is pulled and leaves it when
  the inner stream ends or raises, or when the consumer closes it between two items.
\<close>

datatype 'i pulled = Item 'i | Exhausted | Failed exn

type_synonym ('g, 'i, 'w) generator = "'g \<Rightarrow> 'w \<Rightarrow> 'i pulled \<times> 'g \<times> 'w"

definition iterate_responses :: "('g, 'i, 'w) generator + ('g, 'i, 'w) generator \<Rightarrow> ('g, 'i, 'w) generator" where
  "iterate_responses responses = (case responses of Inl async \<Rightarrow> async | Inr sync \<Rightarrow> sync)"

datatype ('t, 'g) wrapped_stream = Fresh 'g | Inside 't 'g | Finished

record ('t, 'w) scope =
  sc_enter :: "'w \<Rightarrow> 't py \<times> 'w"
  sc_leave :: "'t \<Rightarrow> 'w \<Rightarrow> 'w"

definition stream_pull ::
    "('t, 'w) scope \<Rightarrow> ('g, 'i, 'w) generator \<Rightarrow> 't \<Rightarrow> 'g \<Rightarrow> 'w
      \<Rightarrow> 'i pulled \<times> ('t, 'g) wrapped_stream \<times> 'w" where
  "stream_pull scope behavior t g w =
     (case behavior g w of
        (Item i, g1, w1) \<Rightarrow> (Item i, Inside t g1, w1)
      | (p, g1, w1) \<Rightarrow> (p, Finished, sc_leave scope t w1))"

definition wrap_stream_behavior ::
    "('t, 'w) scope \<Rightarrow> ('g, 'i, 'w) generator \<Rightarrow> (('t, 'g) wrapped_stream, 'i, 'w) generator" where
  "wrap_stream_behavior scope behavior s w =
     (case s of
        Fresh g \<Rightarrow>
          (case sc_enter scope w of
             (Inl e, w1) \<Rightarrow> (Failed e, Finished, w1)
           | (Inr t, w1) \<Rightarrow> stream_pull scope behavior t g w1)
      | Inside t g \<Rightarrow> stream_pull scope behavior t g w
      | Finished \<Rightarrow> (Exhausted, Finished, w))"

definition close_stream :: "('t, 'w) scope \<Rightarrow> ('t, 'g) wrapped_stream \<Rightarrow> 'w \<Rightarrow> 'w" where
  "close_stream scope s w = (case s of Inside t g \<Rightarrow> sc_leave scope t w | _ \<Rightarrow> w)"

text \<open>A unary behaviour in the same scope.\<close>

definition wrap_unary_behavior ::
    "('t, 'w) scope \<Rightarrow> ('w \<Rightarrow> 'r py \<times> 'w) \<Rightarrow> 'w \<Rightarrow> 'r py \<times> 'w" where
  "wrap_unary_behavior scope behavior w =
     (case sc_enter scope w of
        (Inl e, w1) \<Rightarrow> (Inl e, w1)
      | (Inr t, w1) \<Rightarrow> (let (r, w2) = behavior w1 in (r, sc_leave scope t w2)))"

text \<open>
  A consumer that pulls at most \<open>n\<close> items and then drops the stream: the items, how it ended (\<open>None\<close>
  when the consumer closed it), and the world.
\<close>

fun consume :: "('t, 'w) scope \<Rightarrow> ('g, 'i, 'w) generator \<Rightarrow> nat \<Rightarrow> ('t, 'g) wrapped_stream \<Rightarrow> 'w
    \<Rightarrow> 'i list \<times> exn option option \<times> 'w" where
  "consume scope behavior 0 s w = ([], None, close_stream scope s w)"
| "consume scope behavior (Suc n) s w =
     (case wrap_stream_behavior scope behavior s w of
        (Item i, s1, w1) \<Rightarrow>
          (let (items, ended, w2) = consume scope behavior n s1 w1 in (i # items, ended, w2))
      | (Exhausted, s1, w1) \<Rightarrow> ([], Some None, w1)
      | (Failed e, s1, w1) \<Rightarrow> ([], Some (Some e), w1))"

text \<open>The stream without a scope around it.\<close>

fun plain_consume :: "('g, 'i, 'w) generator \<Rightarrow> nat \<Rightarrow> 'g \<Rightarrow> 'w \<Rightarrow> 'i list \<times> exn option option \<times> 'w" where
  "plain_consume behavior 0 g w = ([], None, w)"
| "plain_consume behavior (Suc n) g w =
     (case behavior g w of
        (Item i, g1, w1) \<Rightarrow>
          (let (items, ended, w2) = plain_consume behavior n g1 w1 in (i # items, ended, w2))
      | (Exhausted, g1, w1) \<Rightarrow> ([], Some None, w1)
      | (Failed e, g1, w1) \<Rightarrow> ([], Some (Some e), w1))"

lemma consume_inside:
  "consume scope behavior n (Inside t g) w =
     (let (items, ended, w1) = plain_consume behavior n g w in (items, ended, sc_leave scope t w1))"
proof (induction n arbitrary: g w)
  case 0
  then show ?case by (simp add: close_stream_def)
next
  case (Suc n)
  then show ?case
    by (simp add: wrap_stream_behavior_def stream_pull_def Let_def split: pulled.split prod.split)
qed

text \<open>The request id scope as the interceptor passes it, with the metadata it sends dropped.\<close>

definition request_id_scope :: "server_context \<Rightarrow> (string, 's rpc_world) scope" where
  "request_id_scope sc =
     \<lparr> sc_enter = (\<lambda>w. case enter_request_id_scope sc w of
         (Inl e, w1) \<Rightarrow> (Inl e, w1)
       | (Inr (request_id, token, sent), w1) \<Rightarrow> (Inr token, w1)),
       sc_leave = leave_request_id_scope \<rparr>"

lemma with_request_id_unary:
  "snd (with_request_id sc behavior w) = wrap_unary_behavior (request_id_scope sc) behavior w"
  by (auto simp: with_request_id_def wrap_unary_behavior_def request_id_scope_def Let_def
      split: prod.split sum.split)

section \<open>Wrapping a method handler\<close>

text \<open>
  \<^verbatim>\<open>grpc.RpcMethodHandler\<close>: one of the four behaviours is set; the wrapper rebuilds the handler around
  the first one that is, with the same serialisers.
\<close>

record ('u, 's, 'd) rpc_method_handler =
  mh_unary_unary :: "'u option"
  mh_unary_stream :: "'s option"
  mh_stream_unary :: "'u option"
  mh_stream_stream :: "'s option"
  mh_serializers :: 'd

definition wrap_rpc_method_handler ::
    "('u \<Rightarrow> 'u) \<Rightarrow> ('s \<Rightarrow> 's) \<Rightarrow> ('u, 's, 'd) rpc_method_handler \<Rightarrow> ('u, 's, 'd) rpc_method_handler" where
  "wrap_rpc_method_handler wrap_unary wrap_stream handler =
     (let empty = handler\<lparr>mh_unary_unary := None, mh_unary_stream := None, mh_stream_unary := None,
                          mh_stream_stream := None\<rparr>
      in case mh_unary_unary handler of
           Some b \<Rightarrow> empty\<lparr>mh_unary_unary := Some (wrap_unary b)\<rparr>
         | None \<Rightarrow>
        (case mh_unary_stream handler of
           Some b \<Rightarrow> empty\<lparr>mh_unary_stream := Some (wrap_stream b)\<rparr>
         | None \<Rightarrow>
        (case mh_stream_unary handler of
           Some b \<Rightarrow> empty\<lparr>mh_stream_unary := Some (wrap_unary b)\<rparr>
         | None \<Rightarrow>
        (case mh_stream_stream handler of
           Some b \<Rightarrow> empty\<lparr>mh_stream_stream := Some (wrap_stream b)\<rparr>
         | None \<Rightarrow> handler))))"

text \<open>\<^verbatim>\<open>intercept_service\<close>: an unknown method stays unknown.\<close>

definition intercept_service ::
    "('u \<Rightarrow> 'u) \<Rightarrow> ('s \<Rightarrow> 's) \<Rightarrow> ('u, 's, 'd) rpc_method_handler option
      \<Rightarrow> ('u, 's, 'd) rpc_method_handler option" where
  "intercept_service wrap_unary wrap_stream handler =
     map_option (wrap_rpc_method_handler wrap_unary wrap_stream) handler"

section \<open>Calls in flight\<close>

text \<open>
  The counter is shared by all calls of the process. A call enters the scope once and leaves it once,
  whether its handler returned, raised or was cancelled; other calls do the same in between. A
  schedule is the order in which this happens.
\<close>

datatype call_event = Call_started nat | Call_finished nat

text \<open>The calls in flight and the counter after an event; a call that is not in flight cannot finish.\<close>

fun call_step :: "call_event \<Rightarrow> nat list \<times> int \<Rightarrow> (nat list \<times> int) option" where
  "call_step (Call_started c) (inflight, v) =
     (if c \<in> set inflight then None else Some (c # inflight, increment v))"
| "call_step (Call_finished c) (inflight, v) =
     (if c \<in> set inflight then Some (remove1 c inflight, decrement v) else None)"

fun call_run :: "call_event list \<Rightarrow> nat list \<times> int \<Rightarrow> (nat list \<times> int) option" where
  "call_run [] x = Some x"
| "call_run (e # es) x = (case call_step e x of None \<Rightarrow> None | Some y \<Rightarrow> call_run es y)"

lemma call_step_counts:
  "call_step e (inflight, v) = Some (inflight', v') \<Longrightarrow> v = int (length inflight) \<Longrightarrow>
   v' = int (length inflight')"
  by (cases e) (auto simp: increment_def decrement_def length_remove1 split: if_splits
      dest: length_pos_if_in_set)

lemma call_run_counts:
  "call_run es (inflight, v) = Some (inflight', v') \<Longrightarrow> v = int (length inflight) \<Longrightarrow>
   v' = int (length inflight')"
proof (induction es arbitrary: inflight v)
  case (Cons e es)
  then obtain i1 v1 where s: "call_step e (inflight, v) = Some (i1, v1)"
    and r: "call_run es (i1, v1) = Some (inflight', v')"
    by (auto split: option.splits)
  from Cons.IH [OF r call_step_counts [OF s Cons.prems(2)]] show ?case .
qed simp

lemma enter_scope_id:
  assumes "enter_request_id_scope sc w = (Inr (i, token, sent), w1)"
  shows "rw_request_id w1 = i" "token = rw_request_id w" "rw_app w1 = rw_app w"
    "rw_code w1 = rw_code w" "rw_details w1 = rw_details w"
    "sent = None \<or> sent = Some [(REQUEST_ID_HEADER, i)]"
    "\<exists>m. sc_metadata sc = Inr m \<and>
      (case request_id_loop (case m of None \<Rightarrow> [] | Some kvs \<Rightarrow> kvs) of
         Some j \<Rightarrow> i = j | None \<Rightarrow> i = rw_uuid w (rw_uuid_reads w))"
  using assms
  by (auto simp: enter_request_id_scope_def get_request_id_from_metadata_def Let_def
      split: sum.splits option.splits)

section \<open>Properties\<close>

lemma single_outcome_internal:
  "single_outcome d c f answer w = (r, s, Some INTERNAL, det) \<Longrightarrow> rw_code w \<noteq> Some INTERNAL \<Longrightarrow>
   det = Some (internal_error_details (effective_request_id w))"
  by (auto simp: single_outcome_def error_outcome_def Let_def
      split: sum.splits prod.splits option.splits if_splits)


text \<open>An application whose backend fails, a call with a request id, and an idle server.\<close>

definition failing_app :: "unit cache_app" where
  "failing_app =
     \<lparr> app_get = (\<lambda>k ns s. (Inl (BackendError ''disk''), s)), app_set = (\<lambda>k v t ns s. (Inr Set_OK, s)),
       app_set_if_absent = (\<lambda>k v t ns s. (Inr Cond_STORED, s)),
       app_compare_and_set = (\<lambda>k x v t ns s. (Inr Cond_STORED, s)),
       app_delete = (\<lambda>k ns s. (Inr True, s)), app_stats = (\<lambda>s. (Inl (BackendError ''disk''), s)) \<rparr>"

definition idle_world :: "unit rpc_world" where
  "idle_world =
     \<lparr> rw_app = (), rw_request_id = ''-'', rw_uuid = (\<lambda>n. ''u'' @ dec n), rw_uuid_reads = 0,
       rw_debug_enabled = False, rw_log = [], rw_code = None, rw_details = None \<rparr>"

definition sample_server_context :: server_context where
  "sample_server_context =
     \<lparr> sc_peer = Inr ''p'', sc_metadata = Inr (Some [(''X-Request-Id'', ''r1'')]), sc_send = Inr () \<rparr>"

definition sample_intercepted ::
    "(string \<times> string) list option \<times> cache_value py \<times> unit rpc_world" where
  "sample_intercepted =
     with_request_id sample_server_context
       (\<lambda>w1. let (r, w2) = grpc_get failing_app (handler_context sample_server_context) ''k'' w1
             in (Inr r, w2)) idle_world"


text \<open>
  The counter of active requests counts the calls in flight. In every interleaving of calls that
  start and finish, starting from no calls, the counter is exactly the number of calls that have
  started and not finished; it is never negative, and its guard against going below zero never acts.
\<close>

theorem active_requests_count:
  assumes "call_run events ([], 0) = Some (inflight, v)"
  shows "v = int (length inflight) \<and> distinct inflight \<and> (v = 0 \<longleftrightarrow> inflight = [])"
proof -
  have "distinct inflight'" if "call_run es (inf, u) = Some (inflight', u')" "distinct inf" for es inf u inflight' u'
    using that
  proof (induction es arbitrary: inf u)
    case (Cons e es)
    then show ?case by (cases e) (auto split: if_splits)
  qed simp
  with call_run_counts [OF assms] assms show ?thesis by auto
qed

theorem active_requests_count_witness:
  "\<exists>inflight v. call_run [Call_started 1, Call_started 2, Call_finished 1] ([], 0) = Some (inflight, v) \<and>
     v = int (length inflight) \<and> length inflight = 1"
proof -
  have r: "call_run [Call_started 1, Call_started 2, Call_finished 1] ([], 0) = Some ([2], 1)"
    by (simp add: increment_def decrement_def)
  from active_requests_count [OF r] r show ?thesis by simp
qed

text \<open>
  C30: the interceptor is transparent for streams. A consumer that pulls any number of items and then
  drops the stream gets exactly the items and the ending of the stream without the interceptor, run
  under the request id of the call; and the request id of the task afterwards is the one before,
  whether the stream ended, raised, or was dropped between two items. A stream that is never pulled
  touches nothing.
\<close>

theorem intercepted_stream_transparent:
  assumes "enter_request_id_scope sc w = (Inr (request_id, token, sent), w1)"
  shows "consume (request_id_scope sc) behavior (Suc n) (Fresh g) w =
      (let (items, ended, w2) = plain_consume behavior (Suc n) g w1
       in (items, ended, w2\<lparr>rw_request_id := rw_request_id w\<rparr>)) \<and>
    rw_request_id w1 = request_id \<and>
    consume (request_id_scope sc) behavior 0 (Fresh g) w = ([], None, w)"
proof -
  have "consume (request_id_scope sc) behavior (Suc n) (Fresh g) w =
      consume (request_id_scope sc) behavior (Suc n) (Inside token g) w1"
    using assms by (simp add: wrap_stream_behavior_def request_id_scope_def)
  then show ?thesis
    using enter_scope_id [OF assms]
    by (simp only: consume_inside)
      (auto simp: request_id_scope_def leave_request_id_scope_def close_stream_def split: prod.split)
qed

text \<open>A stream that counts down and then fails, dropped after two items and pulled to its end.\<close>

definition countdown :: "(nat, nat, 's rpc_world) generator" where
  "countdown g w = (if g = 0 then Failed (BackendError ''empty'') else Item g, g - 1, w)"

theorem intercepted_stream_transparent_witness:
  "fst (consume (request_id_scope sample_server_context) countdown 2 (Fresh 3) idle_world) = [3, 2] \<and>
   fst (snd (consume (request_id_scope sample_server_context) countdown 4 (Fresh 3) idle_world)) =
     Some (Some (BackendError ''empty'')) \<and>
   rw_request_id (snd (snd (consume (request_id_scope sample_server_context) countdown 4 (Fresh 3) idle_world))) = ''-''"
proof -
  have "lower ''X-Request-Id'' = REQUEST_ID_HEADER" by code_simp
  then obtain i token sent w1 where e: "enter_request_id_scope sample_server_context idle_world =
      (Inr (i, token, sent), w1)"
    by (simp add: enter_request_id_scope_def sample_server_context_def get_request_id_from_metadata_def)
  have n: "2 = Suc 1" "4 = Suc (3::nat)" by simp_all
  have p: "plain_consume countdown (Suc 1) 3 w1 = ([3, 2], None, w1)"
    "plain_consume countdown (Suc 3) 3 w1 = ([3, 2, 1], Some (Some (BackendError ''empty'')), w1)"
    by (simp_all add: countdown_def numeral_eq_Suc)
  show ?thesis
    unfolding n intercepted_stream_transparent [OF e, THEN conjunct1] p by (simp add: idle_world_def)
qed

end
