(* ===== verification/HealthApp.thy ===== *)
theory HealthApp
  imports Interceptors Config
begin

text \<open>
  The HTTP application, \<^verbatim>\<open>tiny_cache/transport/http/health_app.py\<close>: the request id middleware, the five
  endpoints and the route table. A handler runs in a world that holds the application's state, the
  counter of active gRPC requests, the two clocks of the process, and the request id of its task.
  JSON documents are values; the printing of floating point numbers in the metrics text is a parameter.
\<close>

section \<open>Responses\<close>

datatype json =
    J_str string
  | J_int int
  | J_num real
  | J_list "json list"

datatype http_body =
    Json_body "(string \<times> json) list"
  | Text_body string string

record http_response =
  hr_status :: int
  hr_body :: http_body
  hr_headers :: "(string \<times> string) list"

definition SERVICE_UNAVAILABLE_MESSAGE :: string where
  "SERVICE_UNAVAILABLE_MESSAGE = ''Service unavailable''"

definition PROMETHEUS_CONTENT_TYPE :: string where
  "PROMETHEUS_CONTENT_TYPE = ''text/plain; version=0.0.4''"

definition BYTES_PER_MEGABYTE :: int where
  "BYTES_PER_MEGABYTE = 1024 * 1024"

definition json_response :: "(string \<times> json) list \<Rightarrow> int \<Rightarrow> http_response" where
  "json_response payload status = \<lparr> hr_status = status, hr_body = Json_body payload, hr_headers = [] \<rparr>"

definition service_unavailable_response :: http_response where
  "service_unavailable_response =
     json_response [(''status'', J_str ''error''), (''message'', J_str SERVICE_UNAVAILABLE_MESSAGE)] 503"

text \<open>\<^verbatim>\<open>round(x, 2)\<close>: to the nearest hundredth, halves to the even one.\<close>

definition round2 :: "real \<Rightarrow> real" where
  "round2 x =
     (let y = 100 * x; n = \<lfloor>y\<rfloor>; f = y - of_int n;
          m = (if f < 1 / 2 then n else if f > 1 / 2 then n + 1 else if even n then n else n + 1)
      in of_int m / 100)"

definition megabytes :: "int \<Rightarrow> real" where
  "megabytes value_bytes = round2 (of_int value_bytes / of_int BYTES_PER_MEGABYTE)"

definition stats_payload ::
    "cache_stats_snapshot \<Rightarrow> int \<Rightarrow> real \<Rightarrow> real \<Rightarrow> (string \<times> json) list" where
  "stats_payload stats active_requests uptime_seconds now =
     [(''size'', J_int (st_size stats)),
      (''hits'', J_int (st_hits stats)),
      (''misses'', J_int (st_misses stats)),
      (''evictions'', J_int (st_evictions stats)),
      (''lru_evictions'', J_int (st_lru_evictions stats)),
      (''expired_removals'', J_int (st_expired_removals stats)),
      (''rejected_oversize'', J_int (st_rejected_oversize stats)),
      (''rejected_capacity'', J_int (st_rejected_capacity stats)),
      (''hit_rate'', J_num (st_hit_rate stats)),
      (''memory_usage_bytes'', J_int (st_memory_usage_bytes stats)),
      (''memory_usage_mb'', J_num (megabytes (st_memory_usage_bytes stats))),
      (''max_memory_bytes'', J_int (st_max_memory_bytes stats)),
      (''max_memory_mb'', J_num (megabytes (st_max_memory_bytes stats))),
      (''max_value_bytes'', J_int (st_max_value_bytes stats)),
      (''max_items'', J_int (st_max_items stats)),
      (''uptime_seconds'', J_num (round2 uptime_seconds)),
      (''active_requests'', J_int active_requests),
      (''timestamp'', J_num now)]"

section \<open>The world of an HTTP handler\<close>

record 's http_world =
  hw_app :: 's
  hw_active_requests :: int
  hw_monotonic :: "nat \<Rightarrow> real"
  hw_monotonic_reads :: nat
  hw_time :: "nat \<Rightarrow> real"
  hw_time_reads :: nat
  hw_request_id :: string
  hw_uuid :: "nat \<Rightarrow> string"
  hw_uuid_reads :: nat
  hw_log :: "string list"

definition read_monotonic :: "'s http_world \<Rightarrow> real \<times> 's http_world" where
  "read_monotonic w =
     (hw_monotonic w (hw_monotonic_reads w), w\<lparr>hw_monotonic_reads := Suc (hw_monotonic_reads w)\<rparr>)"

definition read_time :: "'s http_world \<Rightarrow> real \<times> 's http_world" where
  "read_time w = (hw_time w (hw_time_reads w), w\<lparr>hw_time_reads := Suc (hw_time_reads w)\<rparr>)"

text \<open>\<^verbatim>\<open>asyncio.to_thread(self._app.stats)\<close>.\<close>

definition call_stats ::
    "('s \<Rightarrow> cache_stats_snapshot py \<times> 's) \<Rightarrow> 's http_world \<Rightarrow> cache_stats_snapshot py \<times> 's http_world" where
  "call_stats stats w = (let (r, s) = stats (hw_app w) in (r, w\<lparr>hw_app := s\<rparr>))"

text \<open>The body of a handler's \<^verbatim>\<open>try\<close>, and its \<^verbatim>\<open>except Exception\<close> clause.\<close>

definition guarded ::
    "string \<Rightarrow> http_response \<Rightarrow> http_response py \<times> 's http_world \<Rightarrow> http_response \<times> 's http_world" where
  "guarded message fallback x =
     (case x of (Inr response, w) \<Rightarrow> (response, w)
      | (Inl e, w) \<Rightarrow> (fallback, w\<lparr>hw_log := hw_log w @ [message]\<rparr>))"

section \<open>The endpoints\<close>

text \<open>\<open>start\<close> is the time the handler object was created.\<close>

definition health_check ::
    "'s cache_app \<Rightarrow> real \<Rightarrow> 's http_world \<Rightarrow> http_response \<times> 's http_world" where
  "health_check app start w =
     guarded ''Health check error'' service_unavailable_response
       (py_seq (call_stats (app_stats app) w) (\<lambda>stats w1.
          (let (mono, w2) = read_monotonic w1; uptime = mono - start; (now, w3) = read_time w2
           in (Inr (json_response
                 [(''status'', J_str ''healthy''), (''uptime_seconds'', J_num (round2 uptime)),
                  (''cache_size'', J_int (st_size stats)), (''cache_hits'', J_int (st_hits stats)),
                  (''cache_misses'', J_int (st_misses stats)),
                  (''active_requests'', J_int (hw_active_requests w2)), (''timestamp'', J_num now)] 200), w3))))"

definition readiness_check ::
    "'s cache_app \<Rightarrow> real \<Rightarrow> 's http_world \<Rightarrow> http_response \<times> 's http_world" where
  "readiness_check app start w = health_check app start w"

definition liveness_check :: "real \<Rightarrow> 's http_world \<Rightarrow> http_response \<times> 's http_world" where
  "liveness_check start w =
     (let (mono, w1) = read_monotonic w; uptime = mono - start; (now, w2) = read_time w1
      in (json_response
            [(''status'', J_str ''alive''), (''uptime_seconds'', J_num (round2 uptime)),
             (''timestamp'', J_num now)] 200, w2))"

definition item_saturation_ratio :: "cache_stats_snapshot \<Rightarrow> real" where
  "item_saturation_ratio stats =
     (if st_max_items stats > 0 then of_int (st_size stats) / of_int (st_max_items stats) else 0)"

definition memory_saturation_ratio :: "cache_stats_snapshot \<Rightarrow> real" where
  "memory_saturation_ratio stats =
     (if st_max_memory_bytes stats > 0
      then of_int (st_memory_usage_bytes stats) / of_int (st_max_memory_bytes stats) else 0)"

definition metrics_lines :: "(real \<Rightarrow> string) \<Rightarrow> cache_stats_snapshot \<Rightarrow> int \<Rightarrow> real \<Rightarrow> string list" where
  "metrics_lines float_str stats active uptime =
     [''# HELP tiny_cache_hits_total Total cache hits'',
      ''# TYPE tiny_cache_hits_total counter'',
      ''tiny_cache_hits_total '' @ dec_int (st_hits stats),
      ''# HELP tiny_cache_misses_total Total cache misses'',
      ''# TYPE tiny_cache_misses_total counter'',
      ''tiny_cache_misses_total '' @ dec_int (st_misses stats),
      ''# HELP tiny_cache_evictions_total Total cache evictions'',
      ''# TYPE tiny_cache_evictions_total counter'',
      ''tiny_cache_evictions_total '' @ dec_int (st_evictions stats),
      ''# HELP tiny_cache_lru_evictions_total Total LRU evictions'',
      ''# TYPE tiny_cache_lru_evictions_total counter'',
      ''tiny_cache_lru_evictions_total '' @ dec_int (st_lru_evictions stats),
      ''# HELP tiny_cache_expired_removals_total Total expired entries removed'',
      ''# TYPE tiny_cache_expired_removals_total counter'',
      ''tiny_cache_expired_removals_total '' @ dec_int (st_expired_removals stats),
      ''# HELP tiny_cache_rejected_oversize_total Total write rejections due to oversized values'',
      ''# TYPE tiny_cache_rejected_oversize_total counter'',
      ''tiny_cache_rejected_oversize_total '' @ dec_int (st_rejected_oversize stats),
      ''# HELP tiny_cache_rejected_capacity_total Total write rejections due to exhausted capacity'',
      ''# TYPE tiny_cache_rejected_capacity_total counter'',
      ''tiny_cache_rejected_capacity_total '' @ dec_int (st_rejected_capacity stats),
      ''# HELP tiny_cache_entries Current number of entries'',
      ''# TYPE tiny_cache_entries gauge'',
      ''tiny_cache_entries '' @ dec_int (st_size stats),
      ''# HELP tiny_cache_memory_usage_bytes Current memory usage in bytes (best-effort)'',
      ''# TYPE tiny_cache_memory_usage_bytes gauge'',
      ''tiny_cache_memory_usage_bytes '' @ dec_int (st_memory_usage_bytes stats),
      ''# HELP tiny_cache_capacity_max_items Configured cache item capacity'',
      ''# TYPE tiny_cache_capacity_max_items gauge'',
      ''tiny_cache_capacity_max_items '' @ dec_int (st_max_items stats),
      ''# HELP tiny_cache_capacity_max_memory_bytes Configured cache memory capacity in bytes'',
      ''# TYPE tiny_cache_capacity_max_memory_bytes gauge'',
      ''tiny_cache_capacity_max_memory_bytes '' @ dec_int (st_max_memory_bytes stats),
      ''# HELP tiny_cache_capacity_max_value_bytes Configured maximum value size in bytes'',
      ''# TYPE tiny_cache_capacity_max_value_bytes gauge'',
      ''tiny_cache_capacity_max_value_bytes '' @ dec_int (st_max_value_bytes stats),
      ''# HELP tiny_cache_capacity_item_saturation_ratio Entry count divided by max_items'',
      ''# TYPE tiny_cache_capacity_item_saturation_ratio gauge'',
      ''tiny_cache_capacity_item_saturation_ratio '' @ float_str (item_saturation_ratio stats),
      ''# HELP tiny_cache_capacity_memory_saturation_ratio Memory usage divided by max_memory_bytes'',
      ''# TYPE tiny_cache_capacity_memory_saturation_ratio gauge'',
      ''tiny_cache_capacity_memory_saturation_ratio '' @ float_str (memory_saturation_ratio stats),
      ''# HELP tiny_cache_active_requests Current in-flight gRPC requests'',
      ''# TYPE tiny_cache_active_requests gauge'',
      ''tiny_cache_active_requests '' @ dec_int active,
      ''# HELP tiny_cache_uptime_seconds Process uptime in seconds'',
      ''# TYPE tiny_cache_uptime_seconds gauge'',
      ''tiny_cache_uptime_seconds '' @ float_str uptime,
      []]"

definition metrics ::
    "(real \<Rightarrow> string) \<Rightarrow> 's cache_app \<Rightarrow> real \<Rightarrow> 's http_world
      \<Rightarrow> http_response \<times> 's http_world" where
  "metrics float_str app start w =
     guarded ''Metrics error''
       \<lparr> hr_status = 503, hr_body = Text_body [] PROMETHEUS_CONTENT_TYPE, hr_headers = [] \<rparr>
       (py_seq (call_stats (app_stats app) w) (\<lambda>stats w1.
          (let (mono, w2) = read_monotonic w1; uptime = mono - start
           in (Inr \<lparr> hr_status = 200,
                     hr_body = Text_body
                       (join [char_of (10::nat)] (metrics_lines float_str stats (hw_active_requests w2) uptime))
                       PROMETHEUS_CONTENT_TYPE,
                     hr_headers = [] \<rparr>, w2))))"

definition stats_endpoint ::
    "'s cache_app \<Rightarrow> real \<Rightarrow> 's http_world \<Rightarrow> http_response \<times> 's http_world" where
  "stats_endpoint app start w =
     guarded ''Stats error'' service_unavailable_response
       (py_seq (call_stats (app_stats app) w) (\<lambda>stats w1.
          (let (mono, w2) = read_monotonic w1; uptime = mono - start; (now, w3) = read_time w2
           in (Inr (json_response (stats_payload stats (hw_active_requests w2) uptime now) 200), w3))))"

definition root_handler :: "int \<Rightarrow> 's http_world \<Rightarrow> http_response \<times> 's http_world" where
  "root_handler grpc_port w =
     (json_response
        [(''service'', J_str ''tiny-cache''),
         (''endpoints'', J_list (map J_str [''/health'', ''/ready'', ''/live'', ''/metrics'', ''/stats''])),
         (''grpc_port'', J_int grpc_port)] 200, w)"

section \<open>The middleware and the routes\<close>

text \<open>
  \<^verbatim>\<open>request.headers.get\<close> compares header names without case. A handler that raises leaves the
  variable reset and no response to put the header on.
\<close>

definition header_value :: "string \<Rightarrow> (string \<times> string) list \<Rightarrow> string option" where
  "header_value name headers = map_option snd (find (\<lambda>(k, _). lower k = name) headers)"

definition request_id_middleware ::
    "('s http_world \<Rightarrow> http_response py \<times> 's http_world) \<Rightarrow> (string \<times> string) list \<Rightarrow> 's http_world
      \<Rightarrow> http_response py \<times> 's http_world" where
  "request_id_middleware handler headers w =
     (let (request_id, w1) =
            (case header_value ''x-request-id'' headers of
               Some (c # cs) \<Rightarrow> (c # cs, w)
             | _ \<Rightarrow> (hw_uuid w (hw_uuid_reads w), w\<lparr>hw_uuid_reads := Suc (hw_uuid_reads w)\<rparr>));
          token = hw_request_id w1;
          (r, w2) = handler (w1\<lparr>hw_request_id := request_id\<rparr>);
          w3 = w2\<lparr>hw_request_id := token\<rparr>
      in (case r of
            Inl e \<Rightarrow> (Inl e, w3)
          | Inr response \<Rightarrow>
              (Inr (response\<lparr>hr_headers := hr_headers response @ [(''x-request-id'', request_id)]\<rparr>), w3)))"

text \<open>The handler of each path; the router answers every other path itself.\<close>

definition health_routes ::
    "(real \<Rightarrow> string) \<Rightarrow> 's cache_app \<Rightarrow> real \<Rightarrow> int
      \<Rightarrow> (string \<times> ('s http_world \<Rightarrow> http_response \<times> 's http_world)) list" where
  "health_routes float_str app start grpc_port =
     [(''/health'', health_check app start),
      (''/ready'', readiness_check app start),
      (''/live'', liveness_check start),
      (''/metrics'', metrics float_str app start),
      (''/stats'', stats_endpoint app start),
      (''/'', root_handler grpc_port)]"

definition routed ::
    "('s http_world \<Rightarrow> http_response \<times> 's http_world) \<Rightarrow> 's http_world
      \<Rightarrow> http_response py \<times> 's http_world" where
  "routed handler w = map_prod Inr id (handler w)"

section \<open>Properties\<close>

text \<open>An endpoint that asks the cache for its statistics.\<close>

definition answers ::
    "'s cache_app \<Rightarrow> http_response \<Rightarrow> 's http_world \<Rightarrow> http_response \<times> 's http_world \<Rightarrow> bool" where
  "answers app fallback w x \<longleftrightarrow>
     hr_headers (fst x) = [] \<and> hw_request_id (snd x) = hw_request_id w \<and>
     hw_app (snd x) = snd (app_stats app (hw_app w)) \<and>
     (case fst (app_stats app (hw_app w)) of
        Inl _ \<Rightarrow> fst x = fallback
      | Inr _ \<Rightarrow> hr_status (fst x) = 200)"

lemma guarded_answers:
  assumes "hr_headers fallback = []"
    and "\<And>st w1. hr_headers (f st w1) = [] \<and> hr_status (f st w1) = 200"
    and "\<And>st w1. hw_request_id (g st w1) = hw_request_id w1 \<and> hw_app (g st w1) = hw_app w1"
  shows "answers app fallback w (guarded message fallback
    (py_seq (call_stats (app_stats app) w) (\<lambda>st w1. (Inr (f st w1), g st w1))))"
  using assms
  by (cases "app_stats app (hw_app w)"; cases "fst (app_stats app (hw_app w))")
    (simp_all add: answers_def guarded_def call_stats_def)

lemma health_check_answers: "answers app service_unavailable_response w (health_check app start w)"
  unfolding health_check_def read_monotonic_def read_time_def Let_def prod.case
  by (rule guarded_answers) (simp_all add: service_unavailable_response_def json_response_def)

lemma stats_endpoint_answers: "answers app service_unavailable_response w (stats_endpoint app start w)"
  unfolding stats_endpoint_def read_monotonic_def read_time_def Let_def prod.case
  by (rule guarded_answers) (simp_all add: service_unavailable_response_def json_response_def)

lemma metrics_answers:
  "answers app \<lparr> hr_status = 503, hr_body = Text_body [] PROMETHEUS_CONTENT_TYPE, hr_headers = [] \<rparr> w
     (metrics float_str app start w)"
  unfolding metrics_def read_monotonic_def Let_def prod.case
  by (rule guarded_answers) simp_all

lemma static_answers:
  "hr_status (fst (liveness_check start w)) = 200" "hr_headers (fst (liveness_check start w)) = []"
  "hw_app (snd (liveness_check start w)) = hw_app w"
  "hw_request_id (snd (liveness_check start w)) = hw_request_id w"
  "hr_status (fst (root_handler port w)) = 200" "hr_headers (fst (root_handler port w)) = []"
  "snd (root_handler port w) = w"
  by (simp_all add: liveness_check_def root_handler_def read_monotonic_def read_time_def Let_def
      json_response_def)

lemma middleware_eq:
  assumes "hr_headers (fst (handler w1)) = []" "hw_request_id (snd (handler w1)) = hw_request_id w1"
    and "w1 = w\<lparr>hw_uuid_reads := n, hw_request_id := i\<rparr>"
    and "(i, n) = (case header_value ''x-request-id'' headers of
          Some (c # cs) \<Rightarrow> (c # cs, hw_uuid_reads w)
        | _ \<Rightarrow> (hw_uuid w (hw_uuid_reads w), Suc (hw_uuid_reads w)))"
  shows "request_id_middleware (routed handler) headers w =
    (Inr ((fst (handler w1))\<lparr>hr_headers := [(''x-request-id'', i)]\<rparr>),
     (snd (handler w1))\<lparr>hw_request_id := hw_request_id w\<rparr>)"
proof -
  have "(case header_value ''x-request-id'' headers of
               Some (c # cs) \<Rightarrow> (c # cs, w)
             | _ \<Rightarrow> (hw_uuid w (hw_uuid_reads w), w\<lparr>hw_uuid_reads := Suc (hw_uuid_reads w)\<rparr>)) =
      (i, w\<lparr>hw_uuid_reads := n\<rparr>)"
    using assms(4)
    by (cases "header_value ''x-request-id'' headers"; cases "the (header_value ''x-request-id'' headers)") simp_all
  with assms(1-3) show ?thesis
    by (cases "handler w1") (simp add: request_id_middleware_def routed_def)
qed

text \<open>The id a request is answered under.\<close>

definition answering_id :: "(string \<times> string) list \<Rightarrow> 's http_world \<Rightarrow> string" where
  "answering_id headers w =
     (case header_value ''x-request-id'' headers of
        Some (c # cs) \<Rightarrow> c # cs | _ \<Rightarrow> hw_uuid w (hw_uuid_reads w))"

text \<open>
  C27: what a probe sees. Every request to one of the routes is answered, never with an exception: \<^verbatim>\<open>/\<close> and
  \<^verbatim>\<open>/live\<close> always with 200 and without touching the cache, the others with 200 when the cache answers and
  with 503 when it does not, in a body that is the same for every failure. The response carries the
  request id of the request, or a fresh one, and the task's request id is restored.
\<close>

theorem health_app_answers:
  assumes "(path, handler) \<in> set (health_routes float_str app start grpc_port)"
    and "request_id_middleware (routed handler) headers w = (r, w')"
  shows "\<exists>response. r = Inr response \<and>
    hr_headers response = [(''x-request-id'', answering_id headers w)] \<and>
    hw_request_id w' = hw_request_id w \<and>
    (if path \<in> {''/'', ''/live''} then hr_status response = 200 \<and> hw_app w' = hw_app w
     else hw_app w' = snd (app_stats app (hw_app w)) \<and>
       (case fst (app_stats app (hw_app w)) of
          Inr _ \<Rightarrow> hr_status response = 200
        | Inl _ \<Rightarrow> hr_status response = 503 \<and> hr_body response =
            (if path = ''/metrics'' then Text_body [] PROMETHEUS_CONTENT_TYPE
             else Json_body [(''status'', J_str ''error''), (''message'', J_str ''Service unavailable'')])))"
proof -
  define n where "n = (case header_value ''x-request-id'' headers of
      Some (c # cs) \<Rightarrow> hw_uuid_reads w | _ \<Rightarrow> Suc (hw_uuid_reads w))"
  define w1 where "w1 = w\<lparr>hw_uuid_reads := n, hw_request_id := answering_id headers w\<rparr>"
  have i: "(answering_id headers w, n) = (case header_value ''x-request-id'' headers of
          Some (c # cs) \<Rightarrow> (c # cs, hw_uuid_reads w)
        | _ \<Rightarrow> (hw_uuid w (hw_uuid_reads w), Suc (hw_uuid_reads w)))"
    by (simp add: answering_id_def n_def split: option.split list.split)
  have app: "hw_app w1 = hw_app w" by (simp add: w1_def)
  have mw: "r = Inr ((fst (handler w1))\<lparr>hr_headers := [(''x-request-id'', answering_id headers w)]\<rparr>) \<and>
      w' = (snd (handler w1))\<lparr>hw_request_id := hw_request_id w\<rparr>"
    if "hr_headers (fst (handler w1)) = []" "hw_request_id (snd (handler w1)) = hw_request_id w1"
    using middleware_eq [of handler w1, OF that w1_def i] assms(2) by simp
  have stats: ?thesis if "answers app fallback w1 (handler w1)" "path \<notin> {''/'', ''/live''}"
    and "hr_status fallback = 503" "hr_body fallback =
            (if path = ''/metrics'' then Text_body [] PROMETHEUS_CONTENT_TYPE
             else Json_body [(''status'', J_str ''error''), (''message'', J_str ''Service unavailable'')])" for fallback
    using that mw app by (auto simp: answers_def split: sum.splits)
  have static: ?thesis if "path \<in> {''/'', ''/live''}" "hr_status (fst (handler w1)) = 200"
    "hr_headers (fst (handler w1)) = []" "hw_app (snd (handler w1)) = hw_app w1"
    "hw_request_id (snd (handler w1)) = hw_request_id w1"
    using that mw app by auto
  have sur: "hr_status service_unavailable_response = 503"
    "hr_body service_unavailable_response =
       Json_body [(''status'', J_str ''error''), (''message'', J_str ''Service unavailable'')]"
    by (simp_all add: service_unavailable_response_def json_response_def SERVICE_UNAVAILABLE_MESSAGE_def)
  from assms(1) consider
      "path = ''/health''" "handler = health_check app start"
    | "path = ''/ready''" "handler = readiness_check app start"
    | "path = ''/live''" "handler = liveness_check start"
    | "path = ''/metrics''" "handler = metrics float_str app start"
    | "path = ''/stats''" "handler = stats_endpoint app start"
    | "path = ''/''" "handler = root_handler grpc_port"
    unfolding health_routes_def list.set insert_iff empty_iff prod.inject
    by (elim disjE conjE FalseE) (rule that; assumption)+
  then show ?thesis
  proof cases
    case 1
    then show ?thesis using health_check_answers sur by (intro stats) simp_all
  next
    case 2
    then show ?thesis using health_check_answers sur
      by (intro stats) (simp_all add: readiness_check_def fun_eq_iff)
  next
    case 3
    then show ?thesis by (intro static) (simp_all add: static_answers)
  next
    case 4
    then show ?thesis
      using metrics_answers
      by (intro stats [of "\<lparr> hr_status = 503, hr_body = Text_body [] PROMETHEUS_CONTENT_TYPE, hr_headers = [] \<rparr>"])
        simp_all
  next
    case 5
    then show ?thesis using stats_endpoint_answers sur by (intro stats) simp_all
  next
    case 6
    then show ?thesis by (intro static) (simp_all add: static_answers)
  qed
qed

definition sample_http_world :: "unit http_world" where
  "sample_http_world =
     \<lparr> hw_app = (), hw_active_requests = 0, hw_monotonic = real, hw_monotonic_reads = 0, hw_time = real,
       hw_time_reads = 0, hw_request_id = ''-'', hw_uuid = (\<lambda>n. ''u'' @ dec n), hw_uuid_reads = 0,
       hw_log = [] \<rparr>"

theorem health_app_answers_witness:
  "\<exists>response w'. request_id_middleware (routed (stats_endpoint failing_app 0)) [(''X-Request-Id'', ''r7'')]
       sample_http_world = (Inr response, w') \<and>
     hr_status response = 503 \<and> hr_headers response = [(''x-request-id'', ''r7'')]"
proof -
  let ?app = "failing_app"
  obtain r w' where m: "request_id_middleware (routed (stats_endpoint ?app 0)) [(''X-Request-Id'', ''r7'')]
      sample_http_world = (r, w')" by fastforce
  have route: "(''/stats'', stats_endpoint ?app 0) \<in> set (health_routes (\<lambda>_. []) ?app 0 50051)"
    by (simp add: health_routes_def)
  have "answering_id [(''X-Request-Id'', ''r7'')] sample_http_world = ''r7''" by code_simp
  with health_app_answers [OF route m] have "hr_status (projr r) = 503" "\<exists>response. r = Inr response"
    "hr_headers (projr r) = [(''x-request-id'', ''r7'')]"
    by (auto simp: failing_app_def)
  with m show ?thesis by auto
qed

end
