(* ===== verification/Cli.thy ===== *)
theory Cli
  imports Codecs GrpcProps HealthApp
begin

text \<open>
  The command line client, \<^verbatim>\<open>tiny_cache/cli.py\<close>, from the parsed arguments on: the checks of the value
  arguments, the encodings, the metadata, and \<^verbatim>\<open>run\<close> with its exit codes. The stub of the generated
  code is a record of calls on the state of the server; the standard streams and the files written are
  lists. \<open>cli_args\<close> is the namespace the argument parser returns, which the theory \<open>CliParser\<close> models, an
  argument a command does not have being \<open>None\<close>.
\<close>

section \<open>Arguments\<close>

record value_args =
  va_positional :: "string option"
  va_file :: "string option"
  va_base64 :: "string option"
  va_hex :: "string option"

record cli_args =
  ca_target :: string
  ca_timeout :: real
  ca_request_id :: "string option"
  ca_show_request_id :: bool
  ca_namespace :: "string option"
  ca_tls :: bool
  ca_tls_ca :: "string option"
  ca_command :: string
  ca_key :: string
  ca_format :: string
  ca_output :: "string option"
  ca_ttl :: int
  ca_value :: value_args
  ca_expected_value :: value_args

text \<open>The truth value of an optional string.\<close>

definition given :: "string option \<Rightarrow> bool" where
  "given x \<longleftrightarrow> x \<noteq> None \<and> x \<noteq> Some []"

text \<open>The text of a \<^verbatim>\<open>UnicodeDecodeError\<close> is a parameter.\<close>

definition encode_output :: "(bytes \<Rightarrow> string) \<Rightarrow> bytes \<Rightarrow> string \<Rightarrow> nat list py" where
  "encode_output decode_error v fmt =
     (if fmt = ''base64'' then Inr (map char_code (b64encode v))
      else if fmt = ''hex'' then Inr (map char_code (bytes_hex v))
      else if fmt = ''utf8''
      then (case utf8_decode v of None \<Rightarrow> Inl (ValueError (decode_error v)) | Some text \<Rightarrow> Inr text)
      else Inl (ValueError (''unknown format: '' @ fmt)))"

definition dashed :: "string \<Rightarrow> string" where
  "dashed s = map (\<lambda>c. if c = CHR ''_'' then CHR ''-'' else c) s"

definition parse_value_input ::
    "(string \<Rightarrow> bytes py) \<Rightarrow> value_args \<Rightarrow> string \<Rightarrow> string \<Rightarrow> bytes py" where
  "parse_value_input read_bytes args attr_prefix command =
     (if given (va_file args) then read_bytes (the (va_file args))
      else if va_base64 args \<noteq> None then b64decode_validate (the (va_base64 args))
      else if va_hex args \<noteq> None then bytes_fromhex (the (va_hex args))
      else if va_positional args \<noteq> None then Inr (utf8_encode (the (va_positional args)))
      else Inl (ValueError
        (command @ '' requires '' @ dashed attr_prefix @ '' (positional, --'' @ dashed attr_prefix @
         ''-file, --'' @ dashed attr_prefix @ ''-base64, or --'' @ dashed attr_prefix @ ''-hex)'')))"

text \<open>The message \<^verbatim>\<open>parser.error\<close> exits with, if there is one.\<close>

fun value_args_error :: "string \<Rightarrow> (value_args \<times> string) list \<Rightarrow> string option" where
  "value_args_error command [] = None"
| "value_args_error command ((args, label) # pairs) =
     (if va_positional args \<noteq> None \<and> (given (va_file args) \<or> given (va_base64 args) \<or> given (va_hex args))
      then Some (dashed command @ '': positional '' @ label @ '' cannot be combined with --'' @ label @ ''-*'')
      else value_args_error command pairs)"

definition validate_value_args :: "cli_args \<Rightarrow> string option" where
  "validate_value_args args =
     (if ca_command args \<notin> set [''set'', ''set-if-absent'', ''compare-and-set''] then None
      else value_args_error (ca_command args)
        ((if ca_command args = ''compare-and-set'' then [(ca_expected_value args, ''expected-value'')] else []) @
         [(ca_value args, ''value'')]))"

section \<open>The environment of the client\<close>

type_synonym metadata = "(string \<times> string) list"

record rpc_error =
  re_code :: string
  re_details :: string

type_synonym ('s, 'a) rpc_call = "metadata \<Rightarrow> real \<Rightarrow> 's \<Rightarrow> (rpc_error + 'a \<times> metadata) \<times> 's"

text \<open>A call gives the response with the initial metadata the server sent, or an \<^verbatim>\<open>AioRpcError\<close>.\<close>

record 's cli_stub =
  stub_get :: "string \<Rightarrow> ('s, cache_value) rpc_call"
  stub_set :: "cache_item \<Rightarrow> ('s, cache_status) rpc_call"
  stub_set_if_absent :: "cache_item \<Rightarrow> ('s, conditional_cache_status) rpc_call"
  stub_compare_and_set :: "compare_and_set_request \<Rightarrow> ('s, conditional_cache_status) rpc_call"
  stub_delete :: "string \<Rightarrow> ('s, cache_status) rpc_call"
  stub_stats :: "('s, cache_stats_msg) rpc_call"

datatype channel = Insecure_channel string | Secure_channel string "bytes option"

text \<open>
  \<open>ce_int32\<close> is the range check of the protobuf library on a ttl, \<open>ce_ready\<close> how waiting for the
  channel ends.
\<close>

record 's cli_env =
  ce_stub :: "'s cli_stub"
  ce_modules :: "unit py"
  ce_ready :: "unit py"
  ce_int32 :: "int \<Rightarrow> int py"
  ce_read_bytes :: "string \<Rightarrow> bytes py"
  ce_write_bytes :: "string \<Rightarrow> bytes \<Rightarrow> unit py"
  ce_decode_error :: "bytes \<Rightarrow> string"
  ce_uuid :: string

datatype out_line = Out_text "nat list" | Out_json "(string \<times> json) list"

record 's cli_world =
  cw_server :: 's
  cw_stdout :: "out_line list"
  cw_stderr :: "string list"
  cw_files :: "(string \<times> bytes) list"
  cw_opened :: "channel list"
  cw_closed :: nat

datatype cli_exn = Rpc_failed rpc_error | Raised_exn exn | Parser_error string

datatype cli_result = Exit_code int | Exited int | Propagated exn

type_synonym ('s, 'a) cli = "'s cli_world \<Rightarrow> (cli_exn + 'a) \<times> 's cli_world"

definition cli_call :: "('s \<Rightarrow> (rpc_error + 'a) \<times> 's) \<Rightarrow> ('s, 'a) cli" where
  "cli_call f w =
     (let (r, s) = f (cw_server w)
      in (case r of Inl e \<Rightarrow> Inl (Rpc_failed e) | Inr x \<Rightarrow> Inr x, w\<lparr>cw_server := s\<rparr>))"

definition cli_lift :: "'a py \<Rightarrow> ('s, 'a) cli" where
  "cli_lift r w = (case r of Inl e \<Rightarrow> Inl (Raised_exn e) | Inr x \<Rightarrow> Inr x, w)"

definition print_out :: "out_line \<Rightarrow> 's cli_world \<Rightarrow> 's cli_world" where
  "print_out l w = w\<lparr>cw_stdout := cw_stdout w @ [l]\<rparr>"

definition print_err :: "string \<Rightarrow> 's cli_world \<Rightarrow> 's cli_world" where
  "print_err l w = w\<lparr>cw_stderr := cw_stderr w @ [l]\<rparr>"

definition out_string :: "string \<Rightarrow> out_line" where
  "out_string s = Out_text (map char_code s)"

section \<open>Requests and responses\<close>

definition build_channel :: "(string \<Rightarrow> bytes py) \<Rightarrow> cli_args \<Rightarrow> channel py" where
  "build_channel read_bytes args =
     (if \<not> ca_tls args then Inr (Insecure_channel (ca_target args))
      else if given (ca_tls_ca args)
      then py_bind (read_bytes (the (ca_tls_ca args)))
             (\<lambda>root_certificates. Inr (Secure_channel (ca_target args) (Some root_certificates)))
      else Inr (Secure_channel (ca_target args) None))"

definition cli_metadata :: "string \<Rightarrow> string option \<Rightarrow> metadata" where
  "cli_metadata request_id namespace =
     [(REQUEST_ID_HEADER, request_id)] @
     (if given namespace then [(NAMESPACE_HEADER, the namespace)] else [])"

fun get_response_request_id :: "metadata \<Rightarrow> string option" where
  "get_response_request_id [] = None"
| "get_response_request_id ((key, v) # rest) =
     (if lower key = REQUEST_ID_HEADER \<and> v \<noteq> [] then Some v else get_response_request_id rest)"

definition emit_response_request_id :: "cli_args \<Rightarrow> metadata \<Rightarrow> 's cli_world \<Rightarrow> 's cli_world" where
  "emit_response_request_id args initial_metadata w =
     (case get_response_request_id initial_metadata of
        Some i \<Rightarrow>
          if ca_show_request_id args then print_err (REQUEST_ID_HEADER @ ''='' @ i) w else w
      | None \<Rightarrow> w)"

definition conditional_exit_code :: "conditional_cache_status \<Rightarrow> int" where
  "conditional_exit_code status = (if status = PB_STORED then 0 else 1)"

fun conditional_status_name :: "conditional_cache_status \<Rightarrow> string" where
  "conditional_status_name CONDITIONAL_CACHE_STATUS_UNSPECIFIED = ''CONDITIONAL_CACHE_STATUS_UNSPECIFIED''"
| "conditional_status_name PB_STORED = ''STORED''"
| "conditional_status_name PB_EXISTS = ''EXISTS''"
| "conditional_status_name PB_NOT_FOUND = ''NOT_FOUND''"
| "conditional_status_name PB_MISMATCH = ''MISMATCH''"

section \<open>Commands\<close>

definition run_get :: "'s cli_env \<Rightarrow> cli_args \<Rightarrow> metadata \<Rightarrow> ('s, int) cli" where
  "run_get env args md w =
     py_seq (cli_call (stub_get (ce_stub env) (ca_key args) md (ca_timeout args)) w) (\<lambda>(response, initial) w1.
       (let w2 = emit_response_request_id args initial w1
        in if \<not> cv_found response then (Inr 1, w2)
           else if given (ca_output args)
           then py_seq (cli_lift (ce_write_bytes env (the (ca_output args)) (cv_value response)) w2) (\<lambda>_ w3.
                  (Inr 0, w3\<lparr>cw_files := cw_files w3 @ [(the (ca_output args), cv_value response)]\<rparr>))
           else py_seq (cli_lift (encode_output (ce_decode_error env) (cv_value response) (ca_format args)) w2)
                  (\<lambda>text w3. (Inr 0, print_out (Out_text text) w3))))"

text \<open>What \<^verbatim>\<open>set\<close> and \<^verbatim>\<open>delete\<close> do with the status, and the conditional writes with theirs.\<close>

definition finish_plain ::
    "cli_args \<Rightarrow> cache_status \<times> metadata \<Rightarrow> ('s, int) cli" where
  "finish_plain args x w =
     (let w1 = emit_response_request_id args (snd x) w
      in if fst x \<noteq> PB_OK then (Inr 2, print_err ''ERROR'' w1) else (Inr 0, print_out (out_string ''OK'') w1))"

definition finish_conditional_write ::
    "cli_args \<Rightarrow> conditional_cache_status \<times> metadata \<Rightarrow> ('s, int) cli" where
  "finish_conditional_write args x w =
     (let w1 = emit_response_request_id args (snd x) w
      in (Inr (conditional_exit_code (fst x)),
          print_out (out_string (conditional_status_name (fst x))) w1))"

definition run_set :: "'s cli_env \<Rightarrow> cli_args \<Rightarrow> metadata \<Rightarrow> ('s, int) cli" where
  "run_set env args md w =
     py_seq (cli_lift (parse_value_input (ce_read_bytes env) (ca_value args) ''value'' ''set'') w) (\<lambda>v w1.
     py_seq (cli_lift (ce_int32 env (ca_ttl args)) w1) (\<lambda>ttl w2.
     py_seq (cli_call (stub_set (ce_stub env) \<lparr> it_key = ca_key args, it_value = v, it_ttl = ttl \<rparr>
               md (ca_timeout args)) w2) (finish_plain args)))"

definition run_set_if_absent :: "'s cli_env \<Rightarrow> cli_args \<Rightarrow> metadata \<Rightarrow> ('s, int) cli" where
  "run_set_if_absent env args md w =
     py_seq (cli_lift (parse_value_input (ce_read_bytes env) (ca_value args) ''value'' ''set-if-absent'') w)
       (\<lambda>v w1.
     py_seq (cli_lift (ce_int32 env (ca_ttl args)) w1) (\<lambda>ttl w2.
     py_seq (cli_call (stub_set_if_absent (ce_stub env)
               \<lparr> it_key = ca_key args, it_value = v, it_ttl = ttl \<rparr> md (ca_timeout args)) w2)
       (finish_conditional_write args)))"

definition run_compare_and_set :: "'s cli_env \<Rightarrow> cli_args \<Rightarrow> metadata \<Rightarrow> ('s, int) cli" where
  "run_compare_and_set env args md w =
     py_seq (cli_lift (parse_value_input (ce_read_bytes env) (ca_expected_value args) ''expected_value''
               ''compare-and-set'') w) (\<lambda>expected w1.
     py_seq (cli_lift (parse_value_input (ce_read_bytes env) (ca_value args) ''value'' ''compare-and-set'') w1)
       (\<lambda>v w2.
     py_seq (cli_lift (ce_int32 env (ca_ttl args)) w2) (\<lambda>ttl w3.
     py_seq (cli_call (stub_compare_and_set (ce_stub env)
               \<lparr> cr_key = ca_key args, cr_expected_value = expected, cr_value = v, cr_ttl = ttl \<rparr>
               md (ca_timeout args)) w3)
       (finish_conditional_write args))))"

definition run_delete :: "'s cli_env \<Rightarrow> cli_args \<Rightarrow> metadata \<Rightarrow> ('s, int) cli" where
  "run_delete env args md w =
     py_seq (cli_call (stub_delete (ce_stub env) (ca_key args) md (ca_timeout args)) w) (finish_plain args)"

definition run_stats :: "'s cli_env \<Rightarrow> cli_args \<Rightarrow> metadata \<Rightarrow> ('s, int) cli" where
  "run_stats env args md w =
     py_seq (cli_call (stub_stats (ce_stub env) md (ca_timeout args)) w) (\<lambda>(response, initial) w1.
       (Inr 0,
        print_out (Out_json
          [(''size'', J_int (sg_size response)), (''hits'', J_int (sg_hits response)),
           (''misses'', J_int (sg_misses response)), (''evictions'', J_int (sg_evictions response)),
           (''hit_rate'', J_num (sg_hit_rate response)),
           (''memory_usage_bytes'', J_int (sg_memory_usage_bytes response)),
           (''max_memory_bytes'', J_int (sg_max_memory_bytes response)),
           (''max_items'', J_int (sg_max_items response))])
          (emit_response_request_id args initial w1)))"

definition run_command :: "'s cli_env \<Rightarrow> cli_args \<Rightarrow> metadata \<Rightarrow> ('s, int) cli" where
  "run_command env args md w =
     (if ca_command args = ''get'' then run_get env args md w
      else if ca_command args = ''set'' then run_set env args md w
      else if ca_command args = ''set-if-absent'' then run_set_if_absent env args md w
      else if ca_command args = ''compare-and-set'' then run_compare_and_set env args md w
      else if ca_command args = ''delete'' then run_delete env args md w
      else if ca_command args = ''stats'' then run_stats env args md w
      else (Inl (Parser_error (''unknown command: '' @ ca_command args)), w))"

section \<open>Running\<close>

text \<open>
  The two \<^verbatim>\<open>except\<close> clauses and the \<^verbatim>\<open>finally\<close> that closes the channel; \<^verbatim>\<open>parser.error\<close> exits with
  code 2.
\<close>

definition cli_finish :: "(cli_exn + int) \<times> 's cli_world \<Rightarrow> cli_result \<times> 's cli_world" where
  "cli_finish x =
     (let (r, w) = x;
          (result, w1) =
            (case r of
               Inr code \<Rightarrow> (Exit_code code, w)
             | Inl (Rpc_failed e) \<Rightarrow>
                 (Exit_code 2, print_err (''rpc failed: '' @ re_code e @ '': '' @ re_details e) w)
             | Inl (Raised_exn e) \<Rightarrow> (Exit_code 2, print_err (''error: '' @ exn_message e) w)
             | Inl (Parser_error m) \<Rightarrow> (Exited 2, print_err m w))
      in (result, w1\<lparr>cw_closed := Suc (cw_closed w1)\<rparr>))"

definition run :: "'s cli_env \<Rightarrow> cli_args \<Rightarrow> 's cli_world \<Rightarrow> cli_result \<times> 's cli_world" where
  "run env args w =
     (case validate_value_args args of
        Some message \<Rightarrow> (Exited 2, print_err message w)
      | None \<Rightarrow>
          (let request_id = (if given (ca_request_id args) then the (ca_request_id args) else ce_uuid env)
           in (case py_bind (ce_modules env) (\<lambda>_. build_channel (ce_read_bytes env) args) of
                 Inl e \<Rightarrow> (Propagated e, w)
               | Inr channel \<Rightarrow>
                   (let w1 = w\<lparr>cw_opened := cw_opened w @ [channel]\<rparr>
                    in cli_finish
                         (py_seq (cli_lift (ce_ready env) w1) (\<lambda>_ w2.
                            run_command env args (cli_metadata request_id (ca_namespace args)) w2))))))"

text \<open>The exit status of the process: an exception that propagates gives 1.\<close>

definition cli_exit_status :: "cli_result \<Rightarrow> int" where
  "cli_exit_status r = (case r of Exit_code c \<Rightarrow> c | Exited c \<Rightarrow> c | Propagated e \<Rightarrow> 1)"

end
