(* ===== verification/CliParser.thy ===== *)
theory CliParser
  imports Cli
begin

text \<open>
  The options of the client, \<^verbatim>\<open>_build_parser\<close> of \<^verbatim>\<open>tiny_cache/cli.py\<close>, as data, and what \<^verbatim>\<open>argparse\<close> does
  with the options it recognises: conversion, choices, exclusive groups, defaults and required
  arguments. A command line is given with its options already told from its positional arguments, each
  option under its full name; how \<^verbatim>\<open>argparse\<close> splits the words and completes abbreviations differs
  between the versions of Python the client supports and is left out.
\<close>

section \<open>Parsers\<close>

datatype arg_value = AV_none | AV_str string | AV_int int | AV_num real | AV_flag bool

datatype arg_type = T_str | T_int | T_float

datatype option_action = Store arg_type "string list" | Store_true

text \<open>An option, with the choices of its value if they are restricted, and its exclusive group.\<close>

record arg_option =
  ao_flag :: string
  ao_action :: option_action
  ao_default :: arg_value
  ao_group :: "string option"

text \<open>A positional argument is required or has \<^verbatim>\<open>nargs="?"\<close>.\<close>

record arg_parser =
  ap_options :: "arg_option list"
  ap_positionals :: "(string \<times> bool) list"

definition str_option :: "string \<Rightarrow> arg_option" where
  "str_option flag =
     \<lparr> ao_flag = flag, ao_action = Store T_str [], ao_default = AV_none, ao_group = None \<rparr>"

definition true_option :: "string \<Rightarrow> arg_option" where
  "true_option flag =
     \<lparr> ao_flag = flag, ao_action = Store_true, ao_default = AV_flag False, ao_group = None \<rparr>"

definition add_value_input_args :: "string \<Rightarrow> string \<Rightarrow> arg_parser \<Rightarrow> arg_parser" where
  "add_value_input_args positional_name option_prefix p =
     p\<lparr>ap_positionals := ap_positionals p @ [(positional_name, False)],
       ap_options := ap_options p @
         [(str_option (''--'' @ option_prefix @ ''-base64''))\<lparr>ao_group := Some option_prefix\<rparr>,
          (str_option (''--'' @ option_prefix @ ''-hex''))\<lparr>ao_group := Some option_prefix\<rparr>,
          (str_option (''--'' @ option_prefix @ ''-file''))\<lparr>ao_group := Some option_prefix\<rparr>]\<rparr>"

definition key_parser :: arg_parser where
  "key_parser = \<lparr> ap_options = [], ap_positionals = [(''key'', True)] \<rparr>"

definition ttl_option :: arg_option where
  "ttl_option =
     \<lparr> ao_flag = ''--ttl'', ao_action = Store T_int [], ao_default = AV_int 0, ao_group = None \<rparr>"

definition add_option :: "arg_option \<Rightarrow> arg_parser \<Rightarrow> arg_parser" where
  "add_option opt p = p\<lparr>ap_options := ap_options p @ [opt]\<rparr>"

definition main_options :: "arg_option list" where
  "main_options =
     [(str_option ''--target'')\<lparr>ao_default := AV_str ''127.0.0.1:50051''\<rparr>,
      \<lparr> ao_flag = ''--timeout'', ao_action = Store T_float [], ao_default = AV_num 5, ao_group = None \<rparr>,
      str_option ''--request-id'',
      true_option ''--show-request-id'',
      str_option ''--namespace'',
      true_option ''--tls'',
      str_option ''--tls-ca'']"

definition sub_parsers :: "(string \<times> arg_parser) list" where
  "sub_parsers =
     [(''get'',
       add_option (str_option ''--output'')
         (add_option
            ((str_option ''--format'')\<lparr>ao_action := Store T_str [''base64'', ''hex'', ''utf8''],
                                     ao_default := AV_str ''base64''\<rparr>) key_parser)),
      (''set'', add_option ttl_option (add_value_input_args ''value'' ''value'' key_parser)),
      (''set-if-absent'', add_option ttl_option (add_value_input_args ''value'' ''value'' key_parser)),
      (''compare-and-set'',
       add_option ttl_option
         (add_value_input_args ''value'' ''value''
            (add_value_input_args ''expected_value'' ''expected-value'' key_parser))),
      (''delete'', key_parser),
      (''stats'', \<lparr> ap_options = [], ap_positionals = [] \<rparr>)]"

definition build_parser :: "arg_parser \<times> (string \<times> arg_parser) list" where
  "build_parser = (\<lparr> ap_options = main_options, ap_positionals = [] \<rparr>, sub_parsers)"

section \<open>Parsing\<close>

type_synonym arg_namespace = "string \<Rightarrow> arg_value option"

text \<open>The attribute of an option: its name without the dashes, the others turned into underscores.\<close>

definition dest_of :: "string \<Rightarrow> string" where
  "dest_of flag = map (\<lambda>c. if c = CHR ''-'' then CHR ''_'' else c) (drop 2 flag)"

datatype parse_stop =
    Help_shown
  | Expected_argument string
  | Ignored_explicit_argument string
  | Invalid_value string string
  | Invalid_choice string string
  | Not_allowed_with string string
  | Required string
  | Unrecognized "string list"

text \<open>The attributes set so far, the options of exclusive groups seen, and the options not recognised.\<close>

record parse_state =
  ps_namespace :: arg_namespace
  ps_seen :: "string list"
  ps_extras :: "string list"

text \<open>\<open>py_float\<close> is the constructor \<^verbatim>\<open>float\<close> on finite values.\<close>

definition convert_arg :: "(string \<Rightarrow> real option) \<Rightarrow> arg_type \<Rightarrow> string \<Rightarrow> arg_value option" where
  "convert_arg py_float ty s =
     (case ty of
        T_str \<Rightarrow> Some (AV_str s)
      | T_int \<Rightarrow> map_option AV_int (py_int s)
      | T_float \<Rightarrow> map_option AV_num (py_float s))"

definition conflict_of :: "arg_parser \<Rightarrow> arg_option \<Rightarrow> string list \<Rightarrow> string option" where
  "conflict_of p opt seen =
     (if ao_group opt = None then None
      else map_option ao_flag
             (find (\<lambda>other. ao_group other = ao_group opt \<and> ao_flag other \<noteq> ao_flag opt \<and>
                            ao_flag other \<in> set seen) (ap_options p)))"

definition take_option ::
    "(string \<Rightarrow> real option) \<Rightarrow> arg_parser \<Rightarrow> string \<times> string option \<Rightarrow> parse_state
      \<Rightarrow> parse_stop + parse_state" where
  "take_option py_float p occ st =
     (let (flag, arg) = occ
      in if flag \<in> {''-h'', ''--help''} then Inl Help_shown
         else
           (case find (\<lambda>opt. ao_flag opt = flag) (ap_options p) of
              None \<Rightarrow> Inr (st\<lparr>ps_extras := ps_extras st @ [flag]\<rparr>)
            | Some opt \<Rightarrow>
                (case ao_action opt of
                   Store_true \<Rightarrow>
                     (if arg \<noteq> None then Inl (Ignored_explicit_argument flag)
                      else Inr (st\<lparr>ps_namespace := (ps_namespace st)(dest_of flag \<mapsto> AV_flag True)\<rparr>))
                 | Store ty choices \<Rightarrow>
                     (case arg of
                        None \<Rightarrow> Inl (Expected_argument flag)
                      | Some s \<Rightarrow>
                          (case convert_arg py_float ty s of
                             None \<Rightarrow> Inl (Invalid_value flag s)
                           | Some v \<Rightarrow>
                               if choices \<noteq> [] \<and> s \<notin> set choices then Inl (Invalid_choice flag s)
                               else
                                 (case conflict_of p opt (ps_seen st) of
                                    Some other \<Rightarrow> Inl (Not_allowed_with flag other)
                                  | None \<Rightarrow>
                                      Inr (st\<lparr>ps_namespace := (ps_namespace st)(dest_of flag \<mapsto> v),
                                              ps_seen := ps_seen st @ [flag]\<rparr>)))))))"

fun take_options ::
    "(string \<Rightarrow> real option) \<Rightarrow> arg_parser \<Rightarrow> (string \<times> string option) list \<Rightarrow> parse_state
      \<Rightarrow> parse_stop + parse_state" where
  "take_options py_float p [] st = Inr st"
| "take_options py_float p (occ # occs) st =
     (case take_option py_float p occ st of Inl e \<Rightarrow> Inl e | Inr st1 \<Rightarrow> take_options py_float p occs st1)"

fun take_positionals ::
    "(string \<times> bool) list \<Rightarrow> string list \<Rightarrow> parse_state \<Rightarrow> parse_stop + parse_state" where
  "take_positionals [] ws st = Inr (st\<lparr>ps_extras := ps_extras st @ ws\<rparr>)"
| "take_positionals ((name, required) # names) [] st =
     (if required then Inl (Required name) else take_positionals names [] st)"
| "take_positionals ((name, required) # names) (s # ws) st =
     take_positionals names ws (st\<lparr>ps_namespace := (ps_namespace st)(name \<mapsto> AV_str s)\<rparr>)"

definition parser_defaults :: "arg_parser \<Rightarrow> arg_namespace" where
  "parser_defaults p =
     map_of (map (\<lambda>opt. (dest_of (ao_flag opt), ao_default opt)) (ap_options p) @
             map (\<lambda>(name, _). (name, AV_none)) (ap_positionals p))"

definition start_state :: "arg_parser \<Rightarrow> parse_state" where
  "start_state p = \<lparr> ps_namespace = parser_defaults p, ps_seen = [], ps_extras = [] \<rparr>"

record command_line =
  cl_global :: "(string \<times> string option) list"
  cl_command :: "string option"
  cl_options :: "(string \<times> string option) list"
  cl_positionals :: "string list"

definition parse_args ::
    "(string \<Rightarrow> real option) \<Rightarrow> arg_parser \<times> (string \<times> arg_parser) list \<Rightarrow> command_line
      \<Rightarrow> parse_stop + arg_namespace" where
  "parse_args py_float parser line =
     (let (main, subs) = parser
      in case take_options py_float main (cl_global line) (start_state main) of
           Inl e \<Rightarrow> Inl e
         | Inr st \<Rightarrow>
             (case cl_command line of
                None \<Rightarrow> Inl (Required ''command'')
              | Some command \<Rightarrow>
                  (case map_of subs command of
                     None \<Rightarrow> Inl (Invalid_choice ''command'' command)
                   | Some sub \<Rightarrow>
                       (case take_options py_float sub (cl_options line) (start_state sub) of
                          Inl e \<Rightarrow> Inl e
                        | Inr st1 \<Rightarrow>
                            (case take_positionals (ap_positionals sub) (cl_positionals line) st1 of
                               Inl e \<Rightarrow> Inl e
                             | Inr st2 \<Rightarrow>
                                 (if ps_extras st @ ps_extras st2 \<noteq> []
                                  then Inl (Unrecognized (ps_extras st @ ps_extras st2))
                                  else Inr ((ps_namespace st ++ ps_namespace st2)(''command'' \<mapsto> AV_str command))))))))"

section \<open>The arguments of the client\<close>

text \<open>
  The attributes as \<^verbatim>\<open>run\<close> reads them. \<^verbatim>\<open>getattr(args, name, None)\<close> of an attribute the command does
  not have is \<^verbatim>\<open>None\<close>; the attributes read directly are those the command has.
\<close>

definition attr_opt :: "arg_namespace \<Rightarrow> string \<Rightarrow> string option" where
  "attr_opt ns name = (case ns name of Some (AV_str s) \<Rightarrow> Some s | _ \<Rightarrow> None)"

definition attr_str :: "arg_namespace \<Rightarrow> string \<Rightarrow> string" where
  "attr_str ns name = (case ns name of Some (AV_str s) \<Rightarrow> s | _ \<Rightarrow> [])"

definition attr_flag :: "arg_namespace \<Rightarrow> string \<Rightarrow> bool" where
  "attr_flag ns name \<longleftrightarrow> ns name = Some (AV_flag True)"

definition attr_num :: "arg_namespace \<Rightarrow> string \<Rightarrow> real" where
  "attr_num ns name = (case ns name of Some (AV_num x) \<Rightarrow> x | _ \<Rightarrow> 0)"

definition attr_int :: "arg_namespace \<Rightarrow> string \<Rightarrow> int" where
  "attr_int ns name = (case ns name of Some (AV_int i) \<Rightarrow> i | _ \<Rightarrow> 0)"

definition value_attrs :: "arg_namespace \<Rightarrow> string \<Rightarrow> value_args" where
  "value_attrs ns attr_prefix =
     \<lparr> va_positional = attr_opt ns attr_prefix, va_file = attr_opt ns (attr_prefix @ ''_file''),
       va_base64 = attr_opt ns (attr_prefix @ ''_base64''), va_hex = attr_opt ns (attr_prefix @ ''_hex'') \<rparr>"

definition args_of_namespace :: "arg_namespace \<Rightarrow> cli_args" where
  "args_of_namespace ns =
     \<lparr> ca_target = attr_str ns ''target'', ca_timeout = attr_num ns ''timeout'',
       ca_request_id = attr_opt ns ''request_id'', ca_show_request_id = attr_flag ns ''show_request_id'',
       ca_namespace = attr_opt ns ''namespace'', ca_tls = attr_flag ns ''tls'',
       ca_tls_ca = attr_opt ns ''tls_ca'', ca_command = attr_str ns ''command'', ca_key = attr_str ns ''key'',
       ca_format = attr_str ns ''format'', ca_output = attr_opt ns ''output'', ca_ttl = attr_int ns ''ttl'',
       ca_value = value_attrs ns ''value'', ca_expected_value = value_attrs ns ''expected_value'' \<rparr>"

text \<open>
  The program: asking for help exits with 0 after printing it, a command line that does not parse exits
  with 2; \<open>usage\<close> is the text printed.
\<close>

definition cli_main ::
    "(parse_stop \<Rightarrow> string) \<Rightarrow> (string \<Rightarrow> real option) \<Rightarrow> 's cli_env \<Rightarrow> command_line \<Rightarrow> 's cli_world
      \<Rightarrow> cli_result \<times> 's cli_world" where
  "cli_main usage py_float env line w =
     (case parse_args py_float build_parser line of
        Inl Help_shown \<Rightarrow> (Exited 0, print_out (out_string (usage Help_shown)) w)
      | Inl e \<Rightarrow> (Exited 2, print_err (usage e) w)
      | Inr ns \<Rightarrow> run env (args_of_namespace ns) w)"

section \<open>What is parsed has its type\<close>

text \<open>
  A value an option may have: its default, or one of its type and among its choices.
\<close>

definition typed_value :: "arg_type \<Rightarrow> string list \<Rightarrow> arg_value \<Rightarrow> bool" where
  "typed_value ty choices v \<longleftrightarrow>
     (case ty of
        T_str \<Rightarrow> (\<exists>s. v = AV_str s \<and> (choices = [] \<or> s \<in> set choices))
      | T_int \<Rightarrow> (\<exists>i. v = AV_int i)
      | T_float \<Rightarrow> (\<exists>x. v = AV_num x))"

definition option_value_ok :: "arg_option \<Rightarrow> arg_value \<Rightarrow> bool" where
  "option_value_ok opt v \<longleftrightarrow>
     v = ao_default opt \<or>
     (case ao_action opt of Store_true \<Rightarrow> v = AV_flag True | Store ty choices \<Rightarrow> typed_value ty choices v)"

definition option_dest :: "arg_option \<Rightarrow> string" where
  "option_dest opt = dest_of (ao_flag opt)"

definition parser_dests :: "arg_parser \<Rightarrow> string list" where
  "parser_dests p = map option_dest (ap_options p) @ map fst (ap_positionals p)"

text \<open>A parser whose attributes are distinct and whose flags without a value are in no group.\<close>

definition parser_wf :: "arg_parser \<Rightarrow> bool" where
  "parser_wf p \<longleftrightarrow> distinct (parser_dests p) \<and>
     list_all (\<lambda>opt. ao_action opt = Store_true \<longrightarrow> ao_group opt = None) (ap_options p)"

lemma convert_typed:
  "convert_arg py_float ty s = Some v \<Longrightarrow> \<not> (choices \<noteq> [] \<and> s \<notin> set choices) \<Longrightarrow> typed_value ty choices v"
  by (auto simp: convert_arg_def typed_value_def split: arg_type.splits)

lemma dest_injective:
  assumes "parser_wf p" "opt \<in> set (ap_options p)" "opt' \<in> set (ap_options p)"
    and "option_dest opt = option_dest opt'"
  shows "opt = opt'"
  using assms by (auto simp: parser_wf_def parser_dests_def distinct_map dest: inj_onD)

lemma take_option_cases:
  assumes "take_option py_float p (flag, arg) st = Inr st'"
  obtains (extra) "\<forall>opt \<in> set (ap_options p). ao_flag opt \<noteq> flag" "st' = st\<lparr>ps_extras := ps_extras st @ [flag]\<rparr>"
  | (flag) opt where "opt \<in> set (ap_options p)" "ao_flag opt = flag" "ao_action opt = Store_true"
      "st' = st\<lparr>ps_namespace := (ps_namespace st)(option_dest opt \<mapsto> AV_flag True)\<rparr>"
  | (store) opt ty choices v where "opt \<in> set (ap_options p)" "ao_flag opt = flag"
      "ao_action opt = Store ty choices" "typed_value ty choices v" "conflict_of p opt (ps_seen st) = None"
      "st' = st\<lparr>ps_namespace := (ps_namespace st)(option_dest opt \<mapsto> v), ps_seen := ps_seen st @ [flag]\<rparr>"
proof (cases "find (\<lambda>opt. ao_flag opt = flag) (ap_options p)")
  case None
  then have "st' = st\<lparr>ps_extras := ps_extras st @ [flag]\<rparr>"
    using assms by (simp add: take_option_def split: if_splits)
  moreover have "\<forall>opt \<in> set (ap_options p). ao_flag opt \<noteq> flag"
    using None by (simp add: find_None_iff)
  ultimately show ?thesis by (intro extra)
next
  case (Some opt)
  then have opt: "opt \<in> set (ap_options p)" "ao_flag opt = flag"
    by (auto simp: find_Some_iff)
  show ?thesis
  proof (cases "ao_action opt")
    case Store_true
    with assms Some opt show ?thesis
      by (intro flag [OF opt]) (auto simp: take_option_def option_dest_def split: if_splits)
  next
    case (Store ty choices)
    with assms Some opt obtain s v where "convert_arg py_float ty s = Some v"
      "\<not> (choices \<noteq> [] \<and> s \<notin> set choices)" "conflict_of p opt (ps_seen st) = None"
      "st' = st\<lparr>ps_namespace := (ps_namespace st)(option_dest opt \<mapsto> v), ps_seen := ps_seen st @ [flag]\<rparr>"
      by (auto simp: take_option_def option_dest_def split: if_splits option.splits)
    with Store opt convert_typed show ?thesis by (intro store) auto
  qed
qed

text \<open>At most one option per group among those seen.\<close>

definition one_per_group :: "arg_parser \<Rightarrow> string list \<Rightarrow> bool" where
  "one_per_group p seen \<longleftrightarrow>
     (\<forall>opt \<in> set (ap_options p). \<forall>other \<in> set (ap_options p).
        ao_group opt \<noteq> None \<and> ao_group opt = ao_group other \<and> ao_flag opt \<in> set seen \<and>
        ao_flag other \<in> set seen \<longrightarrow> ao_flag opt = ao_flag other)"

text \<open>
  The invariant of the options taken: the attributes are those of the parser, each has its type, an
  option of an exclusive group that has been given is recorded, and at most one per group is.
\<close>

definition options_ok :: "arg_parser \<Rightarrow> parse_state \<Rightarrow> bool" where
  "options_ok p st \<longleftrightarrow>
     dom (ps_namespace st) = set (parser_dests p) \<and>
     (\<forall>opt \<in> set (ap_options p). \<exists>v. ps_namespace st (option_dest opt) = Some v \<and> option_value_ok opt v \<and>
        (v \<noteq> ao_default opt \<longrightarrow> ao_group opt = None \<or> ao_flag opt \<in> set (ps_seen st))) \<and>
     one_per_group p (ps_seen st)"

lemma options_ok_update:
  assumes "parser_wf p" "options_ok p st" "opt \<in> set (ap_options p)" "option_value_ok opt v"
    and "set (ps_seen st) \<subseteq> set seen" "ao_group opt = None \<or> ao_flag opt \<in> set seen" "one_per_group p seen"
  shows "options_ok p (st\<lparr>ps_namespace := (ps_namespace st)(option_dest opt \<mapsto> v), ps_seen := seen\<rparr>)"
proof -
  have "option_dest opt \<in> set (parser_dests p)" using assms(3) by (simp add: parser_dests_def)
  moreover have "\<exists>v'. ((ps_namespace st)(option_dest opt \<mapsto> v)) (option_dest o') = Some v' \<and> option_value_ok o' v' \<and>
      (v' \<noteq> ao_default o' \<longrightarrow> ao_group o' = None \<or> ao_flag o' \<in> set seen)" if o': "o' \<in> set (ap_options p)" for o'
  proof (cases "option_dest opt = option_dest o'")
    case True
    with dest_injective [OF assms(1,3) o'] assms(4,6) show ?thesis by auto
  next
    case False
    with assms(2,5) o' show ?thesis by (fastforce simp: options_ok_def)
  qed
  ultimately show ?thesis using assms(2,7) by (auto simp: options_ok_def)
qed

lemma take_option_ok:
  assumes "take_option py_float p occ st = Inr st'" "parser_wf p" "options_ok p st"
  shows "options_ok p st'"
proof -
  obtain flag arg where occ: "occ = (flag, arg)" by (cases occ)
  have one: "one_per_group p (ps_seen st)" using assms(3) by (simp add: options_ok_def)
  from assms(1) [unfolded occ] show ?thesis
  proof (cases rule: take_option_cases)
    case extra
    then have same: "ps_namespace st' = ps_namespace st" "ps_seen st' = ps_seen st" by simp_all
    show ?thesis unfolding options_ok_def same by (rule assms(3) [unfolded options_ok_def])
  next
    case (flag opt)
    moreover have "ao_group opt = None" using assms(2) flag by (auto simp: parser_wf_def list_all_iff)
    ultimately show ?thesis
      using options_ok_update [OF assms(2,3) flag(1), of "AV_flag True" "ps_seen st"] one
      by (simp add: option_value_ok_def)
  next
    case (store opt ty choices v)
    have none: "\<not> (ao_group other = ao_group opt \<and> ao_flag other \<noteq> flag \<and> ao_flag other \<in> set (ps_seen st))"
      if "ao_group opt \<noteq> None" "other \<in> set (ap_options p)" for other
      using store(2,5) that by (auto simp: conflict_of_def find_None_iff)
    have same: "o' = opt" if "o' \<in> set (ap_options p)" "ao_flag o' = flag" for o'
      using dest_injective [OF assms(2) that(1) store(1)] that(2) store(2) by (simp add: option_dest_def)
    have "one_per_group p (ps_seen st @ [flag])"
      unfolding one_per_group_def
    proof (intro ballI impI, elim conjE)
      fix o' o''
      assume that: "o' \<in> set (ap_options p)" "o'' \<in> set (ap_options p)" "ao_group o' \<noteq> None"
        "ao_group o' = ao_group o''" "ao_flag o' \<in> set (ps_seen st @ [flag])"
        "ao_flag o'' \<in> set (ps_seen st @ [flag])"
      show "ao_flag o' = ao_flag o''"
      proof (cases "ao_flag o' = flag \<or> ao_flag o'' = flag")
        case True
        with that same [of o'] same [of o''] none [of o'] none [of o''] show ?thesis by auto
      next
        case False
        with that one show ?thesis by (auto simp: one_per_group_def)
      qed
    qed
    with store options_ok_update [OF assms(2,3) store(1), of v "ps_seen st @ [flag]"] show ?thesis
      by (auto simp: option_value_ok_def)
  qed
qed

lemma take_options_ok:
  "take_options py_float p occs st = Inr st' \<Longrightarrow> parser_wf p \<Longrightarrow> options_ok p st \<Longrightarrow> options_ok p st'"
  by (induction py_float p occs st rule: take_options.induct) (auto split: sum.splits dest: take_option_ok)

lemma start_state_ok:
  assumes "parser_wf p"
  shows "options_ok p (start_state p)"
proof -
  have keys: "map fst (map (\<lambda>opt. (option_dest opt, ao_default opt)) (ap_options p) @
      map (\<lambda>(name, _). (name, AV_none)) (ap_positionals p)) = parser_dests p"
    by (simp add: parser_dests_def comp_def split_def)
  have ns: "ps_namespace (start_state p) = map_of (map (\<lambda>opt. (option_dest opt, ao_default opt)) (ap_options p) @
      map (\<lambda>(name, _). (name, AV_none)) (ap_positionals p))"
    by (simp add: start_state_def parser_defaults_def option_dest_def)
  have "ps_namespace (start_state p) (option_dest opt) = Some (ao_default opt)" if "opt \<in> set (ap_options p)" for opt
    unfolding ns using assms that keys
    by (intro map_of_is_SomeI) (auto simp: parser_wf_def)
  moreover have "dom (ps_namespace (start_state p)) = set (parser_dests p)"
    unfolding ns dom_map_of_conv_image_fst keys [symmetric] by (simp add: image_Un image_image)
  ultimately show ?thesis
    by (simp add: options_ok_def option_value_ok_def one_per_group_def start_state_def)
qed

text \<open>What the options leave alone, and what the positional arguments set.\<close>

lemma take_option_elsewhere:
  assumes "take_option py_float p occ st = Inr st'" "x \<notin> option_dest ` set (ap_options p)"
  shows "ps_namespace st' x = ps_namespace st x"
proof -
  obtain flag arg where occ: "occ = (flag, arg)" by (cases occ)
  from assms(1) [unfolded occ] show ?thesis
    by (cases rule: take_option_cases) (use assms(2) in auto)
qed

lemma take_options_elsewhere:
  "take_options py_float p occs st = Inr st' \<Longrightarrow> x \<notin> option_dest ` set (ap_options p) \<Longrightarrow>
     ps_namespace st' x = ps_namespace st x"
  by (induction py_float p occs st rule: take_options.induct)
    (auto split: sum.splits dest: take_option_elsewhere)

lemma take_positionals_elsewhere:
  "take_positionals names ws st = Inr st' \<Longrightarrow> x \<notin> fst ` set names \<Longrightarrow>
     ps_namespace st' x = ps_namespace st x"
  by (induction names ws st rule: take_positionals.induct) (auto split: if_splits)

definition positional_ok :: "string \<times> bool \<Rightarrow> arg_value \<Rightarrow> bool" where
  "positional_ok q v \<longleftrightarrow> v = AV_none \<and> \<not> snd q \<or> (\<exists>s. v = AV_str s)"

lemma take_positionals_ok:
  "take_positionals names ws st = Inr st' \<Longrightarrow> distinct (map fst names) \<Longrightarrow>
   \<forall>q \<in> set names. ps_namespace st (fst q) = Some AV_none \<Longrightarrow>
   \<forall>q \<in> set names. \<exists>v. ps_namespace st' (fst q) = Some v \<and> positional_ok q v"
proof (induction names ws st rule: take_positionals.induct)
  case (2 name required names st)
  then have "take_positionals names [] st = Inr st'" "\<not> required" by (auto split: if_splits)
  with 2 take_positionals_elsewhere [of names "[]" st st' name] show ?case
    by (auto simp: positional_ok_def)
next
  case (3 name required names s ws st)
  let ?st = "st\<lparr>ps_namespace := (ps_namespace st)(name \<mapsto> AV_str s)\<rparr>"
  have run: "take_positionals names ws ?st = Inr st'" using 3(2) by simp
  have new: "\<And>q. q \<in> set names \<Longrightarrow> fst q \<noteq> name" using 3(3) by auto
  with 3(4) have "\<forall>q \<in> set names. ps_namespace ?st (fst q) = Some AV_none" by simp
  with 3(1) [OF run] 3(3) have "\<forall>q \<in> set names. \<exists>v. ps_namespace st' (fst q) = Some v \<and> positional_ok q v"
    by simp
  moreover have "ps_namespace st' name = Some (AV_str s)"
    using take_positionals_elsewhere [OF run, of name] 3(3) by simp
  ultimately show ?case by (simp add: positional_ok_def)
qed simp

text \<open>A parser's own part of the namespace, options and positional arguments together.\<close>

definition namespace_ok :: "arg_parser \<Rightarrow> arg_namespace \<Rightarrow> bool" where
  "namespace_ok p ns \<longleftrightarrow>
     (\<forall>opt \<in> set (ap_options p). \<exists>v. ns (option_dest opt) = Some v \<and> option_value_ok opt v) \<and>
     (\<forall>q \<in> set (ap_positionals p). \<exists>v. ns (fst q) = Some v \<and> positional_ok q v) \<and>
     (\<forall>opt \<in> set (ap_options p). \<forall>other \<in> set (ap_options p).
        ao_group opt \<noteq> None \<and> ao_group opt = ao_group other \<and>
        ns (option_dest opt) \<noteq> Some (ao_default opt) \<and> ns (option_dest other) \<noteq> Some (ao_default other)
        \<longrightarrow> ao_flag opt = ao_flag other)"

lemma options_exclusive:
  assumes "options_ok p st" "opt \<in> set (ap_options p)" "other \<in> set (ap_options p)"
    and "ao_group opt \<noteq> None" "ao_group opt = ao_group other"
    and "ps_namespace st (option_dest opt) \<noteq> Some (ao_default opt)"
    and "ps_namespace st (option_dest other) \<noteq> Some (ao_default other)"
  shows "ao_flag opt = ao_flag other"
proof -
  have seen: "ao_flag o' \<in> set (ps_seen st)"
    if o': "o' \<in> set (ap_options p)" "ao_group o' \<noteq> None" "ps_namespace st (option_dest o') \<noteq> Some (ao_default o')" for o'
  proof -
    from assms(1) o'(1) obtain v where "ps_namespace st (option_dest o') = Some v"
      "v \<noteq> ao_default o' \<longrightarrow> ao_group o' = None \<or> ao_flag o' \<in> set (ps_seen st)"
      unfolding options_ok_def by blast
    with o'(2,3) show ?thesis by auto
  qed
  have "ao_flag opt \<in> set (ps_seen st)" "ao_flag other \<in> set (ps_seen st)"
    using seen assms by auto
  with assms show ?thesis unfolding options_ok_def one_per_group_def by blast
qed

lemma options_typed:
  "options_ok p st \<Longrightarrow> opt \<in> set (ap_options p) \<Longrightarrow>
     \<exists>v. ps_namespace st (option_dest opt) = Some v \<and> option_value_ok opt v"
  unfolding options_ok_def by blast

lemma positional_default:
  "q \<in> set names \<Longrightarrow> map_of (map (\<lambda>(name, _). (name, AV_none)) names) (fst q) = Some AV_none"
  by (induction names) auto

lemma parser_namespace_ok:
  assumes "parser_wf p" "take_options py_float p occs (start_state p) = Inr st1"
    and "take_positionals (ap_positionals p) ws st1 = Inr st2"
  shows "namespace_ok p (ps_namespace st2) \<and> dom (ps_namespace st2) = set (parser_dests p)"
proof -
  have ok: "options_ok p st1" by (rule take_options_ok [OF assms(2,1) start_state_ok [OF assms(1)]])
  have dis: "fst q \<notin> option_dest ` set (ap_options p)" if "q \<in> set (ap_positionals p)" for q
    using assms(1) that by (auto simp: parser_wf_def parser_dests_def)
  have start: "ps_namespace (start_state p) (fst q) = Some AV_none" if "q \<in> set (ap_positionals p)" for q
  proof -
    have "map_of (map (\<lambda>opt. (option_dest opt, ao_default opt)) (ap_options p)) (fst q) = None"
      using dis [OF that] by (auto simp: map_of_eq_None_iff image_image)
    moreover have "map_of (map (\<lambda>(name, _). (name, AV_none)) (ap_positionals p)) (fst q) = Some AV_none"
      using that by (rule positional_default)
    ultimately show ?thesis by (simp add: start_state_def parser_defaults_def option_dest_def map_add_def)
  qed
  have "\<forall>q \<in> set (ap_positionals p). ps_namespace st1 (fst q) = Some AV_none"
    using take_options_elsewhere [OF assms(2)] dis start by simp
  moreover have "distinct (map fst (ap_positionals p))"
    using assms(1) by (simp add: parser_wf_def parser_dests_def)
  ultimately have pos: "\<forall>q \<in> set (ap_positionals p). \<exists>v. ps_namespace st2 (fst q) = Some v \<and> positional_ok q v"
    by (intro take_positionals_ok [OF assms(3)])
  have opts: "ps_namespace st2 (option_dest opt) = ps_namespace st1 (option_dest opt)"
    if "opt \<in> set (ap_options p)" for opt
    using that assms(1) by (intro take_positionals_elsewhere [OF assms(3)])
      (auto simp: parser_wf_def parser_dests_def)
  have "namespace_ok p (ps_namespace st2)"
    unfolding namespace_ok_def
  proof (intro conjI ballI impI)
    fix opt assume "opt \<in> set (ap_options p)"
    with options_typed [OF ok] opts show "\<exists>v. ps_namespace st2 (option_dest opt) = Some v \<and> option_value_ok opt v"
      by simp
  next
    fix q assume "q \<in> set (ap_positionals p)"
    with pos show "\<exists>v. ps_namespace st2 (fst q) = Some v \<and> positional_ok q v" by blast
  next
    fix opt other assume o: "opt \<in> set (ap_options p)" "other \<in> set (ap_options p)"
      and both: "ao_group opt \<noteq> None \<and> ao_group opt = ao_group other \<and>
        ps_namespace st2 (option_dest opt) \<noteq> Some (ao_default opt) \<and>
        ps_namespace st2 (option_dest other) \<noteq> Some (ao_default other)"
    show "ao_flag opt = ao_flag other"
      by (rule options_exclusive [OF ok o]) (use both opts [OF o(1)] opts [OF o(2)] in auto)
  qed
  moreover have "dom (ps_namespace st2) = set (parser_dests p)"
  proof (rule set_eqI)
    fix x
    have "dom (ps_namespace st1) = set (parser_dests p)" using ok by (simp add: options_ok_def)
    then have dom: "ps_namespace st1 x \<noteq> None \<longleftrightarrow> x \<in> set (parser_dests p)" by blast
    show "x \<in> dom (ps_namespace st2) \<longleftrightarrow> x \<in> set (parser_dests p)"
    proof (cases "x \<in> fst ` set (ap_positionals p)")
      case True
      then obtain q where q: "q \<in> set (ap_positionals p)" "x = fst q" by auto
      with pos obtain v where "ps_namespace st2 x = Some v" by blast
      with q show ?thesis by (auto simp: parser_dests_def)
    next
      case False
      from take_positionals_elsewhere [OF assms(3) this] dom show ?thesis by (simp add: domIff)
    qed
  qed
  ultimately show ?thesis ..
qed

end
