(* ===== verification/SqliteStore.thy ===== *)
theory SqliteStore
  imports StoreModels Results
begin

text \<open>
  The SQLite backend, \<^verbatim>\<open>SqliteCacheStore\<close> of \<^verbatim>\<open>tiny_cache/infrastructure/sqlite_store.py\<close>. The table
  \<^verbatim>\<open>cache_entries\<close> is the list of its rows in scan order: a new row goes to the end, an update stays in
  place. Every statement can fail: \<open>sq_faults n\<close> says whether the \<open>n\<close>-th statement of the connection
  raises, in which case it has no effect, since each write runs in its own transaction. The lock makes
  each public method one atomic step.
\<close>

section \<open>The table and its statements\<close>

record sqlite_row =
  r_key :: string
  r_value :: bytes
  r_ttl :: "int option"
  r_created_at :: real
  r_last_accessed :: real
  r_size_bytes :: int

definition sql_get :: "string \<Rightarrow> sqlite_row list \<Rightarrow> sqlite_row option" where
  "sql_get key rows = find (\<lambda>r. r_key r = key) rows"

definition sql_delete :: "string \<Rightarrow> sqlite_row list \<Rightarrow> sqlite_row list" where
  "sql_delete key rows = filter (\<lambda>r. r_key r \<noteq> key) rows"

text \<open>\<^verbatim>\<open>INSERT OR REPLACE\<close>: the row with the same primary key is deleted first.\<close>

definition sql_insert_or_replace :: "sqlite_row \<Rightarrow> sqlite_row list \<Rightarrow> sqlite_row list" where
  "sql_insert_or_replace row rows = sql_delete (r_key row) rows @ [row]"

definition sql_touch :: "real \<Rightarrow> string \<Rightarrow> sqlite_row list \<Rightarrow> sqlite_row list" where
  "sql_touch now key rows =
     map (\<lambda>r. if r_key r = key then r\<lparr>r_last_accessed := now\<rparr> else r) rows"

text \<open>\<^verbatim>\<open>ORDER BY last_accessed ASC LIMIT 1\<close>: the first row in scan order among the least.\<close>

fun sql_oldest :: "sqlite_row list \<Rightarrow> sqlite_row option" where
  "sql_oldest [] = None"
| "sql_oldest (r # rows) =
     (case sql_oldest rows of
        None \<Rightarrow> Some r
      | Some m \<Rightarrow> if r_last_accessed r \<le> r_last_accessed m then Some r else Some m)"

section \<open>The store\<close>

record sqlite_store = store_state +
  sq_rows :: "sqlite_row list"
  sq_entry_count :: int
  sq_faults :: "nat \<Rightarrow> bool"
  sq_statements :: nat
  sq_closed :: bool

text \<open>
  One \<^verbatim>\<open>connection.execute\<close>, inside \<^verbatim>\<open>with connection\<close> when it writes: a result and new rows, or an
  exception and no effect.
\<close>

definition sq_execute ::
    "(sqlite_row list \<Rightarrow> 'a \<times> sqlite_row list) \<Rightarrow> sqlite_store \<Rightarrow> 'a py \<times> sqlite_store" where
  "sq_execute statement s =
     (if sq_closed s then (Inl (BackendError ''Cannot operate on a closed database.''), s)
      else
        (let n = sq_statements s; s1 = s\<lparr>sq_statements := Suc n\<rparr>
         in if sq_faults s n then (Inl (BackendError ''sqlite3.OperationalError''), s1)
            else (let (x, rows) = statement (sq_rows s) in (Inr x, s1\<lparr>sq_rows := rows\<rparr>))))"

definition sq_select :: "(sqlite_row list \<Rightarrow> 'a) \<Rightarrow> sqlite_store \<Rightarrow> 'a py \<times> sqlite_store" where
  "sq_select q = sq_execute (\<lambda>rows. (q rows, rows))"

definition sq_update :: "(sqlite_row list \<Rightarrow> sqlite_row list) \<Rightarrow> sqlite_store \<Rightarrow> unit py \<times> sqlite_store" where
  "sq_update f = sq_execute (\<lambda>rows. ((), f rows))"

section \<open>Opening\<close>

text \<open>The connection settings and the schema: statements with no effect on the rows.\<close>

definition sq_configure_connection :: "sqlite_store \<Rightarrow> unit py \<times> sqlite_store" where
  "sq_configure_connection s =
     py_seq (sq_select (\<lambda>_. ()) s) (\<lambda>_ s1.
     py_seq (sq_select (\<lambda>_. ()) s1) (\<lambda>_ s2. sq_select (\<lambda>_. ()) s2))"

definition sq_initialize_schema :: "sqlite_store \<Rightarrow> unit py \<times> sqlite_store" where
  "sq_initialize_schema s = sq_update (\<lambda>rows. rows) s"

definition sq_load_current_memory_bytes :: "sqlite_store \<Rightarrow> int py \<times> sqlite_store" where
  "sq_load_current_memory_bytes = sq_select (\<lambda>rows. sum_list (map r_size_bytes rows))"

definition sq_load_entry_count :: "sqlite_store \<Rightarrow> int py \<times> sqlite_store" where
  "sq_load_entry_count = sq_select (\<lambda>rows. int (length rows))"

text \<open>\<open>rows\<close> is what the database file holds.\<close>

definition sq_init ::
    "sqlite_row list \<Rightarrow> (nat \<Rightarrow> bool) \<Rightarrow> int option \<Rightarrow> int option \<Rightarrow> int option \<Rightarrow> int option
      \<Rightarrow> (nat \<Rightarrow> real) \<Rightarrow> sqlite_store py" where
  "sq_init rows faults p_max_items p_max_memory_mb p_cleanup_interval p_max_value_bytes p_clock =
     py_bind
       (cache_store_limits_resolve p_max_items p_max_memory_mb p_cleanup_interval p_max_value_bytes)
       (\<lambda>limits.
          let s0 = \<lparr> max_items = lim_max_items limits, max_memory_bytes = lim_max_memory_bytes limits,
                     max_value_bytes = lim_max_value_bytes limits,
                     cleanup_interval = lim_cleanup_interval limits, current_memory_bytes = 0, hits = 0,
                     misses = 0, evictions = 0, lru_evictions = 0, expired_removals = 0,
                     rejected_oversize = 0, rejected_capacity = 0, clock = p_clock, clock_reads = 0,
                     sq_rows = rows, sq_entry_count = 0, sq_faults = faults, sq_statements = 0,
                     sq_closed = False \<rparr>
          in fst (py_seq (sq_configure_connection s0) (\<lambda>_ s1.
                  py_seq (sq_initialize_schema s1) (\<lambda>_ s2.
                  py_seq (sq_load_current_memory_bytes s2) (\<lambda>total s3.
                  py_seq (sq_load_entry_count s3) (\<lambda>count s4.
                    (Inr (s4\<lparr>current_memory_bytes := total, sq_entry_count := count\<rparr>), s4)))))))"

section \<open>Rows\<close>

definition sq_is_expired :: "cache_entry \<Rightarrow> sqlite_store \<Rightarrow> bool \<times> sqlite_store" where
  "sq_is_expired entry s =
     (case e_ttl entry of
        None \<Rightarrow> (False, s)
      | Some ttl \<Rightarrow> (let (now, s') = read_clock s in (now - e_created_at entry \<ge> of_int ttl, s')))"

definition row_to_entry :: "sqlite_row \<Rightarrow> cache_entry" where
  "row_to_entry r = new_entry (r_value r) (r_ttl r) (r_created_at r)"

definition sq_get_row :: "string \<Rightarrow> sqlite_store \<Rightarrow> sqlite_row option py \<times> sqlite_store" where
  "sq_get_row key = sq_select (sql_get key)"

definition sq_insert_row :: "string \<Rightarrow> cache_entry \<Rightarrow> sqlite_store \<Rightarrow> unit py \<times> sqlite_store" where
  "sq_insert_row key entry s =
     (let (now, s1) = read_clock s
      in py_seq
           (sq_update
              (sql_insert_or_replace
                 \<lparr> r_key = key, r_value = e_value entry, r_ttl = e_ttl entry,
                   r_created_at = e_created_at entry, r_last_accessed = now,
                   r_size_bytes = e_size_bytes entry \<rparr>) s1)
           (\<lambda>_ s2. (Inr (), s2\<lparr>current_memory_bytes := current_memory_bytes s2 + e_size_bytes entry,
                              sq_entry_count := sq_entry_count s2 + 1\<rparr>)))"

definition sq_restore_row :: "sqlite_row \<Rightarrow> sqlite_store \<Rightarrow> unit py \<times> sqlite_store" where
  "sq_restore_row row s =
     py_seq (sq_update (sql_insert_or_replace row) s)
       (\<lambda>_ s1. (Inr (), s1\<lparr>current_memory_bytes := current_memory_bytes s1 + r_size_bytes row,
                          sq_entry_count := sq_entry_count s1 + 1\<rparr>))"

definition sq_remove_entry :: "string \<Rightarrow> sqlite_store \<Rightarrow> bool py \<times> sqlite_store" where
  "sq_remove_entry key s =
     py_seq (sq_get_row key s) (\<lambda>row s1.
       (case row of
          None \<Rightarrow> (Inr False, s1)
        | Some r \<Rightarrow>
            py_seq (sq_update (sql_delete key) s1) (\<lambda>_ s2.
              (Inr True, s2\<lparr>current_memory_bytes := current_memory_bytes s2 - r_size_bytes r,
                            sq_entry_count := sq_entry_count s2 - 1\<rparr>))))"

definition sq_remove_expired_entry :: "string \<Rightarrow> sqlite_store \<Rightarrow> bool py \<times> sqlite_store" where
  "sq_remove_expired_entry key s =
     py_seq (sq_remove_entry key s) (\<lambda>removed s1.
       (Inr removed, if removed then s1\<lparr>expired_removals := expired_removals s1 + 1\<rparr> else s1))"

fun sq_remove_expired_rows :: "sqlite_row list \<Rightarrow> sqlite_store \<Rightarrow> unit py \<times> sqlite_store" where
  "sq_remove_expired_rows [] s = (Inr (), s)"
| "sq_remove_expired_rows (row # rows) s =
     (let (exp, s1) = sq_is_expired (row_to_entry row) s
      in if exp
         then py_seq (sq_remove_expired_entry (r_key row) s1) (\<lambda>_ s2. sq_remove_expired_rows rows s2)
         else sq_remove_expired_rows rows s1)"

definition sq_remove_expired_entries :: "sqlite_store \<Rightarrow> unit py \<times> sqlite_store" where
  "sq_remove_expired_entries s =
     py_seq (sq_select (\<lambda>rows. rows) s) (\<lambda>rows s1. sq_remove_expired_rows rows s1)"

definition sq_snapshot_items :: "sqlite_store \<Rightarrow> (string \<times> cache_entry) list py \<times> sqlite_store" where
  "sq_snapshot_items s =
     py_seq (sq_select (\<lambda>rows. rows) s)
       (\<lambda>rows s1. (Inr (map (\<lambda>r. (r_key r, row_to_entry r)) rows), s1))"

definition sq_remove_if_expired :: "string \<Rightarrow> sqlite_store \<Rightarrow> unit py \<times> sqlite_store" where
  "sq_remove_if_expired key s =
     py_seq (sq_get_row key s) (\<lambda>row s1.
       (case row of
          None \<Rightarrow> (Inr (), s1)
        | Some r \<Rightarrow>
            (let (exp, s2) = sq_is_expired (row_to_entry r) s1
             in if exp then py_seq (sq_remove_expired_entry key s2) (\<lambda>_ s3. (Inr (), s3))
                else (Inr (), s2))))"

section \<open>Eviction\<close>

definition sq_evict_lru :: "sqlite_store \<Rightarrow> bool py \<times> sqlite_store" where
  "sq_evict_lru s =
     py_seq (sq_select (\<lambda>rows. map_option r_key (sql_oldest rows)) s) (\<lambda>row s1.
       (case row of
          None \<Rightarrow> (Inr False, s1)
        | Some key \<Rightarrow>
            py_seq (sq_remove_entry key s1) (\<lambda>removed s2.
              if \<not> removed then (Inr False, s2)
              else (Inr True, s2\<lparr>evictions := evictions s2 + 1, lru_evictions := lru_evictions s2 + 1\<rparr>))))"

lemma sq_select_Inr:
  "sq_select q s = (Inr x, s') \<Longrightarrow> (\<exists>n. s' = s\<lparr>sq_statements := n\<rparr>) \<and> x = q (sq_rows s)"
  by (cases s) (auto simp: sq_select_def sq_execute_def Let_def split: if_splits)

lemma sq_update_Inr:
  "sq_update f s = (Inr x, s') \<Longrightarrow> \<exists>n. s' = s\<lparr>sq_statements := n, sq_rows := f (sq_rows s)\<rparr>"
  by (auto simp: sq_update_def sq_execute_def Let_def split: if_splits)

lemma sql_delete_shrinks:
  "sql_get key rows = Some r \<Longrightarrow> length (sql_delete key rows) < length rows"
  by (auto simp: sql_get_def sql_delete_def find_Some_iff intro!: length_filter_less)

lemma sq_remove_entry_Inr:
  assumes "sq_remove_entry key s = (Inr b, s')"
  shows "\<exists>n. case sql_get key (sq_rows s) of
      None \<Rightarrow> \<not> b \<and> s' = s\<lparr>sq_statements := n\<rparr>
    | Some r \<Rightarrow> b \<and> s' = s\<lparr>sq_statements := n, sq_rows := sql_delete key (sq_rows s),
        current_memory_bytes := current_memory_bytes s - r_size_bytes r,
        sq_entry_count := sq_entry_count s - 1\<rparr>"
proof -
  obtain row s1 where row: "sq_get_row key s = (Inr row, s1)"
    and rest: "(case row of None \<Rightarrow> (Inr False, s1)
      | Some r \<Rightarrow> py_seq (sq_update (sql_delete key) s1) (\<lambda>_ s2.
          (Inr True, s2\<lparr>current_memory_bytes := current_memory_bytes s2 - r_size_bytes r,
                        sq_entry_count := sq_entry_count s2 - 1\<rparr>))) = (Inr b, s')"
    using assms by (auto simp: sq_remove_entry_def py_simps)
  obtain m where "s1 = s\<lparr>sq_statements := m\<rparr>" "row = sql_get key (sq_rows s)"
    using sq_select_Inr [OF row [unfolded sq_get_row_def]] by auto
  with rest show ?thesis
    by (cases "sql_get key (sq_rows s)") (auto simp: py_simps dest!: sq_update_Inr)
qed

lemma sq_evict_lru_shrinks:
  assumes "sq_evict_lru s = (Inr True, s')"
  shows "length (sq_rows s') < length (sq_rows s)"
  using assms sql_delete_shrinks
  by (auto simp: sq_evict_lru_def py_simps dest!: sq_select_Inr sq_remove_entry_Inr
      split: option.splits if_splits)

function sq_evict_to_fit :: "int \<Rightarrow> sqlite_store \<Rightarrow> bool py \<times> sqlite_store" where
  "sq_evict_to_fit required s =
     (if current_memory_bytes s + required > max_memory_bytes s \<and> sq_entry_count s > 0
      then (case sq_evict_lru s of
              (Inl e, s') \<Rightarrow> (Inl e, s')
            | (Inr False, s') \<Rightarrow> (Inr False, s')
            | (Inr True, s') \<Rightarrow> sq_evict_to_fit required s')
      else (Inr (current_memory_bytes s + required \<le> max_memory_bytes s), s))"
  by pat_completeness auto
termination
  by (relation "measure (\<lambda>(_, s). length (sq_rows s))") (auto dest: sym sq_evict_lru_shrinks)

text \<open>
  The loop that makes room for a new key: \<open>False\<close> is the early return of the loop body, with the
  rejection counted.
\<close>

function sq_evict_for_new_key :: "sqlite_store \<Rightarrow> bool py \<times> sqlite_store" where
  "sq_evict_for_new_key s =
     (if sq_entry_count s \<ge> max_items s
      then (case sq_evict_lru s of
              (Inl e, s') \<Rightarrow> (Inl e, s')
            | (Inr False, s') \<Rightarrow> (Inr False, s'\<lparr>rejected_capacity := rejected_capacity s' + 1\<rparr>)
            | (Inr True, s') \<Rightarrow> sq_evict_for_new_key s')
      else (Inr True, s))"
  by pat_completeness auto
termination
  by (relation "measure (\<lambda>s. length (sq_rows s))") (auto dest: sym sq_evict_lru_shrinks)

declare sq_evict_to_fit.simps [simp del] sq_evict_for_new_key.simps [simp del]

section \<open>Writing\<close>

definition sq_restore :: "sqlite_row option \<Rightarrow> sqlite_store \<Rightarrow> unit py \<times> sqlite_store" where
  "sq_restore old_row s = (case old_row of None \<Rightarrow> (Inr (), s) | Some row \<Rightarrow> sq_restore_row row s)"

definition sq_store_value ::
    "string \<Rightarrow> bytes \<Rightarrow> int option \<Rightarrow> sqlite_row option \<Rightarrow> sqlite_store
      \<Rightarrow> cache_set_status py \<times> sqlite_store" where
  "sq_store_value key value ttl old_row s =
     py_seq (if old_row \<noteq> None then sq_remove_entry key s else (Inr True, s)) (\<lambda>_ s0.
       (let (now, s1) = read_clock s0;
            entry = cache_entry_init now value ttl (Some now)
        in if e_size_bytes entry > max_value_bytes s1
           then py_seq (sq_restore old_row s1) (\<lambda>_ s2.
                  (Inr Set_VALUE_TOO_LARGE, s2\<lparr>rejected_oversize := rejected_oversize s2 + 1\<rparr>))
           else
             py_seq
               (if current_memory_bytes s1 + e_size_bytes entry > max_memory_bytes s1
                then sq_evict_to_fit (e_size_bytes entry) s1 else (Inr True, s1)) (\<lambda>fits s2.
               if \<not> fits
               then py_seq (sq_restore old_row s2) (\<lambda>_ s3.
                      (Inr Set_CAPACITY_EXHAUSTED, s3\<lparr>rejected_capacity := rejected_capacity s3 + 1\<rparr>))
               else
                 py_seq (if old_row = None then sq_evict_for_new_key s2 else (Inr True, s2)) (\<lambda>room s3.
                   if \<not> room then (Inr Set_CAPACITY_EXHAUSTED, s3)
                   else py_seq (sq_insert_row key entry s3) (\<lambda>_ s4. (Inr Set_OK, s4))))))"

section \<open>The methods of the port\<close>

definition sq_get_locked :: "string \<Rightarrow> sqlite_store \<Rightarrow> bytes option py \<times> sqlite_store" where
  "sq_get_locked key s =
     py_seq (sq_get_row key s) (\<lambda>row s1.
       (case row of
          None \<Rightarrow> (Inr None, s1\<lparr>misses := misses s1 + 1\<rparr>)
        | Some r \<Rightarrow>
            (let entry = row_to_entry r; (exp, s2) = sq_is_expired entry s1
             in if exp
                then py_seq (sq_remove_expired_entry key (s2\<lparr>misses := misses s2 + 1\<rparr>))
                       (\<lambda>_ s3. (Inr None, s3))
                else
                  (let (now, s3) = read_clock s2
                   in py_seq (sq_update (sql_touch now key) s3)
                        (\<lambda>_ s4. (Inr (Some (e_value entry)), s4\<lparr>hits := hits s4 + 1\<rparr>))))))"

definition sq_get :: "string \<Rightarrow> sqlite_store \<Rightarrow> bytes option py \<times> sqlite_store" where
  "sq_get key s =
     (case validate_key (PStr key) of Inl e \<Rightarrow> (Inl e, s) | Inr _ \<Rightarrow> sq_get_locked key s)"

definition sq_set_locked ::
    "string \<Rightarrow> bytes \<Rightarrow> int option \<Rightarrow> sqlite_store \<Rightarrow> cache_set_status py \<times> sqlite_store" where
  "sq_set_locked key value ttl s =
     py_seq (sq_get_row key s) (\<lambda>row s1. sq_store_value key value ttl row s1)"

definition sq_set ::
    "string \<Rightarrow> bytes \<Rightarrow> int option \<Rightarrow> sqlite_store \<Rightarrow> cache_set_status py \<times> sqlite_store" where
  "sq_set key value ttl s =
     (case py_bind (validate_key (PStr key)) (\<lambda>_. validate_value (PBytes value)) of
        Inl e \<Rightarrow> (Inl e, s)
      | Inr _ \<Rightarrow> sq_set_locked key value ttl s)"

text \<open>The status of a conditional write that stores.\<close>

definition sq_conditional_store ::
    "string \<Rightarrow> bytes \<Rightarrow> int option \<Rightarrow> sqlite_row option \<Rightarrow> sqlite_store
      \<Rightarrow> cache_conditional_set_status py \<times> sqlite_store" where
  "sq_conditional_store key value ttl old_row s =
     py_seq (sq_store_value key value ttl old_row s)
       (\<lambda>st s1. (conditional_status_from_set_status st, s1))"

definition sq_set_if_absent_locked ::
    "string \<Rightarrow> bytes \<Rightarrow> int option \<Rightarrow> sqlite_store
      \<Rightarrow> cache_conditional_set_status py \<times> sqlite_store" where
  "sq_set_if_absent_locked key value ttl s =
     py_seq (sq_get_row key s) (\<lambda>row s1.
       (case row of
          None \<Rightarrow> sq_conditional_store key value ttl None s1
        | Some r \<Rightarrow>
            (let (exp, s2) = sq_is_expired (row_to_entry r) s1
             in if exp
                then py_seq (sq_remove_expired_entry key s2)
                       (\<lambda>_ s3. sq_conditional_store key value ttl None s3)
                else (Inr Cond_EXISTS, s2))))"

definition sq_set_if_absent ::
    "string \<Rightarrow> bytes \<Rightarrow> int option \<Rightarrow> sqlite_store
      \<Rightarrow> cache_conditional_set_status py \<times> sqlite_store" where
  "sq_set_if_absent key value ttl s =
     (case py_bind (validate_key (PStr key)) (\<lambda>_. validate_value (PBytes value)) of
        Inl e \<Rightarrow> (Inl e, s)
      | Inr _ \<Rightarrow> sq_set_if_absent_locked key value ttl s)"

definition sq_compare_and_set_locked ::
    "string \<Rightarrow> bytes \<Rightarrow> bytes \<Rightarrow> int option \<Rightarrow> sqlite_store
      \<Rightarrow> cache_conditional_set_status py \<times> sqlite_store" where
  "sq_compare_and_set_locked key expected_value value ttl s =
     py_seq (sq_get_row key s) (\<lambda>row s1.
       (case row of
          None \<Rightarrow> (Inr Cond_NOT_FOUND, s1)
        | Some r \<Rightarrow>
            (let entry = row_to_entry r; (exp, s2) = sq_is_expired entry s1
             in if exp
                then py_seq (sq_remove_expired_entry key s2) (\<lambda>_ s3. (Inr Cond_NOT_FOUND, s3))
                else if e_value entry \<noteq> expected_value then (Inr Cond_MISMATCH, s2)
                else sq_conditional_store key value ttl (Some r) s2)))"

definition sq_compare_and_set ::
    "string \<Rightarrow> bytes \<Rightarrow> bytes \<Rightarrow> int option \<Rightarrow> sqlite_store
      \<Rightarrow> cache_conditional_set_status py \<times> sqlite_store" where
  "sq_compare_and_set key expected_value value ttl s =
     (case py_bind (validate_key (PStr key))
             (\<lambda>_. py_bind (validate_value (PBytes expected_value))
                    (\<lambda>_. validate_value (PBytes value))) of
        Inl e \<Rightarrow> (Inl e, s)
      | Inr _ \<Rightarrow> sq_compare_and_set_locked key expected_value value ttl s)"

definition sq_delete :: "string \<Rightarrow> sqlite_store \<Rightarrow> bool py \<times> sqlite_store" where
  "sq_delete key s =
     (case validate_key (PStr key) of Inl e \<Rightarrow> (Inl e, s) | Inr _ \<Rightarrow> sq_remove_entry key s)"

definition sq_stats :: "sqlite_store \<Rightarrow> cache_stats_snapshot py \<times> sqlite_store" where
  "sq_stats s =
     py_seq (sq_remove_expired_entries s) (\<lambda>_ s1.
       (let total = hits s1 + misses s1
        in (Inr
             \<lparr> st_size = sq_entry_count s1, st_hits = hits s1, st_misses = misses s1,
               st_evictions = evictions s1, st_lru_evictions = lru_evictions s1,
               st_expired_removals = expired_removals s1, st_rejected_oversize = rejected_oversize s1,
               st_rejected_capacity = rejected_capacity s1,
               st_hit_rate = (if total > 0 then of_int (hits s1) / of_int total else 0),
               st_memory_usage_bytes = current_memory_bytes s1, st_max_memory_bytes = max_memory_bytes s1,
               st_max_value_bytes = max_value_bytes s1, st_max_items = max_items s1 \<rparr>, s1)))"

definition sq_clear :: "sqlite_store \<Rightarrow> unit py \<times> sqlite_store" where
  "sq_clear s =
     py_seq (sq_update (\<lambda>_. []) s) (\<lambda>_ s1.
       (Inr (), s1\<lparr>current_memory_bytes := 0, sq_entry_count := 0, hits := 0, misses := 0, evictions := 0,
                   lru_evictions := 0, expired_removals := 0, rejected_oversize := 0,
                   rejected_capacity := 0\<rparr>))"

text \<open>The end of \<^verbatim>\<open>stop\<close>: the connection is closed; the thread is stopped as for the memory store.\<close>

definition sq_stop :: "sqlite_store \<Rightarrow> sqlite_store" where
  "sq_stop s = s\<lparr>sq_closed := True\<rparr>"

end
