(* ===== verification/SqliteInvariant.thy ===== *)
theory SqliteInvariant
  imports SqliteStore
begin

text \<open>
  What holds of the SQLite backend even when statements fail: the two counters the store keeps beside
  the table always agree with it. Each write is one transaction and the counters are adjusted right
  after it, so an exception between two statements leaves both sides consistent.
\<close>

section \<open>Facts about the table\<close>

lemma sql_get_key: "sql_get k rows = Some r \<Longrightarrow> r_key r = k \<and> r \<in> set rows"
  by (auto simp: sql_get_def find_Some_iff)

lemma sql_get_None: "sql_get k rows = None \<longleftrightarrow> (\<forall>r \<in> set rows. r_key r \<noteq> k)"
  by (auto simp: sql_get_def find_None_iff)

lemma sql_get_Nil [simp]: "sql_get k [] = None"
  by (simp add: sql_get_def)

lemma sql_get_Cons [simp]: "sql_get k (r # rows) = (if r_key r = k then Some r else sql_get k rows)"
  by (simp add: sql_get_def)

lemma sql_get_append:
  "sql_get k (rows @ rows') = (case sql_get k rows of None \<Rightarrow> sql_get k rows' | Some r \<Rightarrow> Some r)"
  by (induction rows) auto

lemma sql_delete_simps [simp]:
  "sql_delete k [] = []"
  "sql_delete k (r # rows) = (if r_key r = k then sql_delete k rows else r # sql_delete k rows)"
  by (simp_all add: sql_delete_def)

lemma sql_get_delete [simp]:
  "sql_get k (sql_delete k' rows) = (if k = k' then None else sql_get k rows)"
  by (induction rows) auto

lemma sql_delete_absent: "sql_get k rows = None \<Longrightarrow> sql_delete k rows = rows"
  by (induction rows) (auto split: if_splits)

lemma sql_get_insert [simp]:
  "sql_get k (sql_insert_or_replace r rows) = (if k = r_key r then Some r else sql_get k rows)"
  by (auto simp: sql_insert_or_replace_def sql_get_append split: option.split)

lemma sql_get_touch [simp]:
  "sql_get k (sql_touch now k' rows) =
     (if k = k' then map_option (\<lambda>r. r\<lparr>r_last_accessed := now\<rparr>) (sql_get k rows) else sql_get k rows)"
  by (induction rows) (auto simp: sql_touch_def)

lemma sql_delete_keys: "map r_key (sql_delete k rows) = filter (\<lambda>x. x \<noteq> k) (map r_key rows)"
  by (induction rows) auto

lemma sql_touch_keys [simp]:
  "map r_key (sql_touch now k rows) = map r_key rows"
  "map r_size_bytes (sql_touch now k rows) = map r_size_bytes rows"
  "length (sql_touch now k rows) = length rows"
  by (induction rows) (auto simp: sql_touch_def)

definition rows_size :: "sqlite_row list \<Rightarrow> int" where
  "rows_size rows = sum_list (map r_size_bytes rows)"

lemma rows_size_simps [simp]:
  "rows_size [] = 0" "rows_size (r # rows) = r_size_bytes r + rows_size rows"
  "rows_size (rows @ rows') = rows_size rows + rows_size rows'"
  "rows_size (sql_touch now k rows) = rows_size rows"
  by (simp_all add: rows_size_def)

lemma sql_delete_counts:
  assumes "distinct (map r_key rows)" "sql_get k rows = Some r"
  shows "rows_size (sql_delete k rows) = rows_size rows - r_size_bytes r"
    and "int (length (sql_delete k rows)) = int (length rows) - 1"
proof -
  have absent: "sql_delete k rows = rows" if "k \<notin> r_key ` set rows" for rows
    using that by (intro sql_delete_absent) (auto simp: sql_get_None)
  show "rows_size (sql_delete k rows) = rows_size rows - r_size_bytes r"
    "int (length (sql_delete k rows)) = int (length rows) - 1"
    using assms by (induction rows) (auto simp: absent split: if_splits)
qed

section \<open>Consistency of the counters\<close>

definition sq_consistent :: "sqlite_store \<Rightarrow> bool" where
  "sq_consistent s \<longleftrightarrow>
     distinct (map r_key (sq_rows s)) \<and> sq_entry_count s = int (length (sq_rows s)) \<and>
     current_memory_bytes s = rows_size (sq_rows s)"

text \<open>Consistent, and without a row for the given keys.\<close>

definition sq_ok :: "string set \<Rightarrow> sqlite_store \<Rightarrow> bool" where
  "sq_ok K s \<longleftrightarrow> sq_consistent s \<and> (\<forall>k \<in> K. sql_get k (sq_rows s) = None)"

lemma sq_ok_empty [simp]: "sq_ok {} s = sq_consistent s"
  by (simp add: sq_ok_def)

lemma sq_ok_weaken: "sq_ok K s \<Longrightarrow> sq_consistent s"
  by (simp add: sq_ok_def)

lemma sq_ok_frame [simp]:
  "sq_ok K (s\<lparr>sq_statements := n\<rparr>) = sq_ok K s" "sq_ok K (s\<lparr>clock_reads := n\<rparr>) = sq_ok K s"
  "sq_ok K (s\<lparr>hits := i\<rparr>) = sq_ok K s" "sq_ok K (s\<lparr>misses := i\<rparr>) = sq_ok K s"
  "sq_ok K (s\<lparr>evictions := i\<rparr>) = sq_ok K s" "sq_ok K (s\<lparr>lru_evictions := i\<rparr>) = sq_ok K s"
  "sq_ok K (s\<lparr>expired_removals := i\<rparr>) = sq_ok K s" "sq_ok K (s\<lparr>rejected_oversize := i\<rparr>) = sq_ok K s"
  "sq_ok K (s\<lparr>rejected_capacity := i\<rparr>) = sq_ok K s"
  "sq_ok K (s\<lparr>sq_closed := b\<rparr>) = sq_ok K s"
  by (simp_all add: sq_ok_def sq_consistent_def)

lemma sq_select_state: "\<exists>n. snd (sq_select q s) = s\<lparr>sq_statements := n\<rparr>"
  by (cases s) (auto simp: sq_select_def sq_execute_def Let_def)

lemma sq_update_Inl: "sq_update f s = (Inl e, s') \<Longrightarrow> \<exists>n. s' = s\<lparr>sq_statements := n\<rparr>"
  by (cases s) (auto simp: sq_update_def sq_execute_def Let_def split: if_splits)

lemma sq_select_ok [simp]: "sq_ok K (snd (sq_select q s)) = sq_ok K s"
  using sq_select_state [of q s] by auto

lemma sq_get_row_ok [simp]: "sq_ok K (snd (sq_get_row k s)) = sq_ok K s"
  by (simp add: sq_get_row_def)

lemma sq_is_expired_state: "\<exists>n. snd (sq_is_expired e s) = s\<lparr>clock_reads := n\<rparr>"
  by (cases s) (auto simp: sq_is_expired_def read_clock_def split: option.split)

lemma sq_is_expired_ok [simp]: "sq_ok K (snd (sq_is_expired e s)) = sq_ok K s"
  using sq_is_expired_state [of e s] by auto

lemma sq_remove_entry_Inl:
  assumes "sq_remove_entry k s = (Inl e, s')"
  shows "\<exists>n. s' = s\<lparr>sq_statements := n\<rparr>"
proof (cases "sq_get_row k s")
  case (Pair row s1)
  obtain n where s1: "s1 = s\<lparr>sq_statements := n\<rparr>"
    using sq_select_state [of "sql_get k" s] Pair by (auto simp: sq_get_row_def)
  show ?thesis
  proof (cases row)
    case (Inl e')
    with assms Pair s1 show ?thesis by (auto simp: sq_remove_entry_def)
  next
    case (Inr r)
    obtain u s2 where u: "sq_update (sql_delete k) s1 = (u, s2)" by fastforce
    show ?thesis
    proof (cases u)
      case (Inl e')
      with u sq_update_Inl s1 have "\<exists>n. s2 = s\<lparr>sq_statements := n\<rparr>" by fastforce
      with assms Pair Inr Inl u s1 show ?thesis
        by (auto simp: sq_remove_entry_def split: option.splits)
    next
      case (Inr u')
      with assms Pair \<open>row = Inr r\<close> u show ?thesis
        by (auto simp: sq_remove_entry_def split: option.splits)
    qed
  qed
qed

lemma sq_remove_entry_ok:
  assumes "sq_ok K s"
  shows "sq_ok K (snd (sq_remove_entry k s))"
    and "sq_remove_entry k s = (Inr b, s') \<Longrightarrow> sq_ok (insert k K) s'"
proof -
  have Inr: "sq_ok (insert k K) s'" if "sq_remove_entry k s = (Inr b, s')" for b s'
  proof (cases "sql_get k (sq_rows s)")
    case None
    with sq_remove_entry_Inr [OF that] assms show ?thesis by (auto simp: sq_ok_def sq_consistent_def)
  next
    case (Some r)
    with sq_remove_entry_Inr [OF that] assms sql_delete_counts [OF _ Some] show ?thesis
      by (auto simp: sq_ok_def sq_consistent_def sql_delete_keys)
  qed
  then show "sq_remove_entry k s = (Inr b, s') \<Longrightarrow> sq_ok (insert k K) s'" .
  show "sq_ok K (snd (sq_remove_entry k s))"
  proof (cases "sq_remove_entry k s")
    case (Pair r s')
    show ?thesis
    proof (cases r)
      case (Inl e)
      with Pair sq_remove_entry_Inl [of k s e s'] assms show ?thesis by auto
    next
      case (Inr b)
      with Pair \<open>\<And>b s'. sq_remove_entry k s = (Inr b, s') \<Longrightarrow> sq_ok (insert k K) s'\<close> show ?thesis
        by (auto simp: sq_ok_def)
    qed
  qed
qed

section \<open>Every operation keeps the counters consistent, whatever fails\<close>

lemma sq_ok_mono: "sq_ok K s \<Longrightarrow> K' \<subseteq> K \<Longrightarrow> sq_ok K' s"
  by (auto simp: sq_ok_def)

lemma sq_remove_expired_entry_ok:
  assumes "sq_ok K s"
  shows "sq_ok K (snd (sq_remove_expired_entry k s))"
    and "sq_remove_expired_entry k s = (Inr b, s') \<Longrightarrow> sq_ok (insert k K) s'"
proof -
  show "sq_ok K (snd (sq_remove_expired_entry k s))"
    unfolding sq_remove_expired_entry_def
    by (rule py_seq_inv) (auto simp: sq_remove_entry_ok(1) [OF assms])
  show "sq_remove_expired_entry k s = (Inr b, s') \<Longrightarrow> sq_ok (insert k K) s'"
    using sq_remove_entry_ok(2) [OF assms]
    by (auto simp: sq_remove_expired_entry_def py_simps split: if_splits)
qed

lemma sq_evict_lru_ok: "sq_ok K s \<Longrightarrow> sq_ok K (snd (sq_evict_lru s))"
  unfolding sq_evict_lru_def
proof (rule py_seq_inv, simp, goal_cases)
  case (1 row w)
  then show ?case
    by (cases row) (auto intro!: py_seq_inv [where Q = "sq_ok K"] simp: sq_remove_entry_ok(1))
qed

lemma sq_evict_to_fit_ok: "sq_ok K s \<Longrightarrow> sq_ok K (snd (sq_evict_to_fit n s))"
proof (induction n s rule: sq_evict_to_fit.induct)
  case (1 n s)
  then show ?case
    using sq_evict_lru_ok [OF 1(2)]
    by (subst sq_evict_to_fit.simps) (auto split: prod.split sum.split bool.split)
qed

lemma sq_evict_for_new_key_ok: "sq_ok K s \<Longrightarrow> sq_ok K (snd (sq_evict_for_new_key s))"
proof (induction s rule: sq_evict_for_new_key.induct)
  case (1 s)
  then show ?case
    using sq_evict_lru_ok [OF 1(2)]
    by (subst sq_evict_for_new_key.simps) (auto split: prod.split sum.split bool.split)
qed

text \<open>A row goes in consistently when its key has none.\<close>

lemma sq_inserted_ok:
  assumes "sq_ok {r_key r} s" "sq_update (sql_insert_or_replace r) s = (Inr u, s')"
  shows "sq_consistent (s'\<lparr>current_memory_bytes := current_memory_bytes s' + r_size_bytes r,
                          sq_entry_count := sq_entry_count s' + 1\<rparr>)"
proof -
  have absent: "sql_get (r_key r) (sq_rows s) = None" using assms(1) by (simp add: sq_ok_def)
  then have "r_key r \<notin> r_key ` set (sq_rows s)" by (auto simp: sql_get_None)
  with assms(1) sq_update_Inr [OF assms(2)] sql_delete_absent [OF absent] show ?thesis
    by (auto simp: sq_ok_def sq_consistent_def sql_insert_or_replace_def)
qed

lemma sq_update_fails_ok: "sq_ok K s \<Longrightarrow> sq_update f s = (Inl e, s') \<Longrightarrow> sq_ok K s'"
  using sq_update_Inl [of f s e s'] by auto

lemma sq_seq_update_ok:
  assumes "sq_consistent s" "\<And>u w. sq_update f s = (Inr u, w) \<Longrightarrow> sq_consistent (snd (g u w))"
  shows "sq_consistent (snd (py_seq (sq_update f s) g))"
proof (cases "sq_update f s")
  case (Pair r w)
  with assms show ?thesis
    using sq_update_fails_ok [of "{}" s f _ w] by (cases r) auto
qed

lemma sq_insert_row_ok: "sq_ok {k} s \<Longrightarrow> sq_consistent (snd (sq_insert_row k e s))"
  unfolding sq_insert_row_def read_clock_def Let_def prod.case
  using sq_ok_weaken [of "{k}" s]
  by (intro sq_seq_update_ok) (force dest: sq_inserted_ok [rotated] simp: sq_consistent_def)+

lemma sq_restore_row_ok: "sq_ok {r_key r} s \<Longrightarrow> sq_consistent (snd (sq_restore_row r s))"
  unfolding sq_restore_row_def
  by (intro sq_seq_update_ok) (auto dest: sq_inserted_ok sq_ok_weaken)

lemma sq_restore_ok:
  "sq_ok {k} s \<Longrightarrow> (\<And>r. old = Some r \<Longrightarrow> r_key r = k) \<Longrightarrow> sq_consistent (snd (sq_restore old s))"
  by (auto simp: sq_restore_def sq_restore_row_ok sq_ok_weaken split: option.split)

lemma sq_consistent_frame [simp]:
  "sq_consistent (s\<lparr>sq_statements := n\<rparr>) = sq_consistent s"
  "sq_consistent (s\<lparr>clock_reads := n\<rparr>) = sq_consistent s"
  "sq_consistent (s\<lparr>hits := i\<rparr>) = sq_consistent s"
  "sq_consistent (s\<lparr>misses := i\<rparr>) = sq_consistent s"
  "sq_consistent (s\<lparr>rejected_oversize := i\<rparr>) = sq_consistent s"
  "sq_consistent (s\<lparr>rejected_capacity := i\<rparr>) = sq_consistent s"
  "sq_consistent (s\<lparr>sq_closed := b\<rparr>) = sq_consistent s"
  by (simp_all add: sq_consistent_def)

lemma sq_seq_ok:
  assumes "sq_ok K (snd x)" "\<And>v w. x = (Inr v, w) \<Longrightarrow> sq_ok K w \<Longrightarrow> sq_consistent (snd (f v w))"
  shows "sq_consistent (snd (py_seq x f))"
  using assms sq_ok_weaken by (cases x; cases "fst x") auto

text \<open>The old row given to a write is the row of the key, if there is one.\<close>

lemma sq_store_value_ok:
  assumes "sq_consistent s" "old = None \<Longrightarrow> sql_get key (sq_rows s) = None"
    "\<And>r. old = Some r \<Longrightarrow> r_key r = key"
  shows "sq_consistent (snd (sq_store_value key v ttl old s))"
  unfolding sq_store_value_def
proof (rule sq_seq_ok [where K = "{}"], goal_cases)
  case 1
  with assms(1) show ?case using sq_remove_entry_ok(1) [of "{}" s key] by simp
next
  case (2 b s0)
  have s0: "sq_ok {key} s0"
  proof (cases old)
    case None
    with 2(1) assms show ?thesis by (auto simp: sq_ok_def)
  next
    case (Some r)
    with 2(1) assms(1) sq_remove_entry_ok(2) [of "{}" s key b s0] show ?thesis by auto
  qed
  let ?s1 = "s0\<lparr>clock_reads := Suc (clock_reads s0)\<rparr>"
  let ?e = "new_entry v ttl (clock s0 (clock_reads s0))"
  have s1: "sq_ok {key} ?s1" using s0 by simp
  have restore: "sq_consistent (snd (sq_restore old w))" if "sq_ok {key} w" for w
    using that assms(3) by (rule sq_restore_ok)
  have oversize: "sq_consistent (snd (py_seq (sq_restore old ?s1) (\<lambda>_ s2.
      (Inr Set_VALUE_TOO_LARGE, s2\<lparr>rejected_oversize := rejected_oversize s2 + 1\<rparr>))))"
    using restore [OF s1] by (intro sq_seq_ok [where K = "{}"]) simp_all
  have capacity: "sq_consistent (snd (py_seq (sq_restore old w) (\<lambda>_ s3.
      (Inr Set_CAPACITY_EXHAUSTED, s3\<lparr>rejected_capacity := rejected_capacity s3 + 1\<rparr>))))"
    if "sq_ok {key} w" for w
    using restore [OF that] by (intro sq_seq_ok [where K = "{}"]) simp_all
  have insert: "sq_consistent (snd (py_seq (sq_insert_row key ?e w) (\<lambda>_ s4. (Inr Set_OK, s4))))"
    if "sq_ok {key} w" for w
    using sq_insert_row_ok [OF that] by (intro sq_seq_ok [where K = "{}"]) simp_all
  have body: "sq_consistent (snd (py_seq
      (if current_memory_bytes ?s1 + e_size_bytes ?e > max_memory_bytes ?s1
       then sq_evict_to_fit (e_size_bytes ?e) ?s1 else (Inr True, ?s1)) (\<lambda>fits s2.
      if \<not> fits
      then py_seq (sq_restore old s2) (\<lambda>_ s3.
             (Inr Set_CAPACITY_EXHAUSTED, s3\<lparr>rejected_capacity := rejected_capacity s3 + 1\<rparr>))
      else
        py_seq (if old = None then sq_evict_for_new_key s2 else (Inr True, s2)) (\<lambda>room s3.
          if \<not> room then (Inr Set_CAPACITY_EXHAUSTED, s3)
          else py_seq (sq_insert_row key ?e s3) (\<lambda>_ s4. (Inr Set_OK, s4))))))"
  proof (rule sq_seq_ok [where K = "{key}"], goal_cases)
    case 1
    show ?case using s1 sq_evict_to_fit_ok [OF s1] by auto
  next
    case (2 fits s2)
    have "sq_consistent (snd (py_seq (if old = None then sq_evict_for_new_key s2 else (Inr True, s2))
        (\<lambda>room s3. if \<not> room then (Inr Set_CAPACITY_EXHAUSTED, s3)
          else py_seq (sq_insert_row key ?e s3) (\<lambda>_ s4. (Inr Set_OK, s4)))))"
    proof (rule sq_seq_ok [where K = "{key}"], goal_cases)
      case 1
      show ?case using 2(2) sq_evict_for_new_key_ok [OF 2(2)] by auto
    next
      case (2 room s3)
      then show ?case using insert [of s3] sq_ok_weaken [of "{key}" s3] by auto
    qed
    then show ?case using capacity [OF 2(2)] by simp
  qed
  show ?case
    unfolding read_clock_def Let_def prod.case using oversize body by simp
qed

section \<open>The methods\<close>

lemma sq_get_row_Inr:
  "sq_get_row k s = (Inr row, w) \<Longrightarrow> row = sql_get k (sq_rows s) \<and> sq_rows w = sq_rows s"
  by (auto simp: sq_get_row_def dest!: sq_select_Inr)

text \<open>A method that reads the row of its key first: what is left is the branch with that row.\<close>

lemma sq_seq_row_ok:
  assumes "sq_consistent s"
    and "\<And>w. sq_consistent w \<Longrightarrow> sql_get k (sq_rows w) = None \<Longrightarrow> sq_consistent (snd (f None w))"
    and "\<And>r w. sq_consistent w \<Longrightarrow> sql_get k (sq_rows w) = Some r
      \<Longrightarrow> sq_consistent (snd (f (Some r) w))"
  shows "sq_consistent (snd (py_seq (sq_get_row k s) f))"
proof (rule sq_seq_ok [where K = "{}"], goal_cases)
  case 1
  then show ?case using sq_get_row_ok [of "{}" k s] assms(1) by simp
next
  case (2 row w)
  then have w: "sq_consistent w" and row: "row = sql_get k (sq_rows w)"
    using sq_get_row_Inr [OF 2(1)] by auto
  show ?case
  proof (cases row)
    case None
    with assms(2) [OF w] row show ?thesis by simp
  next
    case (Some r)
    with assms(3) [OF w, of r] row show ?thesis by simp
  qed
qed

lemma sq_is_expired_pair:
  "sq_is_expired e s = (b, w) \<Longrightarrow> sq_rows w = sq_rows s \<and> (sq_consistent w \<longleftrightarrow> sq_consistent s)"
  using sq_is_expired_state [of e s] by auto

lemma sq_remove_expired_entry_keeps:
  "sq_consistent s \<Longrightarrow> sq_consistent (snd (sq_remove_expired_entry k s))"
  using sq_remove_expired_entry_ok(1) [of "{}" s k] by simp

lemma sq_seq_keeps:
  assumes "sq_consistent (snd x)" "\<And>v w. x = (Inr v, w) \<Longrightarrow> sq_consistent w \<Longrightarrow> sq_consistent (snd (f v w))"
  shows "sq_consistent (snd (py_seq x f))"
  using assms by (rule py_seq_inv)

lemma sq_get_ok: "sq_consistent s \<Longrightarrow> sq_consistent (snd (sq_get k s))"
proof -
  assume s: "sq_consistent s"
  have touch: "sq_consistent (snd (py_seq (sq_update (sql_touch now k) w)
      (\<lambda>_ w'. (Inr x, w'\<lparr>hits := hits w' + 1\<rparr>))))" if "sq_consistent w" for now w x
    using that by (intro sq_seq_update_ok) (auto dest!: sq_update_Inr simp: sq_consistent_def)
  have "sq_consistent (snd (sq_get_locked k s))"
    unfolding sq_get_locked_def
    by (rule sq_seq_row_ok [OF s])
      (auto simp: Let_def read_clock_def split: prod.split dest!: sq_is_expired_pair
        simp del: py_seq.simps intro!: touch
        sq_seq_keeps [OF sq_remove_expired_entry_keeps])
  then show ?thesis using s by (simp add: sq_get_def split: sum.split)
qed

lemma sq_set_ok: "sq_consistent s \<Longrightarrow> sq_consistent (snd (sq_set k v ttl s))"
proof -
  assume s: "sq_consistent s"
  have "sq_consistent (snd (sq_set_locked k v ttl s))"
    unfolding sq_set_locked_def by (rule sq_seq_row_ok [OF s]) (auto intro!: sq_store_value_ok dest: sql_get_key)
  then show ?thesis using s by (simp add: sq_set_def split: sum.split)
qed

lemma sq_conditional_store_ok:
  assumes "sq_consistent s" "old = None \<Longrightarrow> sql_get key (sq_rows s) = None"
    "\<And>r. old = Some r \<Longrightarrow> r_key r = key"
  shows "sq_consistent (snd (sq_conditional_store key v ttl old s))"
  unfolding sq_conditional_store_def
  using sq_store_value_ok [OF assms] by (intro sq_seq_keeps) simp_all

lemma sq_set_if_absent_ok: "sq_consistent s \<Longrightarrow> sq_consistent (snd (sq_set_if_absent k v ttl s))"
proof -
  assume s: "sq_consistent s"
  have expired: "sq_consistent (snd (py_seq (sq_remove_expired_entry k w)
      (\<lambda>_ w'. sq_conditional_store k v ttl None w')))" if "sq_consistent w" for w
    by (rule sq_seq_keeps [OF sq_remove_expired_entry_keeps [OF that]])
      (use sq_remove_expired_entry_ok(2) [of "{}" w k] that in
        \<open>auto simp: sq_ok_def intro!: sq_conditional_store_ok\<close>)
  have "sq_consistent (snd (sq_set_if_absent_locked k v ttl s))"
    unfolding sq_set_if_absent_locked_def
    by (rule sq_seq_row_ok [OF s])
      (auto simp: Let_def split: prod.split dest!: sq_is_expired_pair
        intro!: expired sq_conditional_store_ok)
  then show ?thesis using s by (simp add: sq_set_if_absent_def split: sum.split)
qed

lemma sq_compare_and_set_ok:
  "sq_consistent s \<Longrightarrow> sq_consistent (snd (sq_compare_and_set k x v ttl s))"
proof -
  assume s: "sq_consistent s"
  have "sq_consistent (snd (sq_compare_and_set_locked k x v ttl s))"
    unfolding sq_compare_and_set_locked_def
    by (rule sq_seq_row_ok [OF s])
      (auto simp: Let_def split: prod.split dest!: sq_is_expired_pair
        intro!: sq_conditional_store_ok sq_seq_keeps sq_remove_expired_entry_keeps dest: sql_get_key)
  then show ?thesis using s by (simp add: sq_compare_and_set_def split: sum.split)
qed

lemma sq_delete_ok: "sq_consistent s \<Longrightarrow> sq_consistent (snd (sq_delete k s))"
  using sq_remove_entry_ok(1) [of "{}" s k] by (simp add: sq_delete_def split: sum.split)

lemma sq_remove_expired_rows_ok:
  "sq_consistent s \<Longrightarrow> sq_consistent (snd (sq_remove_expired_rows rows s))"
proof (induction rows s rule: sq_remove_expired_rows.induct)
  case (2 row rows s)
  obtain b s1 where ex: "sq_is_expired (row_to_entry row) s = (b, s1)" by fastforce
  with 2(3) have s1: "sq_consistent s1" by (auto dest!: sq_is_expired_pair)
  show ?case
  proof (cases b)
    case True
    have "sq_consistent (snd (py_seq (sq_remove_expired_entry (r_key row) s1)
        (\<lambda>_ s2. sq_remove_expired_rows rows s2)))"
      by (rule sq_seq_keeps [OF sq_remove_expired_entry_keeps [OF s1]])
        (use 2(1) ex True in auto)
    with ex True show ?thesis by simp
  next
    case False
    with ex s1 2(2) show ?thesis by auto
  qed
qed simp

lemma sq_select_keeps [simp]: "sq_consistent (snd (sq_select q s)) = sq_consistent s"
  using sq_select_ok [of "{}" q s] by (simp only: sq_ok_empty)

lemma sq_remove_expired_entries_ok:
  "sq_consistent s \<Longrightarrow> sq_consistent (snd (sq_remove_expired_entries s))"
  unfolding sq_remove_expired_entries_def by (rule sq_seq_keeps) (simp_all add: sq_remove_expired_rows_ok)

lemma sq_stats_ok: "sq_consistent s \<Longrightarrow> sq_consistent (snd (sq_stats s))"
  unfolding sq_stats_def Let_def
  by (rule sq_seq_keeps) (simp_all add: sq_remove_expired_entries_ok)

lemma sq_clear_ok: "sq_consistent s \<Longrightarrow> sq_consistent (snd (sq_clear s))"
  unfolding sq_clear_def
  by (rule sq_seq_update_ok) (auto dest!: sq_update_Inr simp: sq_consistent_def)

lemma sq_remove_if_expired_ok: "sq_consistent s \<Longrightarrow> sq_consistent (snd (sq_remove_if_expired k s))"
  unfolding sq_remove_if_expired_def
  by (rule sq_seq_row_ok)
    (auto simp: Let_def split: prod.split dest!: sq_is_expired_pair
      intro!: sq_seq_keeps sq_remove_expired_entry_keeps)

lemma sq_snapshot_items_ok: "sq_consistent s \<Longrightarrow> sq_consistent (snd (sq_snapshot_items s))"
  unfolding sq_snapshot_items_def by (rule sq_seq_keeps) simp_all

section \<open>Runs\<close>

fun sq_exec :: "store_op \<Rightarrow> sqlite_store \<Rightarrow> sqlite_store" where
  "sq_exec (Op_get k) s = snd (sq_get k s)"
| "sq_exec (Op_set k v ttl) s = snd (sq_set k v ttl s)"
| "sq_exec (Op_set_if_absent k v ttl) s = snd (sq_set_if_absent k v ttl s)"
| "sq_exec (Op_compare_and_set k x v ttl) s = snd (sq_compare_and_set k x v ttl s)"
| "sq_exec (Op_delete k) s = snd (sq_delete k s)"
| "sq_exec Op_stats s = snd (sq_stats s)"
| "sq_exec Op_clear s = snd (sq_clear s)"
| "sq_exec (Op_remove_if_expired k) s = snd (sq_remove_if_expired k s)"

fun sq_run :: "store_op list \<Rightarrow> sqlite_store \<Rightarrow> sqlite_store" where
  "sq_run [] s = s"
| "sq_run (op # ops) s = sq_run ops (sq_exec op s)"

lemma sq_exec_ok: "sq_consistent s \<Longrightarrow> sq_consistent (sq_exec op s)"
  by (cases op)
    (simp_all add: sq_get_ok sq_set_ok sq_set_if_absent_ok sq_compare_and_set_ok sq_delete_ok
      sq_stats_ok sq_clear_ok sq_remove_if_expired_ok)

lemma sq_run_ok: "sq_consistent s \<Longrightarrow> sq_consistent (sq_run ops s)"
  by (induction ops s rule: sq_run.induct) (simp_all add: sq_exec_ok)

lemma fst_Inr_iff: "fst x = Inr v \<longleftrightarrow> (\<exists>w. x = (Inr v, w))"
  by (cases x) auto

lemma sq_init_Inr:
  assumes "sq_init rows faults mi mm ci mv clk = Inr s"
  shows "\<exists>limits n. cache_store_limits_resolve mi mm ci mv = Inr limits \<and>
    s = \<lparr> max_items = lim_max_items limits, max_memory_bytes = lim_max_memory_bytes limits,
          max_value_bytes = lim_max_value_bytes limits, cleanup_interval = lim_cleanup_interval limits,
          current_memory_bytes = rows_size rows, hits = 0, misses = 0, evictions = 0,
          lru_evictions = 0, expired_removals = 0, rejected_oversize = 0, rejected_capacity = 0,
          clock = clk, clock_reads = 0, sq_rows = rows, sq_entry_count = int (length rows),
          sq_faults = faults, sq_statements = n, sq_closed = False \<rparr>"
  using assms
  by (auto simp: sq_init_def py_simps fst_Inr_iff Let_def rows_size_def sq_configure_connection_def
      sq_initialize_schema_def sq_load_current_memory_bytes_def sq_load_entry_count_def
      dest!: sq_select_Inr sq_update_Inr)

lemma sq_init_ok:
  assumes "sq_init rows faults mi mm ci mv clk = Inr s" "distinct (map r_key rows)"
  shows "sq_consistent s"
  using sq_init_Inr [OF assms(1)] assms(2) by (auto simp: sq_consistent_def)

end
