(* ===== verification/SqliteBackend.thy ===== *)
theory SqliteBackend
  imports SqliteInvariant
begin

text \<open>
  The SQLite backend while its connection works: the closed forms of its methods, the eviction order,
  and the port contract the application relies on.
\<close>

section \<open>A working connection\<close>

definition sq_healthy :: "sqlite_store \<Rightarrow> bool" where
  "sq_healthy s \<longleftrightarrow> \<not> sq_closed s \<and> (\<forall>n. \<not> sq_faults s n)"

definition sq_inv :: "sqlite_store \<Rightarrow> bool" where
  "sq_inv s \<longleftrightarrow> sq_consistent s \<and> sq_healthy s \<and> 1 \<le> max_items s \<and>
     max_value_bytes s \<le> max_memory_bytes s"

lemma sq_select_healthy:
  "sq_healthy s \<Longrightarrow> sq_select q s = (Inr (q (sq_rows s)), s\<lparr>sq_statements := Suc (sq_statements s)\<rparr>)"
  by (cases s) (simp add: sq_healthy_def sq_select_def sq_execute_def Let_def)

lemma sq_update_healthy:
  "sq_healthy s \<Longrightarrow> sq_update f s =
     (Inr (), s\<lparr>sq_statements := Suc (sq_statements s), sq_rows := f (sq_rows s)\<rparr>)"
  by (simp add: sq_healthy_def sq_update_def sq_execute_def Let_def)

lemma sq_healthy_frame [simp]:
  "sq_healthy (s\<lparr>sq_statements := n\<rparr>) = sq_healthy s" "sq_healthy (s\<lparr>sq_rows := rows\<rparr>) = sq_healthy s"
  "sq_healthy (s\<lparr>clock_reads := n\<rparr>) = sq_healthy s" "sq_healthy (s\<lparr>current_memory_bytes := i\<rparr>) = sq_healthy s"
  "sq_healthy (s\<lparr>sq_entry_count := i\<rparr>) = sq_healthy s" "sq_healthy (s\<lparr>hits := i\<rparr>) = sq_healthy s"
  "sq_healthy (s\<lparr>misses := i\<rparr>) = sq_healthy s" "sq_healthy (s\<lparr>evictions := i\<rparr>) = sq_healthy s"
  "sq_healthy (s\<lparr>lru_evictions := i\<rparr>) = sq_healthy s"
  "sq_healthy (s\<lparr>expired_removals := i\<rparr>) = sq_healthy s"
  "sq_healthy (s\<lparr>rejected_oversize := i\<rparr>) = sq_healthy s"
  "sq_healthy (s\<lparr>rejected_capacity := i\<rparr>) = sq_healthy s"
  by (simp_all add: sq_healthy_def)

text \<open>The store with another table and the counters that go with it.\<close>

definition with_table :: "sqlite_row list \<Rightarrow> sqlite_store \<Rightarrow> sqlite_store" where
  "with_table rows s =
     s\<lparr>sq_rows := rows, current_memory_bytes := rows_size rows, sq_entry_count := int (length rows)\<rparr>"

lemma with_table_simps [simp]:
  "sq_rows (with_table rows s) = rows" "current_memory_bytes (with_table rows s) = rows_size rows"
  "sq_entry_count (with_table rows s) = int (length rows)"
  "max_items (with_table rows s) = max_items s"
  "max_memory_bytes (with_table rows s) = max_memory_bytes s"
  "max_value_bytes (with_table rows s) = max_value_bytes s"
  "clock (with_table rows s) = clock s" "clock_reads (with_table rows s) = clock_reads s"
  "sq_healthy (with_table rows s) = sq_healthy s"
  "(with_table rows s)\<lparr>sq_statements := n\<rparr> = with_table rows (s\<lparr>sq_statements := n\<rparr>)"
  "(with_table rows s)\<lparr>clock_reads := n\<rparr> = with_table rows (s\<lparr>clock_reads := n\<rparr>)"
  "with_table rows (with_table rows' s) = with_table rows s"
  by (simp_all add: with_table_def)

lemma with_table_id: "sq_consistent s \<Longrightarrow> with_table (sq_rows s) s = s"
  by (simp add: with_table_def sq_consistent_def)

lemma sq_consistent_with_table: "sq_consistent (with_table rows s) \<longleftrightarrow> distinct (map r_key rows)"
  by (simp add: sq_consistent_def)

lemma sq_remove_entry_healthy:
  assumes "sq_healthy s" "sq_consistent s"
  shows "\<exists>n. sq_remove_entry k s =
    (Inr (sql_get k (sq_rows s) \<noteq> None), with_table (sql_delete k (sq_rows s)) (s\<lparr>sq_statements := n\<rparr>))"
proof (cases "sql_get k (sq_rows s)")
  case None
  with assms show ?thesis
    using with_table_id [of "s\<lparr>sq_statements := n\<rparr>" for n]
    by (auto simp: sq_remove_entry_def sq_get_row_def sq_select_healthy sql_delete_absent)
next
  case (Some r)
  with assms sql_delete_counts [OF _ Some] show ?thesis
    by (auto simp: sq_remove_entry_def sq_get_row_def sq_select_healthy sq_update_healthy
        with_table_def sq_consistent_def)
qed

section \<open>Eviction order\<close>

lemma sql_oldest_None [simp]: "sql_oldest rows = None \<longleftrightarrow> rows = []"
  by (cases rows) (auto split: option.splits)

lemma sql_oldest_least:
  "sql_oldest rows = Some r \<Longrightarrow>
     r \<in> set rows \<and> (\<forall>r' \<in> set rows. r_last_accessed r \<le> r_last_accessed r')"
  by (induction rows arbitrary: r) (fastforce split: option.splits if_splits)+

text \<open>
  What is left of the rows when the least recently accessed one is deleted until \<open>P\<close> holds.
\<close>

function lru_until :: "(sqlite_row list \<Rightarrow> bool) \<Rightarrow> sqlite_row list \<Rightarrow> sqlite_row list" where
  "lru_until P rows =
     (case sql_oldest rows of
        None \<Rightarrow> []
      | Some r \<Rightarrow> if P rows then rows else lru_until P (sql_delete (r_key r) rows))"
  by pat_completeness auto
termination
  by (relation "measure (\<lambda>(_, rows). length rows)")
    (auto dest!: sql_oldest_least simp: sql_delete_def intro!: length_filter_less)

declare lru_until.simps [simp del]

lemma lru_until_holds: "P [] \<Longrightarrow> P (lru_until P rows)"
  by (induction P rows rule: lru_until.induct)
    (subst lru_until.simps, auto split: option.split)

lemma lru_until_id: "P rows \<Longrightarrow> lru_until P rows = rows"
  by (subst lru_until.simps) (auto split: option.split)

lemma sql_delete_subset: "set (sql_delete k rows) \<subseteq> set rows"
  by (auto simp: sql_delete_def)

lemma lru_until_step:
  "sql_oldest rows = Some m \<Longrightarrow> \<not> P rows \<Longrightarrow> lru_until P rows = lru_until P (sql_delete (r_key m) rows)"
  by (subst lru_until.simps) simp

lemma lru_until_Nil [simp]: "lru_until P [] = []"
  by (simp add: lru_until.simps)

lemma lru_until_subset: "set (lru_until P rows) \<subseteq> set rows"
proof (induction P rows rule: lru_until.induct)
  case (1 P rows)
  show ?case
  proof (cases "rows = [] \<or> P rows")
    case True
    then show ?thesis by (auto simp: lru_until_id)
  next
    case False
    then obtain m where m: "sql_oldest rows = Some m" using sql_oldest_None by blast
    with False 1 [OF m] sql_delete_subset [of "r_key m" rows] show ?thesis
      by (simp add: lru_until_step)
  qed
qed

lemma sql_get_distinct:
  "distinct (map r_key rows) \<Longrightarrow> r \<in> set rows \<Longrightarrow> sql_get (r_key r) rows = Some r"
  by (induction rows) (auto simp: rev_image_eqI)

lemma distinct_sql_delete: "distinct (map r_key rows) \<Longrightarrow> distinct (map r_key (sql_delete k rows))"
  by (simp add: sql_delete_keys)

lemma lru_until_distinct: "distinct (map r_key rows) \<Longrightarrow> distinct (map r_key (lru_until P rows))"
  by (induction P rows rule: lru_until.induct)
    (subst lru_until.simps, auto split: option.split simp: distinct_sql_delete)

text \<open>Every row that went was accessed no later than any that stays.\<close>

lemma lru_until_order:
  "distinct (map r_key rows) \<Longrightarrow> r \<in> set rows - set (lru_until P rows) \<Longrightarrow>
     r' \<in> set (lru_until P rows) \<Longrightarrow> r_last_accessed r \<le> r_last_accessed r'"
proof (induction P rows rule: lru_until.induct)
  case (1 P rows)
  show ?case
  proof (cases "sql_oldest rows")
    case None
    with 1 show ?thesis by simp
  next
    case (Some m)
    show ?thesis
    proof (cases "P rows")
      case True
      with 1(3) show ?thesis by (simp add: lru_until_id)
    next
      case False
      with Some have step: "lru_until P rows = lru_until P (sql_delete (r_key m) rows)"
        by (simp add: lru_until_step)
      have m: "m \<in> set rows" "\<forall>r' \<in> set rows. r_last_accessed m \<le> r_last_accessed r'"
        using sql_oldest_least [OF Some] by auto
      have r': "r' \<in> set rows" using 1(4) lru_until_subset by blast
      show ?thesis
      proof (cases "r \<in> set (sql_delete (r_key m) rows)")
        case True
        with 1 Some False step show ?thesis by (auto simp: distinct_sql_delete)
      next
        case False
        with 1(3) have "r_key r = r_key m" by (auto simp: sql_delete_def)
        with sql_get_distinct [OF 1(2), of r] sql_get_distinct [OF 1(2), of m] 1(3) m(1)
        have "r = m" by simp
        with m(2) r' show ?thesis by simp
      qed
    qed
  qed
qed

text \<open>No more rows go than needed: with one more row, the last one deleted, \<open>P\<close> does not hold.\<close>

lemma lru_until_needed:
  assumes "lru_until P rows \<noteq> rows"
  shows "\<exists>rows' m. \<not> P rows' \<and> set rows' \<subseteq> set rows \<and> sql_oldest rows' = Some m \<and>
    lru_until P rows = sql_delete (r_key m) rows'"
  using assms
proof (induction P rows rule: lru_until.induct)
  case (1 P rows)
  show ?case
  proof (cases "sql_oldest rows")
    case None
    with 1(2) show ?thesis by (auto simp: lru_until.simps)
  next
    case (Some m)
    show ?thesis
    proof (cases "P rows")
      case True
      with 1(2) show ?thesis by (simp add: lru_until_id)
    next
      case False
      with Some have step: "lru_until P rows = lru_until P (sql_delete (r_key m) rows)"
        by (simp add: lru_until_step)
      show ?thesis
      proof (cases "lru_until P (sql_delete (r_key m) rows) = sql_delete (r_key m) rows")
        case True
        with False Some step show ?thesis by (intro exI [of _ rows] exI [of _ m]) simp
      next
        case not_id: False
        with 1(1) [OF Some False not_id] step sql_delete_subset show ?thesis by fastforce
      qed
    qed
  qed
qed

section \<open>The eviction loops in closed form\<close>

definition sq_evicted :: "sqlite_row list \<Rightarrow> nat \<Rightarrow> sqlite_store \<Rightarrow> sqlite_store" where
  "sq_evicted rows n s =
     (let k = int (length (sq_rows s)) - int (length rows)
      in (with_table rows (s\<lparr>sq_statements := n\<rparr>))
           \<lparr>evictions := evictions s + k, lru_evictions := lru_evictions s + k\<rparr>)"

lemma sq_evicted_simps [simp]:
  "sq_rows (sq_evicted rows n s) = rows" "sq_consistent (sq_evicted rows n s) = distinct (map r_key rows)"
  "sq_healthy (sq_evicted rows n s) = sq_healthy s"
  "current_memory_bytes (sq_evicted rows n s) = rows_size rows"
  "sq_entry_count (sq_evicted rows n s) = int (length rows)"
  "max_items (sq_evicted rows n s) = max_items s"
  "max_memory_bytes (sq_evicted rows n s) = max_memory_bytes s"
  "max_value_bytes (sq_evicted rows n s) = max_value_bytes s"
  "clock (sq_evicted rows n s) = clock s" "clock_reads (sq_evicted rows n s) = clock_reads s"
  "sq_evicted rows' n' (sq_evicted rows n s) = sq_evicted rows' n' s"
  by (simp_all add: sq_evicted_def Let_def sq_consistent_def with_table_def)

lemma sq_evicted_self: "sq_consistent s \<Longrightarrow> sq_evicted (sq_rows s) (sq_statements s) s = s"
  using with_table_id [of s] by (simp add: sq_evicted_def)

lemma sq_evict_lru_healthy:
  assumes "sq_healthy s" "sq_consistent s" "sql_oldest (sq_rows s) = Some m"
  shows "\<exists>n. sq_evict_lru s = (Inr True, sq_evicted (sql_delete (r_key m) (sq_rows s)) n s)"
proof -
  let ?s1 = "s\<lparr>sq_statements := Suc (sq_statements s)\<rparr>"
  have m: "sql_get (r_key m) (sq_rows s) = Some m"
    using assms(2) sql_oldest_least [OF assms(3)] by (simp add: sq_consistent_def sql_get_distinct)
  have len: "int (length (sq_rows s)) - int (length (sql_delete (r_key m) (sq_rows s))) = 1"
    using sql_delete_counts(2) [OF _ m] assms(2) by (simp add: sq_consistent_def)
  obtain n where "sq_remove_entry (r_key m) ?s1 =
      (Inr True, with_table (sql_delete (r_key m) (sq_rows s)) (s\<lparr>sq_statements := n\<rparr>))"
    using sq_remove_entry_healthy [of ?s1 "r_key m"] assms m by auto
  with assms len show ?thesis
    by (auto simp: sq_evict_lru_def sq_select_healthy sq_evicted_def with_table_def Let_def)
qed

lemma sq_evict_to_fit_healthy:
  "sq_healthy s \<Longrightarrow> sq_consistent s \<Longrightarrow>
   \<exists>n. sq_evict_to_fit req s =
     (let rows = lru_until (\<lambda>rows. rows_size rows + req \<le> max_memory_bytes s) (sq_rows s)
      in (Inr (rows_size rows + req \<le> max_memory_bytes s), sq_evicted rows n s))"
proof (induction "length (sq_rows s)" arbitrary: s rule: less_induct)
  case less
  let ?P = "\<lambda>rows. rows_size rows + req \<le> max_memory_bytes s"
  have mem: "current_memory_bytes s = rows_size (sq_rows s)" "sq_entry_count s = int (length (sq_rows s))"
    using less.prems(2) by (simp_all add: sq_consistent_def)
  show ?case
  proof (cases "sq_rows s = [] \<or> ?P (sq_rows s)")
    case True
    then have "sq_evict_to_fit req s = (Inr (?P (sq_rows s)), s)" "lru_until ?P (sq_rows s) = sq_rows s"
      using mem by (auto simp: sq_evict_to_fit.simps [of req s] lru_until_id)
    with sq_evicted_self [OF less.prems(2)] show ?thesis
      by (intro exI [of _ "sq_statements s"]) (simp add: Let_def)
  next
    case False
    then obtain m where m: "sql_oldest (sq_rows s) = Some m" using sql_oldest_None by blast
    let ?rows = "sql_delete (r_key m) (sq_rows s)"
    from sq_evict_lru_healthy [OF less.prems m] obtain n where
      ev: "sq_evict_lru s = (Inr True, sq_evicted ?rows n s)" by auto
    have "length ?rows < length (sq_rows s)" using sq_evict_lru_shrinks [OF ev] by simp
    with less.hyps [of "sq_evicted ?rows n s"] less.prems obtain n' where
      "sq_evict_to_fit req (sq_evicted ?rows n s) =
        (let rows = lru_until ?P ?rows in (Inr (?P rows), sq_evicted rows n' s))"
      by (auto simp: sq_consistent_def distinct_sql_delete)
    with False mem ev lru_until_step [OF m, of ?P] show ?thesis
      by (auto simp: sq_evict_to_fit.simps [of req s])
  qed
qed

lemma sq_evict_for_new_key_healthy:
  "sq_healthy s \<Longrightarrow> sq_consistent s \<Longrightarrow> 1 \<le> max_items s \<Longrightarrow>
   \<exists>n. sq_evict_for_new_key s =
     (Inr True, sq_evicted (lru_until (\<lambda>rows. int (length rows) < max_items s) (sq_rows s)) n s)"
proof (induction "length (sq_rows s)" arbitrary: s rule: less_induct)
  case less
  let ?P = "\<lambda>rows. int (length rows) < max_items s"
  have count: "sq_entry_count s = int (length (sq_rows s))"
    using less.prems(2) by (simp add: sq_consistent_def)
  show ?case
  proof (cases "?P (sq_rows s)")
    case True
    then have "sq_evict_for_new_key s = (Inr True, s)" "lru_until ?P (sq_rows s) = sq_rows s"
      using count by (auto simp: sq_evict_for_new_key.simps [of s] lru_until_id)
    with sq_evicted_self [OF less.prems(2)] show ?thesis
      by (intro exI [of _ "sq_statements s"]) simp
  next
    case False
    with less.prems(3) have "sq_rows s \<noteq> []" by auto
    then obtain m where m: "sql_oldest (sq_rows s) = Some m" using sql_oldest_None by blast
    let ?rows = "sql_delete (r_key m) (sq_rows s)"
    from sq_evict_lru_healthy [OF less.prems(1,2) m] obtain n where
      ev: "sq_evict_lru s = (Inr True, sq_evicted ?rows n s)" by auto
    have "length ?rows < length (sq_rows s)" using sq_evict_lru_shrinks [OF ev] by simp
    with less.hyps [of "sq_evicted ?rows n s"] less.prems obtain n' where
      "sq_evict_for_new_key (sq_evicted ?rows n s) = (Inr True, sq_evicted (lru_until ?P ?rows) n' s)"
      by (auto simp: sq_consistent_def distinct_sql_delete)
    with False count ev lru_until_step [OF m, of ?P] show ?thesis
      by (auto simp: sq_evict_for_new_key.simps [of s])
  qed
qed

section \<open>Writes in closed form\<close>

definition sq_setup ::
    "sqlite_store \<Rightarrow> int \<times> int \<times> int \<times> (nat \<Rightarrow> real) \<times> (nat \<Rightarrow> bool) \<times> bool" where
  "sq_setup s =
     (max_items s, max_memory_bytes s, max_value_bytes s, clock s, sq_faults s, sq_closed s)"

lemma sq_setup_healthy: "sq_setup s' = sq_setup s \<Longrightarrow> sq_healthy s' = sq_healthy s"
  by (simp add: sq_setup_def sq_healthy_def)

lemma sq_inv_setup: "sq_inv s \<Longrightarrow> sq_setup s' = sq_setup s \<Longrightarrow> sq_consistent s' \<Longrightarrow> sq_inv s'"
  using sq_setup_healthy [of s' s] by (auto simp: sq_inv_def) (auto simp: sq_setup_def)

text \<open>
  The rows a write of \<open>sz\<close> bytes under \<open>key\<close> keeps: all but the key's own, minus the least recently
  accessed ones that have to go to make room for the bytes and, for a new key, for one more item.
\<close>

definition sq_kept :: "string \<Rightarrow> int \<Rightarrow> sqlite_store \<Rightarrow> sqlite_row list" where
  "sq_kept key sz s =
     (let d1 = lru_until (\<lambda>rows. rows_size rows + sz \<le> max_memory_bytes s) (sql_delete key (sq_rows s))
      in if sql_get key (sq_rows s) \<noteq> None then d1
         else lru_until (\<lambda>rows. int (length rows) < max_items s) d1)"

text \<open>The row of a write whose entry was created at \<open>now\<close> and which was stored at \<open>later\<close>.\<close>

definition new_row :: "string \<Rightarrow> bytes \<Rightarrow> int option \<Rightarrow> real \<Rightarrow> real \<Rightarrow> sqlite_row" where
  "new_row key v ttl now later =
     \<lparr> r_key = key, r_value = v, r_ttl = e_ttl (new_entry v ttl now), r_created_at = now,
       r_last_accessed = later, r_size_bytes = sys_getsizeof v \<rparr>"

lemma new_row_simps [simp]:
  "r_key (new_row key v ttl now later) = key" "r_value (new_row key v ttl now later) = v"
  "r_size_bytes (new_row key v ttl now later) = sys_getsizeof v"
  by (simp_all add: new_row_def)

lemma sq_restore_healthy:
  assumes "sq_healthy s" "sql_get k (sq_rows s) = None" "\<And>r. old = Some r \<Longrightarrow> r_key r = k"
  shows "\<exists>s'. sq_restore old s = (Inr (), s') \<and> sq_setup s' = sq_setup s \<and>
    sq_rows s' = (case old of None \<Rightarrow> sq_rows s | Some r \<Rightarrow> sq_rows s @ [r]) \<and>
    clock_reads s' = clock_reads s"
  using assms
  by (cases old)
    (auto simp: sq_restore_def sq_restore_row_def sq_update_healthy sq_setup_def
      sql_insert_or_replace_def sql_delete_absent)

lemma sq_insert_row_healthy:
  assumes "sq_healthy s" "sql_get k (sq_rows s) = None"
  shows "\<exists>s'. sq_insert_row k (new_entry v ttl now) s = (Inr (), s') \<and> sq_setup s' = sq_setup s \<and>
    sq_rows s' = sq_rows s @ [new_row k v ttl now (next_reading s)]"
  using assms
  by (simp add: sq_insert_row_def sq_update_healthy read_clock_def next_reading_def
      sql_insert_or_replace_def sql_delete_absent new_row_def)
    (simp add: sq_setup_def)

lemma sql_get_subset: "set rows' \<subseteq> set rows \<Longrightarrow> sql_get k rows = None \<Longrightarrow> sql_get k rows' = None"
  by (auto simp: sql_get_None)

lemma sq_setup_frame [simp]:
  "sq_setup (s\<lparr>sq_statements := n\<rparr>) = sq_setup s" "sq_setup (s\<lparr>clock_reads := n\<rparr>) = sq_setup s"
  "sq_setup (s\<lparr>rejected_oversize := i\<rparr>) = sq_setup s" "sq_setup (s\<lparr>hits := i\<rparr>) = sq_setup s"
  "sq_setup (s\<lparr>misses := i\<rparr>) = sq_setup s" "sq_setup (s\<lparr>expired_removals := i\<rparr>) = sq_setup s"
  "sq_setup (sq_evicted rows n s) = sq_setup s" "sq_setup (with_table rows s) = sq_setup s"
  by (simp_all add: sq_setup_def sq_evicted_def with_table_def Let_def)

text \<open>The write from the state in which the key's row is gone: the value fits, or it does not.\<close>

lemma sq_store_value_healthy:
  assumes inv: "sq_inv s" and old: "old = sql_get key (sq_rows s)"
  shows "\<exists>s'. sq_store_value key v ttl old s =
      (Inr (if sys_getsizeof v > max_value_bytes s then Set_VALUE_TOO_LARGE else Set_OK), s') \<and>
    sq_setup s' = sq_setup s \<and>
    sq_rows s' =
      (if sys_getsizeof v > max_value_bytes s
       then (case old of None \<Rightarrow> sq_rows s | Some r \<Rightarrow> sql_delete key (sq_rows s) @ [r])
       else sq_kept key (sys_getsizeof v) s @
         [new_row key v ttl (next_reading s) (clock s (Suc (clock_reads s)))])"
proof -
  let ?sz = "sys_getsizeof v"
  let ?d0 = "sql_delete key (sq_rows s)"
  have healthy: "sq_healthy s" and cons: "sq_consistent s" and items: "1 \<le> max_items s"
    and lim: "max_value_bytes s \<le> max_memory_bytes s"
    using inv by (auto simp: sq_inv_def)
  obtain b n0 where removed: "(if old \<noteq> None then sq_remove_entry key s else (Inr True, s)) =
      (Inr b, with_table ?d0 (s\<lparr>sq_statements := n0\<rparr>))"
  proof (cases old)
    case None
    with old with_table_id [OF cons] show ?thesis
      using that [of True "sq_statements s"] by (simp add: sql_delete_absent)
  next
    case (Some r)
    with sq_remove_entry_healthy [OF healthy cons, of key] show ?thesis using that by auto
  qed
  let ?s1 = "with_table ?d0 (s\<lparr>sq_statements := n0, clock_reads := Suc (clock_reads s)\<rparr>)"
  have s1: "(with_table ?d0 (s\<lparr>sq_statements := n0\<rparr>))
      \<lparr>clock_reads := Suc (clock_reads (with_table ?d0 (s\<lparr>sq_statements := n0\<rparr>)))\<rparr> = ?s1"
    by simp
  have absent: "sql_get key ?d0 = None" by simp
  have dist: "distinct (map r_key ?d0)"
    using cons by (simp add: sq_consistent_def distinct_sql_delete)
  have oldkey: "r_key r = key" if "old = Some r" for r
    using that old sql_get_key [of key "sq_rows s" r] by simp
  show ?thesis
  proof (cases "?sz > max_value_bytes s")
    case True
    obtain s2 where "sq_restore old ?s1 = (Inr (), s2)" "sq_setup s2 = sq_setup s"
      "sq_rows s2 = (case old of None \<Rightarrow> ?d0 | Some r \<Rightarrow> ?d0 @ [r])"
      using sq_restore_healthy [of ?s1 key old] healthy oldkey
      by (auto cong: option.case_cong)
    with True removed old show ?thesis
      by (auto simp: sq_store_value_def read_clock_def sql_delete_absent split: option.splits)
  next
    case False
    let ?P = "\<lambda>rows. rows_size rows + ?sz \<le> max_memory_bytes s"
    let ?d1 = "lru_until ?P ?d0"
    have fits: "?P ?d1" using False lim by (intro lru_until_holds [where P = ?P]) simp
    obtain n1 where ev1: "(if current_memory_bytes ?s1 + ?sz > max_memory_bytes ?s1
        then sq_evict_to_fit ?sz ?s1 else (Inr True, ?s1)) = (Inr True, sq_evicted ?d1 n1 ?s1)"
    proof (cases "?P ?d0")
      case True
      with sq_evicted_self [of ?s1] dist show ?thesis
        using that [of "sq_statements ?s1"] by (simp add: lru_until_id sq_consistent_with_table)
    next
      case False
      with sq_evict_to_fit_healthy [of ?s1 ?sz] healthy dist fits show ?thesis
        using that by (auto simp: sq_consistent_with_table Let_def)
    qed
    let ?Q = "\<lambda>rows. int (length rows) < max_items s"
    define d2 where "d2 = (if old = None then lru_until ?Q ?d1 else ?d1)"
    have dist1: "distinct (map r_key ?d1)" using dist by (rule lru_until_distinct)
    obtain n2 where ev2: "(if old = None then sq_evict_for_new_key (sq_evicted ?d1 n1 ?s1)
        else (Inr True, sq_evicted ?d1 n1 ?s1)) = (Inr True, sq_evicted d2 n2 ?s1)"
    proof (cases old)
      case None
      then have "d2 = lru_until ?Q ?d1" by (simp add: d2_def)
      with None sq_evict_for_new_key_healthy [of "sq_evicted ?d1 n1 ?s1"] healthy dist1 items show ?thesis
        using that by auto
    next
      case (Some r)
      then show ?thesis using that [of n1] by (simp add: d2_def)
    qed
    have sub: "set d2 \<subseteq> set ?d0"
      using lru_until_subset [of ?P ?d0] lru_until_subset [of ?Q ?d1] by (auto simp: d2_def split: if_splits)
    obtain s3 where "sq_insert_row key (new_entry v ttl (next_reading s)) (sq_evicted d2 n2 ?s1) =
        (Inr (), s3)" "sq_setup s3 = sq_setup s"
      "sq_rows s3 = d2 @ [new_row key v ttl (next_reading s) (clock s (Suc (clock_reads s)))]"
      using sq_insert_row_healthy [of "sq_evicted d2 n2 ?s1" key "next_reading s" v ttl] healthy sql_get_subset [OF sub absent]
      by (auto simp: next_reading_def)
    moreover have "sq_kept key ?sz s = d2" using old by (simp add: sq_kept_def Let_def d2_def)
    ultimately show ?thesis
      unfolding sq_store_value_def removed py_seq.simps read_clock_def Let_def prod.case s1
        cache_entry_init_simps ev1 not_True_eq_False if_False ev2
      using False by (simp add: next_reading_def)
  qed
qed

section \<open>The methods on a working connection\<close>

lemma sq_is_expired_eq:
  "\<exists>n. sq_is_expired e s = (expired_at (next_reading s) e, s\<lparr>clock_reads := n\<rparr>)"
  by (cases s)
    (auto simp: sq_is_expired_def expired_at_def next_reading_def read_clock_def split: option.split)

lemma sq_probe_expired:
  "\<exists>n. sq_is_expired e (s\<lparr>sq_statements := m\<rparr>) =
     (expired_at (next_reading s) e, s\<lparr>sq_statements := m, clock_reads := n\<rparr>)"
  using sq_is_expired_eq [of e "s\<lparr>sq_statements := m\<rparr>"] by (simp add: next_reading_def)

lemma sq_remove_expired_entry_healthy:
  assumes "sq_healthy s" "sq_consistent s"
  shows "\<exists>b s'. sq_remove_expired_entry k s = (Inr b, s') \<and> sq_setup s' = sq_setup s \<and>
    sq_rows s' = sql_delete k (sq_rows s)"
  using sq_remove_entry_healthy [OF assms, of k] by (auto simp: sq_remove_expired_entry_def)

definition sq_dead :: "string \<Rightarrow> sqlite_store \<Rightarrow> bool" where
  "sq_dead k s \<longleftrightarrow>
     (case sql_get k (sq_rows s) of
        None \<Rightarrow> True | Some r \<Rightarrow> expired_at (next_reading s) (row_to_entry r))"

text \<open>The table a reading method decides on: an expired row of the key is removed.\<close>

definition sq_probed :: "string \<Rightarrow> sqlite_store \<Rightarrow> sqlite_row list" where
  "sq_probed k s = (if sq_dead k s then sql_delete k (sq_rows s) else sq_rows s)"

lemma sq_inv_parts:
  assumes "sq_inv s"
  shows "sq_healthy s" "sq_consistent s" "sq_healthy (s\<lparr>sq_statements := n\<rparr>)"
    "sq_consistent (s\<lparr>sq_statements := n\<rparr>)" "distinct (map r_key (sq_rows s))"
  using assms by (simp_all add: sq_inv_def sq_consistent_def)

lemma sq_get_locked_outcome:
  assumes "sq_inv s"
  shows "\<exists>v s'. sq_get_locked k s = (Inr v, s') \<and> sq_setup s' = sq_setup s \<and>
    (if sq_dead k s then v = None \<and> sq_rows s' = sql_delete k (sq_rows s)
     else v = map_option r_value (sql_get k (sq_rows s)) \<and> (\<exists>t. sq_rows s' = sql_touch t k (sq_rows s)))"
proof (cases "sql_get k (sq_rows s)")
  case None
  then show ?thesis
    using sq_inv_parts [OF assms]
    by (auto simp: sq_get_locked_def sq_get_row_def sq_select_healthy sq_dead_def sql_delete_absent)
next
  case (Some r)
  let ?s1 = "s\<lparr>sq_statements := Suc (sq_statements s)\<rparr>"
  obtain n where ex: "sq_is_expired (row_to_entry r) ?s1 =
      (expired_at (next_reading s) (row_to_entry r), ?s1\<lparr>clock_reads := n\<rparr>)"
    using sq_probe_expired [where e = "row_to_entry r" and s = s] by blast
  note healthy = sq_inv_parts [OF assms]
  show ?thesis
  proof (cases "expired_at (next_reading s) (row_to_entry r)")
    case True
    let ?s2 = "?s1\<lparr>clock_reads := n, misses := misses s + 1\<rparr>"
    have "sq_healthy ?s2" "sq_consistent ?s2" using healthy by auto
    from sq_remove_expired_entry_healthy [OF this, of k] True Some ex healthy show ?thesis
      by (auto simp: sq_get_locked_def sq_get_row_def sq_select_healthy sq_dead_def)
  next
    case False
    with Some ex healthy show ?thesis
      by (auto simp: sq_get_locked_def sq_get_row_def sq_select_healthy sq_update_healthy sq_dead_def
          read_clock_def row_to_entry_def sq_setup_def)
  qed
qed

lemma sq_set_locked_outcome:
  assumes "sq_inv s"
  shows "\<exists>s'. sq_set_locked key v ttl s =
      (Inr (if sys_getsizeof v > max_value_bytes s then Set_VALUE_TOO_LARGE else Set_OK), s') \<and>
    sq_setup s' = sq_setup s \<and>
    sq_rows s' =
      (if sys_getsizeof v > max_value_bytes s
       then (case sql_get key (sq_rows s) of
               None \<Rightarrow> sq_rows s | Some r \<Rightarrow> sql_delete key (sq_rows s) @ [r])
       else sq_kept key (sys_getsizeof v) s @
         [new_row key v ttl (next_reading s) (clock s (Suc (clock_reads s)))])"
proof -
  let ?s1 = "s\<lparr>sq_statements := Suc (sq_statements s)\<rparr>"
  have inv1: "sq_inv ?s1"
    using assms by (simp add: sq_inv_def)
  have "sq_kept key sz ?s1 = sq_kept key sz s" for sz
    by (simp add: sq_kept_def Let_def)
  with sq_store_value_healthy [OF inv1 refl, of key v ttl] sq_inv_parts [OF assms] show ?thesis
    by (simp add: sq_set_locked_def sq_get_row_def sq_select_healthy next_reading_def
        cong: option.case_cong if_cong)
qed

text \<open>
  The conditional writes: decided on the probed table, then the same write.
\<close>

lemma sq_set_if_absent_locked_outcome:
  assumes "sq_inv s"
  shows "if sq_dead k s
    then \<exists>s1. sq_inv s1 \<and> sq_rows s1 = sql_delete k (sq_rows s) \<and> sq_setup s1 = sq_setup s \<and>
      sq_set_if_absent_locked k v ttl s = sq_conditional_store k v ttl None s1
    else \<exists>s1. sq_rows s1 = sq_rows s \<and> sq_setup s1 = sq_setup s \<and>
      sq_set_if_absent_locked k v ttl s = (Inr Cond_EXISTS, s1)"
proof (cases "sql_get k (sq_rows s)")
  case None
  with assms show ?thesis
    using sq_inv_parts [OF assms]
    by (auto simp: sq_set_if_absent_locked_def sq_get_row_def sq_select_healthy sq_dead_def
        sql_delete_absent sq_inv_def intro!: exI [of _ "s\<lparr>sq_statements := Suc (sq_statements s)\<rparr>"])
next
  case (Some r)
  let ?s1 = "s\<lparr>sq_statements := Suc (sq_statements s)\<rparr>"
  obtain n where ex: "sq_is_expired (row_to_entry r) ?s1 =
      (expired_at (next_reading s) (row_to_entry r), ?s1\<lparr>clock_reads := n\<rparr>)"
    using sq_probe_expired [where e = "row_to_entry r" and s = s] by blast
  let ?s2 = "?s1\<lparr>clock_reads := n\<rparr>"
  have healthy: "sq_healthy ?s2" "sq_consistent ?s2" using sq_inv_parts [OF assms] by auto
  show ?thesis
  proof (cases "expired_at (next_reading s) (row_to_entry r)")
    case True
    obtain b s3 where s3: "sq_remove_expired_entry k ?s2 = (Inr b, s3)" "sq_setup s3 = sq_setup s"
      "sq_rows s3 = sql_delete k (sq_rows s)"
      using sq_remove_expired_entry_healthy [OF healthy, of k] by auto
    have "sq_inv s3"
      using sq_inv_setup [OF assms s3(2)] sq_remove_expired_entry_ok(2) [of "{}" ?s2 k b s3] s3(1) healthy
      by (auto intro: sq_ok_weaken)
    with True Some ex s3 sq_inv_parts [OF assms] show ?thesis
      by (auto simp: sq_set_if_absent_locked_def sq_get_row_def sq_select_healthy sq_dead_def)
  next
    case False
    with Some ex sq_inv_parts [OF assms] show ?thesis
      by (auto simp: sq_set_if_absent_locked_def sq_get_row_def sq_select_healthy sq_dead_def)
  qed
qed

lemma sq_compare_and_set_locked_outcome:
  assumes "sq_inv s"
  shows "if sq_dead k s
    then \<exists>s1. sq_rows s1 = sql_delete k (sq_rows s) \<and> sq_setup s1 = sq_setup s \<and>
      sq_compare_and_set_locked k x v ttl s = (Inr Cond_NOT_FOUND, s1)
    else \<exists>s1 r. sql_get k (sq_rows s) = Some r \<and> sq_inv s1 \<and> sq_rows s1 = sq_rows s \<and>
      sq_setup s1 = sq_setup s \<and>
      sq_compare_and_set_locked k x v ttl s =
        (if r_value r \<noteq> x then (Inr Cond_MISMATCH, s1) else sq_conditional_store k v ttl (Some r) s1)"
proof (cases "sql_get k (sq_rows s)")
  case None
  then show ?thesis
    using sq_inv_parts [OF assms]
    by (auto simp: sq_compare_and_set_locked_def sq_get_row_def sq_select_healthy sq_dead_def
        sql_delete_absent)
next
  case (Some r)
  let ?s1 = "s\<lparr>sq_statements := Suc (sq_statements s)\<rparr>"
  obtain n where ex: "sq_is_expired (row_to_entry r) ?s1 =
      (expired_at (next_reading s) (row_to_entry r), ?s1\<lparr>clock_reads := n\<rparr>)"
    using sq_probe_expired [where e = "row_to_entry r" and s = s] by blast
  let ?s2 = "?s1\<lparr>clock_reads := n\<rparr>"
  have healthy: "sq_healthy ?s2" "sq_consistent ?s2" using sq_inv_parts [OF assms] by auto
  show ?thesis
  proof (cases "expired_at (next_reading s) (row_to_entry r)")
    case True
    with sq_remove_expired_entry_healthy [OF healthy, of k] Some ex sq_inv_parts [OF assms]
    show ?thesis
      by (auto simp: sq_compare_and_set_locked_def sq_get_row_def sq_select_healthy sq_dead_def)
  next
    case False
    have "sq_inv ?s2" using assms by (simp add: sq_inv_def)
    with False Some ex sq_inv_parts [OF assms] show ?thesis
      by (auto simp: sq_compare_and_set_locked_def sq_get_row_def sq_select_healthy sq_dead_def
          row_to_entry_def intro!: exI [of _ ?s2])
  qed
qed

end
