(* ===== verification/SqlitePort.thy ===== *)
theory SqlitePort
  imports SqliteBackend MemoryBackend
begin

text \<open>
  The SQLite backend behind the port and behind the cleanup thread: the instances of the two backend
  contracts that discharge their laws for \<^verbatim>\<open>SqliteCacheStore\<close>, what clients of the service see on top
  of it, and its properties across restarts and failing statements.
\<close>

section \<open>The store as a backend\<close>

definition sq_port :: "sqlite_store cache_port" where
  "sq_port =
     \<lparr> port_get = sq_get, port_set = sq_set, port_set_if_absent = sq_set_if_absent,
       port_compare_and_set = sq_compare_and_set, port_delete = sq_delete, port_stats = sq_stats \<rparr>"

lemma sq_port_simps [simp]:
  "port_get sq_port = sq_get" "port_set sq_port = sq_set"
  "port_set_if_absent sq_port = sq_set_if_absent" "port_compare_and_set sq_port = sq_compare_and_set"
  "port_delete sq_port = sq_delete" "port_stats sq_port = sq_stats"
  by (simp_all add: sq_port_def)

definition rows_content :: "sqlite_row list \<Rightarrow> string \<Rightarrow> bytes option" where
  "rows_content rows k = map_option r_value (sql_get k rows)"

definition sq_content :: "sqlite_store \<Rightarrow> string \<Rightarrow> bytes option" where
  "sq_content s = rows_content (sq_rows s)"

lemma rows_content_delete [simp]: "rows_content (sql_delete k rows) = (rows_content rows)(k := None)"
  by (simp add: rows_content_def fun_eq_iff)

lemma rows_content_touch [simp]: "rows_content (sql_touch t k rows) = rows_content rows"
  by (simp add: rows_content_def fun_eq_iff option.map_comp comp_def)

lemma rows_content_snoc:
  "sql_get (r_key r) rows = None \<Longrightarrow> rows_content (rows @ [r]) = (rows_content rows)(r_key r \<mapsto> r_value r)"
  by (auto simp: rows_content_def fun_eq_iff sql_get_append split: option.split)

lemma rows_content_subset:
  assumes "distinct (map r_key rows)" "set rows' \<subseteq> set rows" "distinct (map r_key rows')"
  shows "rows_content rows' k = None \<or> rows_content rows' k = rows_content rows k"
proof (cases "sql_get k rows'")
  case (Some r)
  then have "r \<in> set rows" "r_key r = k" using assms(2) sql_get_key by blast+
  with Some sql_get_distinct [OF assms(1), of r] show ?thesis by (simp add: rows_content_def)
qed (simp add: rows_content_def)

lemma sq_kept_subset: "set (sq_kept k sz s) \<subseteq> set (sql_delete k (sq_rows s))"
  using subset_trans [OF lru_until_subset lru_until_subset] lru_until_subset
  by (simp add: sq_kept_def Let_def)

lemma sq_kept_distinct:
  "distinct (map r_key (sq_rows s)) \<Longrightarrow> distinct (map r_key (sq_kept k sz s))"
  by (simp add: sq_kept_def Let_def lru_until_distinct distinct_sql_delete)

text \<open>The table after a write, seen from the contents.\<close>

lemma rows_content_kept:
  assumes "sq_inv s" "r_key r = k" "r_value r = v"
  shows "rows_content (sq_kept k sz s @ [r]) k = Some v \<and>
    others_shrink k (sq_content s) (rows_content (sq_kept k sz s @ [r]))"
proof -
  have dist: "distinct (map r_key (sq_rows s))" using sq_inv_parts [OF assms(1)] by simp
  have absent: "sql_get (r_key r) (sq_kept k sz s) = None"
    using sql_get_subset [OF sq_kept_subset [of k sz s]] assms(2) by simp
  have "rows_content (sq_kept k sz s) k' = None \<or>
      rows_content (sq_kept k sz s) k' = rows_content (sql_delete k (sq_rows s)) k'" for k'
    using rows_content_subset [OF distinct_sql_delete [OF dist] sq_kept_subset sq_kept_distinct [OF dist]] .
  then have "k' \<noteq> k \<Longrightarrow> rows_content (sq_kept k sz s) k' \<in> {None, sq_content s k'}" for k'
    by (simp add: sq_content_def) metis
  then show ?thesis
    using assms rows_content_snoc [OF absent] by (auto simp: others_shrink_def)
qed

lemma rows_content_put_back:
  "sql_get k rows = Some r \<Longrightarrow> rows_content (sql_delete k rows @ [r]) = rows_content rows"
  using sql_get_key [of k rows r] rows_content_snoc [of r "sql_delete k rows"]
  by (auto simp: rows_content_def fun_eq_iff)

lemma sq_set_contract:
  assumes "sq_inv s" "valid_key k"
  shows "\<exists>st s'. sq_set k v ttl s = (Inr st, s') \<and> sq_inv s' \<and>
    (st = Set_OK \<and> sq_content s' k = Some v \<and> others_shrink k (sq_content s) (sq_content s') \<or>
     st = Set_VALUE_TOO_LARGE \<and> sq_content s' = sq_content s)"
proof -
  obtain s' where s': "sq_set_locked k v ttl s =
      (Inr (if sys_getsizeof v > max_value_bytes s then Set_VALUE_TOO_LARGE else Set_OK), s')"
    "sq_setup s' = sq_setup s"
    "sq_rows s' = (if sys_getsizeof v > max_value_bytes s
       then (case sql_get k (sq_rows s) of
               None \<Rightarrow> sq_rows s | Some r \<Rightarrow> sql_delete k (sq_rows s) @ [r])
       else sq_kept k (sys_getsizeof v) s @
         [new_row k v ttl (next_reading s) (clock s (Suc (clock_reads s)))])"
    using sq_set_locked_outcome [OF assms(1), of k v ttl] by blast
  have set: "sq_set k v ttl s = sq_set_locked k v ttl s" using assms(2) by (simp add: sq_set_def)
  have "sq_inv s'"
    using sq_inv_setup [OF assms(1) s'(2)] sq_set_ok [of s k v ttl] sq_inv_parts [OF assms(1)] set s'(1)
    by simp
  with set s' show ?thesis
    using rows_content_put_back [of k "sq_rows s"] rows_content_kept [OF assms(1)]
    by (auto simp: sq_content_def split: option.splits)
qed

lemma sq_conditional_store_contract:
  assumes inv: "sq_inv s" and old: "old = sql_get k (sq_rows s)"
  shows "\<exists>st s'. sq_conditional_store k v ttl old s = (Inr st, s') \<and> sq_inv s' \<and>
    (st = Cond_STORED \<and> sq_content s' k = Some v \<and> others_shrink k (sq_content s) (sq_content s') \<or>
     st = Cond_VALUE_TOO_LARGE \<and> sq_content s' = sq_content s)"
proof -
  obtain s' where s': "sq_store_value k v ttl old s =
      (Inr (if sys_getsizeof v > max_value_bytes s then Set_VALUE_TOO_LARGE else Set_OK), s')"
    "sq_setup s' = sq_setup s"
    "sq_rows s' = (if sys_getsizeof v > max_value_bytes s
       then (case old of None \<Rightarrow> sq_rows s | Some r \<Rightarrow> sql_delete k (sq_rows s) @ [r])
       else sq_kept k (sys_getsizeof v) s @
         [new_row k v ttl (next_reading s) (clock s (Suc (clock_reads s)))])"
    using sq_store_value_healthy [OF assms, of v ttl] by blast
  have "sq_consistent (snd (sq_store_value k v ttl old s))"
    using old sq_inv_parts [OF inv] sql_get_key [of k "sq_rows s"]
    by (intro sq_store_value_ok) auto
  then have "sq_inv s'" using sq_inv_setup [OF inv s'(2)] s'(1) by simp
  with old s' show ?thesis
    using rows_content_put_back [of k "sq_rows s"] rows_content_kept [OF inv]
    by (auto simp: sq_conditional_store_def sq_content_def split: option.splits)
qed

section \<open>The laws of the contract\<close>

lemma sq_get_contract:
  assumes "sq_inv s" "valid_key k"
  shows "\<exists>v s'. sq_get k s = (Inr v, s') \<and> sq_inv s' \<and>
    (v = None \<and> sq_content s' = (sq_content s)(k := None) \<or>
     v = sq_content s k \<and> sq_content s' = sq_content s)"
proof -
  have get: "sq_get k s = sq_get_locked k s" using assms(2) by (simp add: sq_get_def)
  obtain v s' where g: "sq_get_locked k s = (Inr v, s')" "sq_setup s' = sq_setup s"
    and rows: "if sq_dead k s then v = None \<and> sq_rows s' = sql_delete k (sq_rows s)
     else v = map_option r_value (sql_get k (sq_rows s)) \<and> (\<exists>t. sq_rows s' = sql_touch t k (sq_rows s))"
    using sq_get_locked_outcome [OF assms(1), of k] by blast
  have "sq_inv s'"
    using sq_inv_setup [OF assms(1) g(2)] sq_get_ok [of s k] sq_inv_parts [OF assms(1)] get g(1) by simp
  with get g rows show ?thesis
    by (auto simp: sq_content_def rows_content_def [of "sq_rows s" k] split: if_splits)
qed

lemma sq_set_if_absent_contract:
  assumes "sq_inv s" "valid_key k"
  shows "\<exists>st s'. sq_set_if_absent k v ttl s = (Inr st, s') \<and> sq_inv s' \<and>
    (st = Cond_STORED \<and> sq_content s' k = Some v \<and> others_shrink k (sq_content s) (sq_content s') \<or>
     st = Cond_EXISTS \<and> sq_content s k \<noteq> None \<and> sq_content s' = sq_content s \<or>
     st \<in> {Cond_VALUE_TOO_LARGE, Cond_CAPACITY_EXHAUSTED} \<and> sq_content s' = (sq_content s)(k := None))"
proof (cases "sq_dead k s")
  case True
  with sq_set_if_absent_locked_outcome [OF assms(1), of k v ttl] obtain s1 where
    s1: "sq_inv s1" "sq_rows s1 = sql_delete k (sq_rows s)"
      "sq_set_if_absent k v ttl s = sq_conditional_store k v ttl None s1"
    using assms(2) by (auto simp: sq_set_if_absent_def)
  with sq_conditional_store_contract [OF s1(1), of None k v ttl] show ?thesis
    by (auto simp: sq_content_def [of s1] sq_content_def [of s] others_shrink_def)
next
  case False
  with sq_set_if_absent_locked_outcome [OF assms(1), of k v ttl] obtain s1 where
    s1: "sq_rows s1 = sq_rows s" "sq_setup s1 = sq_setup s"
      "sq_set_if_absent k v ttl s = (Inr Cond_EXISTS, s1)"
    using assms(2) by (auto simp: sq_set_if_absent_def)
  have "sq_inv s1"
    using sq_inv_setup [OF assms(1) s1(2)] sq_set_if_absent_ok [of s k v ttl] sq_inv_parts [OF assms(1)]
      s1(3) by simp
  with False s1 show ?thesis
    by (auto simp: sq_content_def rows_content_def sq_dead_def split: option.splits)
qed

lemma sq_compare_and_set_contract:
  assumes "sq_inv s" "valid_key k"
  shows "\<exists>st s'. sq_compare_and_set k x v ttl s = (Inr st, s') \<and> sq_inv s' \<and>
    (st = Cond_STORED \<and> sq_content s k = Some x \<and> sq_content s' k = Some v \<and>
       others_shrink k (sq_content s) (sq_content s') \<or>
     st = Cond_MISMATCH \<and> (\<exists>w. sq_content s k = Some w \<and> w \<noteq> x) \<and> sq_content s' = sq_content s \<or>
     st = Cond_NOT_FOUND \<and> sq_content s' = (sq_content s)(k := None) \<or>
     st \<in> {Cond_VALUE_TOO_LARGE, Cond_CAPACITY_EXHAUSTED} \<and> sq_content s k = Some x \<and>
       sq_content s' = sq_content s)"
proof (cases "sq_dead k s")
  case True
  with sq_compare_and_set_locked_outcome [OF assms(1), of k x v ttl] obtain s1 where
    s1: "sq_rows s1 = sql_delete k (sq_rows s)" "sq_setup s1 = sq_setup s"
      "sq_compare_and_set k x v ttl s = (Inr Cond_NOT_FOUND, s1)"
    using assms(2) by (auto simp: sq_compare_and_set_def)
  have "sq_inv s1"
    using sq_inv_setup [OF assms(1) s1(2)] sq_compare_and_set_ok [of s k x v ttl]
      sq_inv_parts [OF assms(1)] s1(3) by simp
  with s1 show ?thesis by (auto simp: sq_content_def)
next
  case False
  with sq_compare_and_set_locked_outcome [OF assms(1), of k x v ttl] obtain s1 r where
    s1: "sql_get k (sq_rows s) = Some r" "sq_inv s1" "sq_rows s1 = sq_rows s"
      "sq_compare_and_set k x v ttl s =
        (if r_value r \<noteq> x then (Inr Cond_MISMATCH, s1) else sq_conditional_store k v ttl (Some r) s1)"
    using assms(2) by (auto simp: sq_compare_and_set_def)
  have "sq_content s1 = sq_content s" "sq_content s k = Some (r_value r)"
    using s1 by (simp_all add: sq_content_def rows_content_def)
  with s1 sq_conditional_store_contract [OF s1(2), of "Some r" k v ttl] show ?thesis
    by (cases "r_value r = x") auto
qed

lemma sq_delete_contract:
  assumes "sq_inv s" "valid_key k"
  shows "\<exists>s'. sq_delete k s = (Inr (sq_content s k \<noteq> None), s') \<and> sq_inv s' \<and>
    sq_content s' = (sq_content s)(k := None)"
proof -
  obtain n where del: "sq_delete k s = (Inr (sql_get k (sq_rows s) \<noteq> None),
      with_table (sql_delete k (sq_rows s)) (s\<lparr>sq_statements := n\<rparr>))"
    using sq_remove_entry_healthy [of s k] sq_inv_parts [OF assms(1)] assms(2)
    by (auto simp: sq_delete_def)
  have "sq_inv (snd (sq_delete k s))"
    using sq_inv_setup [OF assms(1)] sq_delete_ok [of s k] sq_inv_parts [OF assms(1)] del by simp
  with del show ?thesis by (simp add: sq_content_def rows_content_def [of "sq_rows s" k])
qed

lemma sq_remove_expired_rows_healthy:
  "sq_inv s \<Longrightarrow> \<exists>s'. sq_remove_expired_rows rows s = (Inr (), s') \<and> sq_setup s' = sq_setup s \<and>
     (\<forall>k. sql_get k (sq_rows s') = None \<or> sql_get k (sq_rows s') = sql_get k (sq_rows s))"
proof (induction rows arbitrary: s)
  case (Cons row rows)
  obtain n where ex: "sq_is_expired (row_to_entry row) s =
      (expired_at (next_reading s) (row_to_entry row), s\<lparr>clock_reads := n\<rparr>)"
    using sq_is_expired_eq [of "row_to_entry row" s] by blast
  let ?s1 = "s\<lparr>clock_reads := n\<rparr>"
  have inv1: "sq_inv ?s1" using Cons.prems by (simp add: sq_inv_def)
  show ?case
  proof (cases "expired_at (next_reading s) (row_to_entry row)")
    case True
    obtain b s2 where s2: "sq_remove_expired_entry (r_key row) ?s1 = (Inr b, s2)"
      "sq_setup s2 = sq_setup s" "sq_rows s2 = sql_delete (r_key row) (sq_rows s)"
      using sq_remove_expired_entry_healthy [of ?s1 "r_key row"] sq_inv_parts [OF inv1] by auto
    have "sq_inv s2"
      using sq_inv_setup [OF Cons.prems s2(2)] sq_remove_expired_entry_keeps [of ?s1 "r_key row"]
        sq_inv_parts [OF inv1] s2(1) by simp
    from Cons.IH [OF this] ex True s2 show ?thesis by (auto split: if_splits)
  next
    case False
    with Cons.IH [OF inv1] ex show ?thesis by simp
  qed
qed simp

lemma sq_stats_contract:
  assumes "sq_inv s"
  shows "\<exists>st s'. sq_stats s = (Inr st, s') \<and> sq_inv s' \<and>
    (\<forall>k. sq_content s' k = None \<or> sq_content s' k = sq_content s k)"
proof -
  let ?s1 = "s\<lparr>sq_statements := Suc (sq_statements s)\<rparr>"
  have inv1: "sq_inv ?s1" using assms by (simp add: sq_inv_def)
  obtain s' where s': "sq_remove_expired_rows (sq_rows s) ?s1 = (Inr (), s')" "sq_setup s' = sq_setup s"
    "\<forall>k. sql_get k (sq_rows s') = None \<or> sql_get k (sq_rows s') = sql_get k (sq_rows s)"
    using sq_remove_expired_rows_healthy [OF inv1, of "sq_rows s"] by auto
  have stats: "\<exists>st. sq_stats s = (Inr st, s')"
    using s'(1) sq_inv_parts [OF assms]
    by (simp add: sq_stats_def sq_remove_expired_entries_def sq_select_healthy Let_def)
  then have "sq_inv s'"
    using sq_inv_setup [OF assms s'(2)] sq_stats_ok [of s] sq_inv_parts [OF assms] by auto
  with stats s'(3) show ?thesis by (fastforce simp: sq_content_def rows_content_def)
qed

interpretation sq_backend: cache_backend sq_port sq_inv sq_content
proof unfold_locales
  fix k v ttl and s :: sqlite_store
  assume "sq_inv s" "valid_key k"
  from sq_set_contract [OF this, of v ttl]
  show "\<exists>st s'. port_set sq_port k v ttl s = (Inr st, s') \<and> sq_inv s' \<and>
      (st = Set_OK \<and> sq_content s' k = Some v \<and> others_shrink k (sq_content s) (sq_content s') \<or>
       st \<noteq> Set_OK \<and> sq_content s' = sq_content s)"
    by auto
qed (simp_all only: sq_port_simps sq_get_contract sq_set_if_absent_contract
      sq_compare_and_set_contract sq_delete_contract sq_stats_contract,
    simp_all add: sq_get_def sq_set_def sq_set_if_absent_def sq_compare_and_set_def sq_delete_def)

section \<open>The callbacks of the cleanup thread\<close>

definition sq_callbacks :: "sqlite_store cleaner_callbacks" where
  "sq_callbacks =
     \<lparr> cb_snapshot_items = sq_snapshot_items, cb_remove_if_expired = sq_remove_if_expired,
       cb_is_expired = sq_is_expired \<rparr>"

definition sq_entry_of :: "sqlite_store \<Rightarrow> string \<Rightarrow> cache_entry option" where
  "sq_entry_of s k = map_option row_to_entry (sql_get k (sq_rows s))"

definition sq_client :: "sqlite_store \<Rightarrow> sqlite_store \<Rightarrow> bool" where
  "sq_client s s' \<longleftrightarrow> (\<exists>op. s' = sq_exec op s)"

lemma sq_remove_expired_entry_rows:
  "sq_rows (snd (sq_remove_expired_entry k s)) \<in> {sq_rows s, sql_delete k (sq_rows s)}"
proof (cases "sq_remove_entry k s")
  case (Pair r s')
  show ?thesis
  proof (cases r)
    case (Inl e)
    with Pair sq_remove_entry_Inl [of k s e s'] show ?thesis
      by (auto simp: sq_remove_expired_entry_def)
  next
    case (Inr b)
    with Pair sq_remove_entry_Inr [of k s b s'] show ?thesis
      by (auto simp: sq_remove_expired_entry_def split: option.splits)
  qed
qed

lemma sq_get_row_rows [simp]: "sq_rows (snd (sq_get_row k s)) = sq_rows s"
  using sq_select_state [of "sql_get k" s] by (auto simp: sq_get_row_def)

lemma sq_get_row_clock [simp]: "next_reading (snd (sq_get_row k s)) = next_reading s"
  using sq_select_state [of "sql_get k" s] by (auto simp: sq_get_row_def next_reading_def)

text \<open>The removal callback touches only an expired row of its key, whichever statement fails.\<close>

lemma sq_remove_if_expired_rows:
  "sq_rows (snd (sq_remove_if_expired k s)) = sq_rows s \<or>
   (\<exists>r. sql_get k (sq_rows s) = Some r \<and> expired_at (next_reading s) (row_to_entry r)) \<and>
   sq_rows (snd (sq_remove_if_expired k s)) = sql_delete k (sq_rows s)"
proof (cases "sq_get_row k s")
  case (Pair q s1)
  have s1: "sq_rows s1 = sq_rows s" "next_reading s1 = next_reading s"
    using sq_get_row_rows [of k s] sq_get_row_clock [of k s] Pair by simp_all
  show ?thesis
  proof (cases "\<exists>r. q = Inr (Some r)")
    case False
    with Pair s1 show ?thesis
      by (cases q) (auto simp: sq_remove_if_expired_def)
  next
    case True
    then obtain r where q: "q = Inr (Some r)" by blast
    have r: "sql_get k (sq_rows s) = Some r" using sq_get_row_Inr Pair q by metis
    obtain n where ex: "sq_is_expired (row_to_entry r) s1 =
        (expired_at (next_reading s) (row_to_entry r), s1\<lparr>clock_reads := n\<rparr>)"
      using sq_is_expired_eq [of "row_to_entry r" s1] s1 by auto
    show ?thesis
    proof (cases "expired_at (next_reading s) (row_to_entry r)")
      case True
      have "sq_rows (snd (sq_remove_if_expired k s)) =
          sq_rows (snd (sq_remove_expired_entry k (s1\<lparr>clock_reads := n\<rparr>)))"
        using Pair q ex True by (simp add: sq_remove_if_expired_def py_seq_cases split: sum.split)
      with sq_remove_expired_entry_rows [of k "s1\<lparr>clock_reads := n\<rparr>"] s1 r True show ?thesis by auto
    next
      case False
      with Pair q ex s1 show ?thesis by (simp add: sq_remove_if_expired_def)
    qed
  qed
qed

interpretation sq_cleaner: expiring_store sq_callbacks sq_consistent sq_entry_of next_reading
proof unfold_locales
  fix s s' :: sqlite_store and r
  assume "sq_consistent s" "cb_snapshot_items sq_callbacks s = (r, s')"
  moreover have "sq_rows (snd (sq_snapshot_items s)) = sq_rows s"
    using sq_select_state [of "\<lambda>rows. rows" s]
    by (auto simp: sq_snapshot_items_def py_seq_cases split: sum.split)
  ultimately show "sq_consistent s' \<and> sq_entry_of s' = sq_entry_of s"
    using sq_snapshot_items_ok [of s] by (simp add: sq_callbacks_def sq_entry_of_def fun_eq_iff)
next
  fix s s' :: sqlite_store and e b
  assume "sq_consistent s" "cb_is_expired sq_callbacks e s = (b, s')"
  then show "sq_consistent s' \<and> sq_entry_of s' = sq_entry_of s"
    by (auto simp: sq_callbacks_def sq_entry_of_def fun_eq_iff dest: sq_is_expired_pair)
next
  fix s s' :: sqlite_store and k r
  assume inv: "sq_consistent s" and "cb_remove_if_expired sq_callbacks k s = (r, s')"
  then have s': "s' = snd (sq_remove_if_expired k s)" by (simp add: sq_callbacks_def)
  with inv sq_remove_if_expired_ok [of s k] sq_remove_if_expired_rows [of k s]
  show "sq_consistent s' \<and> (sq_entry_of s' = sq_entry_of s \<or>
      (\<exists>e. sq_entry_of s k = Some e \<and> expired_at (next_reading s) e) \<and>
      sq_entry_of s' = (sq_entry_of s)(k := None))"
    by (auto simp: sq_entry_of_def fun_eq_iff)
qed

end
