(* ===== verification/SqliteProps.thy ===== *)
theory SqliteProps
  imports SqlitePort
begin

text \<open>
  The properties of the SQLite backend: its accounting under failing statements and across restarts,
  the refinement of a lossy map that starts with what the file holds, the eviction order, and what its
  expiry and its updates do not promise.
\<close>

section \<open>Samples\<close>

definition sample_row :: "string \<Rightarrow> bytes \<Rightarrow> int option \<Rightarrow> real \<Rightarrow> sqlite_row" where
  "sample_row k v ttl t =
     \<lparr> r_key = k, r_value = v, r_ttl = ttl, r_created_at = t, r_last_accessed = t,
       r_size_bytes = sys_getsizeof v \<rparr>"

definition sample_rows :: "sqlite_row list" where
  "sample_rows = [sample_row ''a'' [1] (Some 5) 100, sample_row ''b'' [2, 3] None 101]"

definition sample_sqlite :: "(nat \<Rightarrow> bool) \<Rightarrow> (nat \<Rightarrow> real) \<Rightarrow> sqlite_store" where
  "sample_sqlite faults clk =
     \<lparr> max_items = 2, max_memory_bytes = 1048576, max_value_bytes = 1048576, cleanup_interval = 10,
       current_memory_bytes = 69, hits = 0, misses = 0, evictions = 0, lru_evictions = 0,
       expired_removals = 0, rejected_oversize = 0, rejected_capacity = 0, clock = clk,
       clock_reads = 0, sq_rows = sample_rows, sq_entry_count = 2, sq_faults = faults,
       sq_statements = 6, sq_closed = False \<rparr>"

lemma sample_rows_facts [simp]:
  "map r_key sample_rows = [''a'', ''b'']" "map r_size_bytes sample_rows = [34, 35]"
  "length sample_rows = 2" "rows_size sample_rows = 69"
  "sql_get ''a'' sample_rows = Some (sample_row ''a'' [1] (Some 5) 100)"
  "sql_get ''b'' sample_rows = Some (sample_row ''b'' [2, 3] None 101)"
  by (simp_all add: sample_rows_def sample_row_def sys_getsizeof_def)

lemma sample_sqlite_simps [simp]:
  "sq_rows (sample_sqlite faults clk) = sample_rows" "clock (sample_sqlite faults clk) = clk"
  "clock_reads (sample_sqlite faults clk) = 0" "max_items (sample_sqlite faults clk) = 2"
  "max_memory_bytes (sample_sqlite faults clk) = 1048576"
  "max_value_bytes (sample_sqlite faults clk) = 1048576"
  "sq_faults (sample_sqlite faults clk) = faults" "sq_statements (sample_sqlite faults clk) = 6"
  "\<not> sq_closed (sample_sqlite faults clk)" "sq_consistent (sample_sqlite faults clk)"
  by (simp_all add: sample_sqlite_def sq_consistent_def)

lemma sample_sqlite_inv [simp]: "sq_inv (sample_sqlite (\<lambda>_. False) clk)"
  by (simp add: sq_inv_def sq_healthy_def)

text \<open>The statements of the constructor are the first six.\<close>

lemma sample_sqlite_init:
  "(\<And>n. n < 6 \<Longrightarrow> \<not> faults n) \<Longrightarrow>
     sq_init sample_rows faults (Some 2) (Some 1) None None clk = Inr (sample_sqlite faults clk)"
  by (simp add: sq_init_def sq_configure_connection_def sq_initialize_schema_def
      sq_load_current_memory_bytes_def sq_load_entry_count_def sq_select_def sq_update_def
      sq_execute_def sample_sqlite_def cache_store_limits_resolve_def Let_def
      DEFAULT_CLEANUP_INTERVAL_def)

section \<open>Accounting\<close>

text \<open>
  C4: the two counters kept beside the table never drift from it. From any table with one row per key,
  whatever methods are called and whichever SQL statements raise in between: the entry count is the
  number of rows, the memory counter the sum of their sizes, and there is still one row per key.
\<close>

theorem sqlite_accounting_under_faults:
  assumes "sq_init rows faults p_items p_mb p_interval p_value clk = Inr s0" "distinct (map r_key rows)"
  shows "let s = sq_run ops s0 in
    distinct (map r_key (sq_rows s)) \<and> sq_entry_count s = int (length (sq_rows s)) \<and>
    current_memory_bytes s = sum_list (map r_size_bytes (sq_rows s))"
  using sq_run_ok [OF sq_init_ok [OF assms], of ops]
  by (simp add: sq_consistent_def rows_size_def Let_def)

theorem sqlite_accounting_under_faults_witness:
  "sq_entry_count (sq_run [Op_set ''a'' [7] None, Op_delete ''b'', Op_get ''a'']
     (sample_sqlite (\<lambda>n. n = 9) (\<lambda>_. 100))) =
   int (length (sq_rows (sq_run [Op_set ''a'' [7] None, Op_delete ''b'', Op_get ''a'']
     (sample_sqlite (\<lambda>n. n = 9) (\<lambda>_. 100)))))"
proof -
  have "sq_init sample_rows (\<lambda>n. n = 9) (Some 2) (Some 1) None None (\<lambda>_. 100) =
      Inr (sample_sqlite (\<lambda>n. n = 9) (\<lambda>_. 100))"
    by (rule sample_sqlite_init) simp
  from sqlite_accounting_under_faults [OF this] show ?thesis by (simp add: Let_def del: sq_run.simps)
qed

text \<open>
  A restart, orderly or not, finds the accounting where the process left it: the table, the entry
  count and the memory counter of a store opened on the file are those of the store that wrote it,
  while the process-local counters start from zero.
\<close>

theorem sqlite_reopen_roundtrip:
  assumes "sq_init rows faults p_items p_mb p_interval p_value clk = Inr s0" "distinct (map r_key rows)"
    and "sq_init (sq_rows (sq_run ops s0)) faults' p_items' p_mb' p_interval' p_value' clk' = Inr s1"
  shows "sq_rows s1 = sq_rows (sq_run ops s0) \<and> sq_entry_count s1 = sq_entry_count (sq_run ops s0) \<and>
    current_memory_bytes s1 = current_memory_bytes (sq_run ops s0) \<and>
    hits s1 = 0 \<and> misses s1 = 0 \<and> evictions s1 = 0 \<and> lru_evictions s1 = 0 \<and>
    expired_removals s1 = 0 \<and> rejected_oversize s1 = 0 \<and> rejected_capacity s1 = 0"
  using sq_run_ok [OF sq_init_ok [OF assms(1,2)], of ops] sq_init_Inr [OF assms(3)]
  by (auto simp: sq_consistent_def)

theorem sqlite_reopen_roundtrip_witness:
  "current_memory_bytes (sample_sqlite (\<lambda>_. False) (\<lambda>_. 0)) =
   current_memory_bytes (sq_run [] (sample_sqlite (\<lambda>_. False) (\<lambda>_. 100)))"
proof -
  have init: "sq_init sample_rows (\<lambda>_. False) (Some 2) (Some 1) None None clk =
      Inr (sample_sqlite (\<lambda>_. False) clk)" for clk
    by (rule sample_sqlite_init) simp
  have "sq_init (sq_rows (sq_run [] (sample_sqlite (\<lambda>_. False) (\<lambda>_. 100)))) (\<lambda>_. False)
      (Some 2) (Some 1) None None (\<lambda>_. 0) = Inr (sample_sqlite (\<lambda>_. False) (\<lambda>_. 0))"
    by (simp add: init)
  from sqlite_reopen_roundtrip [OF init _ this] show ?thesis by simp
qed

section \<open>The port contract\<close>

lemma sq_init_inv:
  assumes "sq_init rows (\<lambda>_. False) p_items p_mb p_interval p_value clk = Inr s" "distinct (map r_key rows)"
  shows "sq_inv s \<and> sq_rows s = rows \<and> clock s = clk \<and> clock_reads s = 0"
  using sq_init_Inr [OF assms(1)] sq_init_ok [OF assms] limits_resolve_wf
  by (fastforce simp: sq_inv_def sq_healthy_def limits_wf_def)

text \<open>
  The service over a SQLite file refines the same lossy map as over memory, only that the map
  starts with the values the file holds: after a restart a get returns the last value written before
  it, or nothing.
\<close>

theorem sqlite_service_refines_lossy_map:
  assumes "sq_init rows (\<lambda>_. False) p_items p_mb p_interval p_value clk = Inr s0"
    and "distinct (map r_key rows)"
  shows "allowed_trace (rows_content rows) (fst (svc_run sq_port requests s0))"
proof -
  have inv: "sq_inv s0" and "sq_content s0 = rows_content rows"
    using sq_init_inv [OF assms] by (simp_all add: sq_content_def)
  then have "sq_content s0 \<subseteq>\<^sub>m rows_content rows" by simp
  with sq_backend.svc_run_tracks [OF inv, of "rows_content rows" requests] show ?thesis
    by (metis surj_pair fst_conv)
qed

theorem sqlite_service_refines_lossy_map_witness:
  "allowed_trace (rows_content sample_rows)
     (fst (svc_run sq_port [Get_req ''a'' None, Set_req ''b'' [4] 0 None, Get_req ''b'' None]
        (sample_sqlite (\<lambda>_. False) (\<lambda>_. 102))))"
  by (rule sqlite_service_refines_lossy_map [OF sample_sqlite_init]) simp_all

section \<open>Eviction\<close>

lemma rows_size_delete_le:
  "\<forall>r \<in> set rows. 0 \<le> r_size_bytes r \<Longrightarrow> rows_size (sql_delete k rows) \<le> rows_size rows"
  by (induction rows) auto

lemma lru_until_size_le:
  "\<forall>r \<in> set rows. 0 \<le> r_size_bytes r \<Longrightarrow> rows_size (lru_until P rows) \<le> rows_size rows"
proof (induction P rows rule: lru_until.induct)
  case (1 P rows)
  show ?case
  proof (cases "rows = [] \<or> P rows")
    case True
    then show ?thesis by (auto simp: lru_until_id)
  next
    case False
    then obtain m where m: "sql_oldest rows = Some m" using sql_oldest_None by blast
    have "\<forall>r \<in> set (sql_delete (r_key m) rows). 0 \<le> r_size_bytes r"
      using 1(2) sql_delete_subset by blast
    with False 1(1) [OF m] rows_size_delete_le [OF 1(2), of "r_key m"] show ?thesis
      by (simp add: lru_until_step [OF m])
  qed
qed

text \<open>What the two eviction loops of a write leave.\<close>

lemma sq_kept_spec:
  assumes "sq_inv s" "sz \<le> max_memory_bytes s" "\<forall>r \<in> set (sq_rows s). 0 \<le> r_size_bytes r"
  shows "rows_size (sq_kept k sz s) + sz \<le> max_memory_bytes s"
    and "sql_get k (sq_rows s) = None \<Longrightarrow> int (length (sq_kept k sz s)) < max_items s"
    and "r \<in> set (sql_delete k (sq_rows s)) - set (sq_kept k sz s) \<Longrightarrow> r' \<in> set (sq_kept k sz s) \<Longrightarrow>
      r_last_accessed r \<le> r_last_accessed r'"
proof -
  let ?P = "\<lambda>rows. rows_size rows + sz \<le> max_memory_bytes s"
  let ?Q = "\<lambda>rows. int (length rows) < max_items s"
  define d1 where "d1 = lru_until ?P (sql_delete k (sq_rows s))"
  have kept: "sq_kept k sz s = (if sql_get k (sq_rows s) \<noteq> None then d1 else lru_until ?Q d1)"
    by (simp add: sq_kept_def d1_def Let_def)
  have fits: "?P d1" unfolding d1_def using assms(2) by (intro lru_until_holds [where P = ?P]) simp
  have "set d1 \<subseteq> set (sq_rows s)"
    unfolding d1_def using lru_until_subset sql_delete_subset by blast
  with assms(3) have "rows_size (lru_until ?Q d1) \<le> rows_size d1"
    by (intro lru_until_size_le) blast
  with fits show "rows_size (sq_kept k sz s) + sz \<le> max_memory_bytes s" by (simp add: kept)
  have "1 \<le> max_items s" using assms(1) by (simp add: sq_inv_def)
  then have "?Q (lru_until ?Q d1)" by (intro lru_until_holds [where P = ?Q]) simp
  then show "sql_get k (sq_rows s) = None \<Longrightarrow> int (length (sq_kept k sz s)) < max_items s"
    by (simp add: kept)
  have dist0: "distinct (map r_key (sql_delete k (sq_rows s)))"
    using sq_inv_parts(5) [OF assms(1)] by (rule distinct_sql_delete)
  then have dist1: "distinct (map r_key d1)" unfolding d1_def by (rule lru_until_distinct)
  assume r: "r \<in> set (sql_delete k (sq_rows s)) - set (sq_kept k sz s)" "r' \<in> set (sq_kept k sz s)"
  have r': "r' \<in> set d1" using r(2) lru_until_subset [of ?Q d1] by (auto simp: kept split: if_splits)
  show "r_last_accessed r \<le> r_last_accessed r'"
  proof (cases "r \<in> set d1")
    case True
    with r have "sq_kept k sz s = lru_until ?Q d1" by (auto simp: kept split: if_splits)
    with r True lru_until_order [OF dist1, of r ?Q r'] show ?thesis by simp
  next
    case False
    with r r' lru_until_order [OF dist0, of r ?P r'] show ?thesis by (simp add: d1_def)
  qed
qed



section \<open>Expiry across restarts\<close>

lemma sq_get_value:
  assumes "sq_inv s" "valid_key k"
  shows "fst (sq_get k s) =
    Inr (if sq_dead k s then None else map_option r_value (sql_get k (sq_rows s)))"
proof -
  obtain v s' where "sq_get_locked k s = (Inr v, s')"
    "if sq_dead k s then v = None \<and> sq_rows s' = sql_delete k (sq_rows s)
     else v = map_option r_value (sql_get k (sq_rows s)) \<and> (\<exists>t. sq_rows s' = sql_touch t k (sq_rows s))"
    using sq_get_locked_outcome [OF assms(1), of k] by blast
  with assms(2) show ?thesis by (auto simp: sq_get_def split: if_splits)
qed

text \<open>
  C33: what a restart does to ttls. A store opened on a file answers a get by comparing the first
  reading of its own clock with the creation time the earlier process stored: the value is returned
  exactly while that difference is below the ttl. With a clock that restarts, as \<^verbatim>\<open>time.monotonic\<close> does
  with the machine, a row whose ttl had long passed is returned again.
\<close>

theorem sqlite_ttl_after_restart:
  assumes "sq_init rows (\<lambda>_. False) p_items p_mb p_interval p_value clk = Inr s"
    and "distinct (map r_key rows)" "valid_key k" "sql_get k rows = Some r" "r_ttl r = Some t" "0 < t"
  shows "fst (sq_get k s) = Inr (if clk 0 - r_created_at r < of_int t then Some (r_value r) else None)"
proof -
  have inv: "sq_inv s" and s: "sq_rows s = rows" "clock s = clk" "clock_reads s = 0"
    using sq_init_inv [OF assms(1,2)] by auto
  have "e_ttl (row_to_entry r) = Some t" "e_created_at (row_to_entry r) = r_created_at r"
    using assms(5,6) by (simp_all add: row_to_entry_def cache_entry_init_def)
  then have "sq_dead k s \<longleftrightarrow> clk 0 - r_created_at r \<ge> of_int t"
    using s assms(4) by (simp add: sq_dead_def expired_at_def next_reading_def)
  with sq_get_value [OF inv assms(3)] s assms(4) show ?thesis by auto
qed

theorem sqlite_ttl_after_restart_witness:
  "fst (sq_get ''a'' (sample_sqlite (\<lambda>_. False) (\<lambda>_. 200))) = Inr None \<and>
   fst (sq_get ''a'' (sample_sqlite (\<lambda>_. False) (\<lambda>_. 3))) = Inr (Some [1])"
proof -
  have init: "sq_init sample_rows (\<lambda>_. False) (Some 2) (Some 1) None None clk =
      Inr (sample_sqlite (\<lambda>_. False) clk)" for clk
    by (rule sample_sqlite_init) simp
  have "fst (sq_get ''a'' (sample_sqlite (\<lambda>_. False) clk)) =
      Inr (if clk 0 - 100 < 5 then Some [1] else None)" for clk
    using sqlite_ttl_after_restart [OF init, of "''a''"] by (simp add: sample_row_def)
  then show ?thesis by simp
qed

section \<open>An update whose last statement fails\<close>

lemma sq_select_ok_at:
  "\<not> sq_closed s \<Longrightarrow> \<not> sq_faults s (sq_statements s) \<Longrightarrow>
     sq_select q s = (Inr (q (sq_rows s)), s\<lparr>sq_statements := Suc (sq_statements s)\<rparr>)"
  by (cases s) (simp add: sq_select_def sq_execute_def Let_def)

lemma sq_update_ok_at:
  "\<not> sq_closed s \<Longrightarrow> \<not> sq_faults s (sq_statements s) \<Longrightarrow>
     sq_update f s = (Inr (), s\<lparr>sq_statements := Suc (sq_statements s), sq_rows := f (sq_rows s)\<rparr>)"
  by (simp add: sq_update_def sq_execute_def Let_def)

lemma sq_update_fails_at:
  "\<not> sq_closed s \<Longrightarrow> sq_faults s (sq_statements s) \<Longrightarrow>
     sq_update f s = (Inl (BackendError ''sqlite3.OperationalError''),
       s\<lparr>sq_statements := Suc (sq_statements s)\<rparr>)"
  by (simp add: sq_update_def sq_execute_def Let_def)

text \<open>
  C32: an update is not atomic. Overwriting a key runs four statements, each in its own transaction:
  two reads of the row, its deletion, and the insertion of the new one. When the insertion raises, the
  deletion has been committed: the caller gets the exception, and the old value is gone too.
\<close>

theorem sqlite_failed_update_loses_value:
  assumes "sq_consistent s" "\<not> sq_closed s" "valid_key k" "sql_get k (sq_rows s) = Some r"
    and "sys_getsizeof v \<le> max_value_bytes s"
    and "rows_size (sql_delete k (sq_rows s)) + sys_getsizeof v \<le> max_memory_bytes s"
    and "\<forall>n. sq_faults s n \<longleftrightarrow> n = sq_statements s + 3"
  shows "fst (sq_set k v ttl s) = Inl (BackendError ''sqlite3.OperationalError'') \<and>
    sql_get k (sq_rows (snd (sq_set k v ttl s))) = None"
proof -
  have "current_memory_bytes s - r_size_bytes r = rows_size (sql_delete k (sq_rows s))"
    using assms(1,4) sql_delete_counts(1) [of "sq_rows s" k r] by (simp add: sq_consistent_def)
  with assms show ?thesis
    by (simp add: sq_set_def sq_set_locked_def sq_get_row_def sq_select_ok_at sq_store_value_def
        sq_remove_entry_def sq_update_ok_at sq_insert_row_def read_clock_def sq_update_fails_at)
qed

theorem sqlite_failed_update_loses_value_witness:
  "sql_get ''a'' (sq_rows (snd (sq_set ''a'' [7] None (sample_sqlite (\<lambda>n. n = 9) (\<lambda>_. 102))))) = None"
  using sqlite_failed_update_loses_value
    [of "sample_sqlite (\<lambda>n. n = 9) (\<lambda>_. 102)" "''a''" "sample_row ''a'' [1] (Some 5) 100" "[7]" None]
  by (simp add: sys_getsizeof_def sample_rows_def sample_row_def)

section \<open>The cleanup thread over the SQLite store\<close>

text \<open>
  C34: the cleanup thread over the SQLite store never removes a live row, whatever clients do between
  its steps and whichever statements fail, and the accounting stays exact in every reachable state.
\<close>

theorem sqlite_cleaner_removes_only_expired:
  assumes "sq_init rows faults p_items p_mb p_interval p_value clk = Inr s0" "distinct (map r_key rows)"
    and "system_reachable sq_callbacks sq_client (cleaner_start b s0) sys"
    and "cleaner_next sq_callbacks sys = Some sys'"
  shows "sq_consistent (cl_store sys) \<and>
    (sq_entry_of (cl_store sys') k = sq_entry_of (cl_store sys) k \<or>
     sq_entry_of (cl_store sys') k = None \<and>
       (\<exists>e. sq_entry_of (cl_store sys) k = Some e \<and> expired_at (next_reading (cl_store sys)) e))"
proof -
  have "sq_consistent (cl_store (cleaner_start b s0))"
    using sq_init_ok [OF assms(1,2)] by (simp add: cleaner_start_def)
  then have inv: "sq_consistent (cl_store sys)"
    by (rule sq_cleaner.reachable_inv [OF assms(3)]) (auto simp: sq_client_def intro: sq_exec_ok)
  from sq_cleaner.thread_step_safe [OF inv assms(4), of k] inv show ?thesis by simp
qed

theorem sqlite_cleaner_removes_only_expired_witness:
  "sq_entry_of (cl_store (the (cleaner_next sq_callbacks
     (cleaner_start True (sample_sqlite (\<lambda>n. n = 6) (\<lambda>_. 102)))))) ''b'' =
   sq_entry_of (sample_sqlite (\<lambda>n. n = 6) (\<lambda>_. 102)) ''b''"
proof -
  let ?s = "sample_sqlite (\<lambda>n. n = 6) (\<lambda>_. 102)"
  have init: "sq_init sample_rows (\<lambda>n. n = 6) (Some 2) (Some 1) None None (\<lambda>_. 102) = Inr ?s"
    by (rule sample_sqlite_init) simp
  obtain sys' where sys': "cleaner_next sq_callbacks (cleaner_start True ?s) = Some sys'"
    using cleaner_next_None_iff [of sq_callbacks "cleaner_start True ?s"]
    by (auto simp: cleaner_start_def)
  have "\<not> expired_at (next_reading ?s) (row_to_entry (sample_row ''b'' [2, 3] None 101))"
    by (simp add: expired_at_def row_to_entry_def cache_entry_init_def sample_row_def)
  with sqlite_cleaner_removes_only_expired [OF init _ system_reachable.start sys', of "''b''"] sys'
  show ?thesis by (auto simp: cleaner_start_def sq_entry_of_def)
qed

end
