(* ===== verification/StoreFactory.thy ===== *)
theory StoreFactory
  imports SqliteProps Config
begin

text \<open>
  \<^verbatim>\<open>tiny_cache/infrastructure/store_factory.py\<close>: the store a configuration selects. The application
  sees either backend through the port, so the two are one state type here, and the contract of the
  port holds for it because it holds for both.
\<close>

section \<open>The factory\<close>

datatype backend_store = Memory_backend cache_store | Sqlite_backend sqlite_store

text \<open>
  \<open>db path\<close> is the table in the database file at \<open>path\<close>, and \<open>faults\<close> the statements of its
  connection that fail; both constructors use the same clock.
\<close>

definition create_cache_store ::
    "(string \<Rightarrow> sqlite_row list) \<Rightarrow> (nat \<Rightarrow> bool) \<Rightarrow> (nat \<Rightarrow> real) \<Rightarrow> settings \<Rightarrow> backend_store py" where
  "create_cache_store db faults clk settings =
     (if cf_backend settings = ''sqlite''
      then py_bind
        (sq_init (db (cf_sqlite_path settings)) faults (Some (cf_max_items settings))
           (Some (cf_max_memory_mb settings)) (Some (cf_cleanup_interval settings))
           (Some (cf_max_value_bytes settings)) clk) (\<lambda>s. Inr (Sqlite_backend s))
      else py_bind
        (mem_init (Some (cf_max_items settings)) (Some (cf_max_memory_mb settings))
           (Some (cf_cleanup_interval settings)) (Some (cf_max_value_bytes settings)) clk)
        (\<lambda>s. Inr (Memory_backend s)))"

section \<open>Either backend as a backend\<close>

definition on_backend ::
    "(cache_store \<Rightarrow> 'r \<times> cache_store) \<Rightarrow> (sqlite_store \<Rightarrow> 'r \<times> sqlite_store) \<Rightarrow> backend_store
      \<Rightarrow> 'r \<times> backend_store" where
  "on_backend f g b =
     (case b of
        Memory_backend s \<Rightarrow> map_prod id Memory_backend (f s)
      | Sqlite_backend s \<Rightarrow> map_prod id Sqlite_backend (g s))"

lemma on_backend_simps [simp]:
  "on_backend f g (Memory_backend s) = (fst (f s), Memory_backend (snd (f s)))"
  "on_backend f g (Sqlite_backend t) = (fst (g t), Sqlite_backend (snd (g t)))"
  by (simp_all add: on_backend_def map_prod_def split: prod.split)

definition backend_port :: "backend_store cache_port" where
  "backend_port =
     \<lparr> port_get = (\<lambda>k. on_backend (port_get mem_port k) (port_get sq_port k)),
       port_set = (\<lambda>k v ttl. on_backend (port_set mem_port k v ttl) (port_set sq_port k v ttl)),
       port_set_if_absent = (\<lambda>k v ttl.
         on_backend (port_set_if_absent mem_port k v ttl) (port_set_if_absent sq_port k v ttl)),
       port_compare_and_set = (\<lambda>k x v ttl.
         on_backend (port_compare_and_set mem_port k x v ttl) (port_compare_and_set sq_port k x v ttl)),
       port_delete = (\<lambda>k. on_backend (port_delete mem_port k) (port_delete sq_port k)),
       port_stats = on_backend (port_stats mem_port) (port_stats sq_port) \<rparr>"

fun backend_inv :: "backend_store \<Rightarrow> bool" where
  "backend_inv (Memory_backend s) = mem_inv s"
| "backend_inv (Sqlite_backend s) = sq_inv s"

fun backend_content :: "backend_store \<Rightarrow> string \<Rightarrow> bytes option" where
  "backend_content (Memory_backend s) = mem_content s"
| "backend_content (Sqlite_backend s) = sq_content s"

lemma backend_port_simps [simp]:
  "port_get backend_port k = on_backend (port_get mem_port k) (port_get sq_port k)"
  "port_set backend_port k v ttl = on_backend (port_set mem_port k v ttl) (port_set sq_port k v ttl)"
  "port_set_if_absent backend_port k v ttl =
     on_backend (port_set_if_absent mem_port k v ttl) (port_set_if_absent sq_port k v ttl)"
  "port_compare_and_set backend_port k x v ttl =
     on_backend (port_compare_and_set mem_port k x v ttl) (port_compare_and_set sq_port k x v ttl)"
  "port_delete backend_port k = on_backend (port_delete mem_port k) (port_delete sq_port k)"
  "port_stats backend_port = on_backend (port_stats mem_port) (port_stats sq_port)"
  by (simp_all add: backend_port_def)

text \<open>A law that holds of both backends holds of their sum.\<close>

lemma on_backend_law:
  assumes "backend_inv b"
    and "\<And>s. mem_inv s \<Longrightarrow> \<exists>r s'. f s = (Inr r, s') \<and> mem_inv s' \<and> Q r (mem_content s) (mem_content s')"
    and "\<And>s. sq_inv s \<Longrightarrow> \<exists>r s'. g s = (Inr r, s') \<and> sq_inv s' \<and> Q r (sq_content s) (sq_content s')"
  shows "\<exists>r b'. on_backend f g b = (Inr r, b') \<and> backend_inv b' \<and>
    Q r (backend_content b) (backend_content b')"
proof (cases b)
  case (Memory_backend s)
  with assms(1) have "mem_inv s" by simp
  with assms(2) [of s] obtain r s' where
    f: "f s = (Inr r, s')" "mem_inv s'" "Q r (mem_content s) (mem_content s')" by blast
  with Memory_backend show ?thesis
    by (intro exI [of _ r] exI [of _ "Memory_backend s'"]) simp
next
  case (Sqlite_backend s)
  with assms(1) have "sq_inv s" by simp
  with assms(3) [of s] obtain r s' where
    g: "g s = (Inr r, s')" "sq_inv s'" "Q r (sq_content s) (sq_content s')" by blast
  with Sqlite_backend show ?thesis
    by (intro exI [of _ r] exI [of _ "Sqlite_backend s'"]) simp
qed

lemma on_backend_refused:
  assumes "\<And>s. f s = (Inl e, s)" "\<And>s. g s = (Inl e, s)"
  shows "on_backend f g b = (Inl e, b)"
  using assms by (cases b) simp_all

interpretation any_backend: cache_backend backend_port backend_inv backend_content
proof unfold_locales
  fix k x v ttl
  assume "\<not> valid_key k"
  then show "port_get backend_port k s = (Inl (key_error k), s)"
    "port_set backend_port k v ttl s = (Inl (key_error k), s)"
    "port_set_if_absent backend_port k v ttl s = (Inl (key_error k), s)"
    "port_compare_and_set backend_port k x v ttl s = (Inl (key_error k), s)"
    "port_delete backend_port k s = (Inl (key_error k), s)" for s
    unfolding backend_port_simps
    by (intro on_backend_refused mem_backend.get_invalid sq_backend.get_invalid mem_backend.set_invalid
        sq_backend.set_invalid mem_backend.set_if_absent_invalid sq_backend.set_if_absent_invalid
        mem_backend.compare_and_set_invalid sq_backend.compare_and_set_invalid
        mem_backend.delete_invalid sq_backend.delete_invalid; assumption)+
next
  fix k x v ttl and b :: backend_store
  assume inv: "backend_inv b" and key: "valid_key k"
  show "\<exists>r b'. port_get backend_port k b = (Inr r, b') \<and> backend_inv b' \<and>
      (r = None \<and> backend_content b' = (backend_content b)(k := None) \<or>
       r = backend_content b k \<and> backend_content b' = backend_content b)"
    unfolding backend_port_simps
    by (rule on_backend_law [OF inv mem_backend.get_law [OF _ key] sq_backend.get_law [OF _ key]])
  show "\<exists>st b'. port_set backend_port k v ttl b = (Inr st, b') \<and> backend_inv b' \<and>
      (st = Set_OK \<and> backend_content b' k = Some v \<and>
         others_shrink k (backend_content b) (backend_content b') \<or>
       st \<noteq> Set_OK \<and> backend_content b' = backend_content b)"
    unfolding backend_port_simps
    by (rule on_backend_law [OF inv mem_backend.set_law [OF _ key] sq_backend.set_law [OF _ key]])
  show "\<exists>st b'. port_set_if_absent backend_port k v ttl b = (Inr st, b') \<and> backend_inv b' \<and>
      (st = Cond_STORED \<and> backend_content b' k = Some v \<and>
         others_shrink k (backend_content b) (backend_content b') \<or>
       st = Cond_EXISTS \<and> backend_content b k \<noteq> None \<and> backend_content b' = backend_content b \<or>
       st \<in> {Cond_VALUE_TOO_LARGE, Cond_CAPACITY_EXHAUSTED} \<and>
         backend_content b' = (backend_content b)(k := None))"
    unfolding backend_port_simps
    by (rule on_backend_law [OF inv mem_backend.set_if_absent_law [OF _ key]
          sq_backend.set_if_absent_law [OF _ key]])
  show "\<exists>st b'. port_compare_and_set backend_port k x v ttl b = (Inr st, b') \<and> backend_inv b' \<and>
      (st = Cond_STORED \<and> backend_content b k = Some x \<and> backend_content b' k = Some v \<and>
         others_shrink k (backend_content b) (backend_content b') \<or>
       st = Cond_MISMATCH \<and> (\<exists>w. backend_content b k = Some w \<and> w \<noteq> x) \<and>
         backend_content b' = backend_content b \<or>
       st = Cond_NOT_FOUND \<and> backend_content b' = (backend_content b)(k := None) \<or>
       st \<in> {Cond_VALUE_TOO_LARGE, Cond_CAPACITY_EXHAUSTED} \<and> backend_content b k = Some x \<and>
         backend_content b' = backend_content b)"
    unfolding backend_port_simps
    by (rule on_backend_law [OF inv mem_backend.compare_and_set_law [OF _ key]
          sq_backend.compare_and_set_law [OF _ key]])
  have "\<exists>r b'. on_backend (port_delete mem_port k) (port_delete sq_port k) b = (Inr r, b') \<and>
      backend_inv b' \<and> (r \<longleftrightarrow> backend_content b k \<noteq> None) \<and>
      backend_content b' = (backend_content b)(k := None)"
    by (rule on_backend_law [OF inv, where Q = "\<lambda>r c c'. (r \<longleftrightarrow> c k \<noteq> None) \<and> c' = c(k := None)"])
      (use mem_backend.delete_law [OF _ key] sq_backend.delete_law [OF _ key] in blast)+
  then show "\<exists>b'. port_delete backend_port k b = (Inr (backend_content b k \<noteq> None), b') \<and>
      backend_inv b' \<and> backend_content b' = (backend_content b)(k := None)"
    by auto
next
  fix b :: backend_store
  assume inv: "backend_inv b"
  show "\<exists>st b'. port_stats backend_port b = (Inr st, b') \<and> backend_inv b' \<and>
      (\<forall>k. backend_content b' k = None \<or> backend_content b' k = backend_content b k)"
    unfolding backend_port_simps
    by (rule on_backend_law [OF inv mem_backend.stats_law sq_backend.stats_law])
qed

section \<open>From the environment to a running service\<close>

fun backend_limits :: "backend_store \<Rightarrow> int \<times> int \<times> int \<times> int" where
  "backend_limits (Memory_backend s) =
     (max_items s, max_memory_bytes s, max_value_bytes s, cleanup_interval s)"
| "backend_limits (Sqlite_backend s) =
     (max_items s, max_memory_bytes s, max_value_bytes s, cleanup_interval s)"

lemma limits_of_settings:
  assumes "settings_ok st" "cf_max_value_bytes st \<le> cf_max_memory_mb st * 1024 * 1024"
  shows "cache_store_limits_resolve (Some (cf_max_items st)) (Some (cf_max_memory_mb st))
      (Some (cf_cleanup_interval st)) (Some (cf_max_value_bytes st)) =
    Inr \<lparr> lim_max_items = cf_max_items st, lim_max_memory_bytes = cf_max_memory_mb st * 1024 * 1024,
          lim_max_value_bytes = cf_max_value_bytes st, lim_cleanup_interval = cf_cleanup_interval st \<rparr>"
  using assms by (simp add: cache_store_limits_resolve_def settings_ok_def)

text \<open>A constructor without failing statements returns the store \<open>sq_init_Inr\<close> describes.\<close>

lemma sq_init_total:
  assumes "cache_store_limits_resolve mi mm ci mv = Inr limits"
  shows "\<exists>s. sq_init rows (\<lambda>_. False) mi mm ci mv clk = Inr s"
  using assms
  by (simp add: sq_init_def sq_configure_connection_def sq_initialize_schema_def
      sq_load_current_memory_bytes_def sq_load_entry_count_def sq_select_def sq_update_def
      sq_execute_def Let_def)

lemma configured_sqlite:
  assumes "settings_ok st" "cf_max_value_bytes st \<le> cf_max_memory_mb st * 1024 * 1024"
    and "cf_backend st = ''sqlite''"
  shows "\<exists>s. create_cache_store db (\<lambda>_. False) clk st = Inr (Sqlite_backend s) \<and>
    sq_init (db (cf_sqlite_path st)) (\<lambda>_. False) (Some (cf_max_items st)) (Some (cf_max_memory_mb st))
      (Some (cf_cleanup_interval st)) (Some (cf_max_value_bytes st)) clk = Inr s \<and>
    backend_limits (Sqlite_backend s) =
      (cf_max_items st, cf_max_memory_mb st * 1048576, cf_max_value_bytes st, cf_cleanup_interval st)"
proof -
  obtain s where s: "sq_init (db (cf_sqlite_path st)) (\<lambda>_. False) (Some (cf_max_items st))
      (Some (cf_max_memory_mb st)) (Some (cf_cleanup_interval st)) (Some (cf_max_value_bytes st)) clk = Inr s"
    using sq_init_total [OF limits_of_settings [OF assms(1,2)]] by blast
  with sq_init_Inr [OF s] limits_of_settings [OF assms(1,2)] assms(3) show ?thesis
    by (auto simp: create_cache_store_def)
qed

lemma configured_memory:
  assumes "settings_ok st" "cf_max_value_bytes st \<le> cf_max_memory_mb st * 1024 * 1024"
    and "cf_backend st \<noteq> ''sqlite''"
  shows "\<exists>s. create_cache_store db faults clk st = Inr (Memory_backend s) \<and>
    mem_inv s \<and> mem_content s = Map.empty \<and>
    backend_limits (Memory_backend s) =
      (cf_max_items st, cf_max_memory_mb st * 1048576, cf_max_value_bytes st, cf_cleanup_interval st)"
proof -
  obtain s where s: "mem_init (Some (cf_max_items st)) (Some (cf_max_memory_mb st))
      (Some (cf_cleanup_interval st)) (Some (cf_max_value_bytes st)) clk = Inr s"
    by (simp add: mem_init_def limits_of_settings [OF assms(1,2)])
  then have "mem_content s = Map.empty" "backend_limits (Memory_backend s) =
      (cf_max_items st, cf_max_memory_mb st * 1048576, cf_max_value_bytes st, cf_cleanup_interval st)"
    by (auto simp: mem_init_def limits_of_settings [OF assms(1,2)] mem_content_def fun_eq_iff)
  with s mem_inv_init [OF s] assms(3) show ?thesis by (simp add: create_cache_store_def)
qed

text \<open>The values a service finds when it starts.\<close>

definition initial_content :: "(string \<Rightarrow> sqlite_row list) \<Rightarrow> settings \<Rightarrow> string \<Rightarrow> bytes option" where
  "initial_content db st =
     (if cf_backend st = ''sqlite'' then rows_content (db (cf_sqlite_path st)) else Map.empty)"

text \<open>
  C1: a configuration that loads gives a service that works, on either backend. The settings are within
  their ranges and the store starts, with exactly the configured limits: the value limit is never cut
  down silently, because one above the memory limit does not load. Whatever requests follow, every
  reply is one a lossy map can give that starts empty, or with the values in the database file.
\<close>

theorem configured_service_refines_lossy_map:
  assumes "\<And>st. settings_ok st \<Longrightarrow> validate st = Inr st" "load_settings validate env = Inr st"
    and "distinct (map r_key (db (cf_sqlite_path st)))"
  shows "\<exists>b. create_cache_store db (\<lambda>_. False) clk st = Inr b \<and> settings_ok st \<and>
    backend_limits b =
      (cf_max_items st, cf_max_memory_mb st * 1048576, cf_max_value_bytes st, cf_cleanup_interval st) \<and>
    allowed_trace (initial_content db st) (fst (svc_run backend_port requests b))"
proof -
  note st = load_settings_ranges [OF assms(1,2)]
  obtain b where b: "create_cache_store db (\<lambda>_. False) clk st = Inr b" "backend_inv b"
    "backend_content b = initial_content db st"
    "backend_limits b =
      (cf_max_items st, cf_max_memory_mb st * 1048576, cf_max_value_bytes st, cf_cleanup_interval st)"
  proof (cases "cf_backend st = ''sqlite''")
    case True
    then obtain s where s: "create_cache_store db (\<lambda>_. False) clk st = Inr (Sqlite_backend s)"
      "sq_init (db (cf_sqlite_path st)) (\<lambda>_. False) (Some (cf_max_items st)) (Some (cf_max_memory_mb st))
        (Some (cf_cleanup_interval st)) (Some (cf_max_value_bytes st)) clk = Inr s"
      "backend_limits (Sqlite_backend s) =
        (cf_max_items st, cf_max_memory_mb st * 1048576, cf_max_value_bytes st, cf_cleanup_interval st)"
      using configured_sqlite st by blast
    with sq_init_inv [OF s(2) assms(3)] True show ?thesis
      by (intro that [of "Sqlite_backend s"]) (simp_all add: initial_content_def sq_content_def)
  next
    case False
    with configured_memory [of st db "\<lambda>_. False" clk] st obtain s where
      "create_cache_store db (\<lambda>_. False) clk st = Inr (Memory_backend s)" "mem_inv s"
      "mem_content s = Map.empty" "backend_limits (Memory_backend s) =
        (cf_max_items st, cf_max_memory_mb st * 1048576, cf_max_value_bytes st, cf_cleanup_interval st)"
      by blast
    with False show ?thesis
      by (intro that [of "Memory_backend s"]) (simp_all add: initial_content_def)
  qed
  have "backend_content b \<subseteq>\<^sub>m initial_content db st" by (simp add: b(3))
  then have "allowed_trace (initial_content db st) (fst (svc_run backend_port requests b))"
    using any_backend.svc_run_tracks [OF b(2), of "initial_content db st" requests]
    by (metis surj_pair fst_conv)
  with b st show ?thesis by blast
qed

definition field_checks :: "settings \<Rightarrow> settings py" where
  "field_checks st = (if settings_ok st then Inr st else Inl (ValueError ''validation error''))"

definition sqlite_env :: environment where
  "sqlite_env = Map.empty(''CACHE_BACKEND'' \<mapsto> '' SQLite '', ''CACHE_MAX_ITEMS'' \<mapsto> ''5'')"

theorem configured_service_refines_lossy_map_witness:
  "\<exists>st b. load_settings field_checks sqlite_env = Inr st \<and>
     create_cache_store (\<lambda>_. sample_rows) (\<lambda>_. False) real st = Inr b \<and> fst (backend_limits b) = 5 \<and>
     allowed_trace (rows_content sample_rows)
       (fst (svc_run backend_port [Get_req ''a'' None, Delete_req ''a'' None, Get_req ''a'' None] b))"
proof -
  let ?r = "load_settings field_checks sqlite_env"
  have "map_sum id (\<lambda>st. (cf_max_items st, cf_backend st)) ?r = Inr (5, ''sqlite'')" by code_simp
  then obtain st where st: "?r = Inr st" "cf_max_items st = 5" "cf_backend st = ''sqlite''"
    by (cases ?r) auto
  have "\<And>st. settings_ok st \<Longrightarrow> field_checks st = Inr st" by (simp add: field_checks_def)
  from configured_service_refines_lossy_map [OF this st(1), of "\<lambda>_. sample_rows" real
      "[Get_req ''a'' None, Delete_req ''a'' None, Get_req ''a'' None]"] st
  show ?thesis by (auto simp: initial_content_def)
qed

end
