(* ===== verification/CliProps.thy ===== *)
theory CliProps
  imports Cli StoreFactory
begin

text \<open>
  Properties of the command line client: what it prints can be given back to it, its exit codes, and a
  set followed by a get through the client, the gRPC server and either backend.
\<close>

section \<open>Decoding what was printed\<close>

lemma char_code_inject [simp]: "char_code a = char_code b \<longleftrightarrow> a = b"
  by (auto simp: char_code_def)

lemma map_char_code_inject [simp]: "map char_code s = map char_code t \<longleftrightarrow> s = t"
  using inj_map_eq_map [of char_code s t] by (simp add: inj_def)

lemma join_bits64: "u < 64 \<Longrightarrow> (y * 64 + u) div 64 = (y::nat)" "u < 64 \<Longrightarrow> (y * 64 + u) mod 64 = (u::nat)"
  by simp_all

text \<open>Text of code points below 256 is encoded to the bytes it was decoded from.\<close>

lemma utf8_points_encode:
  "utf8_points bs = Some pts \<Longrightarrow> pts = map char_code s \<Longrightarrow> list_all (\<lambda>b. b < 256) bs \<Longrightarrow>
     utf8_encode s = map byte_of bs"
proof (induction bs arbitrary: pts s rule: utf8_points.induct)
  case 1
  then show ?case by (simp add: utf8_encode_def)
next
  case (2 b bs)
  have enc: "utf8_encode (c # s) =
      (if char_code c < 128 then [byte_of (char_code c)]
       else [byte_of (192 + char_code c div 64), byte_of (128 + char_code c mod 64)]) @ utf8_encode s" for c s
    by (simp add: utf8_encode_def Let_def)
  consider "b < 128" | "194 \<le> b" "b \<le> 223" | "224 \<le> b" "b \<le> 239" | "240 \<le> b" "b \<le> 244"
    using "2.prems"(1) by (fastforce split: if_splits)
  then show ?case
  proof cases
    case 1
    with "2.prems" obtain c t pts' where s: "s = c # t" "char_code c = b" "pts' = map char_code t"
      "utf8_points bs = Some pts'"
      by (cases s) auto
    have "utf8_encode t = map byte_of bs" using "2.IH"(1) [OF 1 s(4,3)] "2.prems"(3) by simp
    with 1 s show ?thesis by (simp add: enc)
  next
    case two: 2
    with "2.prems"(1) obtain c r where bs: "bs = c # r" by (cases bs) auto
    with "2.prems" two obtain d t pts' where s: "s = d # t" "char_code d = (b - 192) * 64 + (c - 128)"
      "pts' = map char_code t" "utf8_points r = Some pts'" and c: "continuation c"
      by (cases s) (auto split: if_splits)
    have "utf8_encode t = map byte_of r"
      using "2.IH"(2) [OF _ _ bs c s(4,3)] two "2.prems"(3) bs by simp
    moreover have "c - 128 < 64" using c unfolding continuation_def by linarith
    then have "char_code d div 64 = b - 192" "char_code d mod 64 = c - 128"
      unfolding s(2) by (rule join_bits64)+
    moreover have "\<not> char_code d < 128" using s(2) two by linarith
    ultimately show ?thesis using two c s(1) bs by (simp add: enc continuation_def)
  next
    case 3
    with "2.prems"(1) obtain c d r where bs: "bs = c # d # r" by (auto split: list.splits)
    with "2.prems"(1) 3 have "pts \<noteq> []" "256 \<le> hd pts"
      by (auto simp: continuation_def split: if_splits)
    with "2.prems"(2) char_code_bound show ?thesis by (cases s) (auto simp: not_less [symmetric])
  next
    case 4
    with "2.prems"(1) obtain c d e r where bs: "bs = c # d # e # r" by (auto split: list.splits)
    with "2.prems"(1) 4 have "pts \<noteq> []" "256 \<le> hd pts"
      by (auto simp: continuation_def split: if_splits)
    with "2.prems"(2) char_code_bound show ?thesis by (cases s) (auto simp: not_less [symmetric])
  qed
qed

lemma utf8_decode_back: "utf8_decode v = Some (map char_code s) \<Longrightarrow> utf8_encode s = v"
  using utf8_points_encode [of "map unat v" "map char_code s" s] unat_byte_bound
  by (simp add: utf8_decode_def list_all_iff comp_def)

text \<open>The arguments that give back a text in the format it was printed in.\<close>

definition value_args_of :: "string \<Rightarrow> string \<Rightarrow> value_args" where
  "value_args_of fmt text =
     \<lparr> va_positional = (if fmt = ''utf8'' then Some text else None), va_file = None,
       va_base64 = (if fmt = ''base64'' then Some text else None),
       va_hex = (if fmt = ''hex'' then Some text else None) \<rparr>"

text \<open>
  C19: what the client prints it also reads. A value printed in any of the three formats, as text of the
  characters below 256, gives exactly the same bytes when the text is passed back as \<^verbatim>\<open>--value-base64\<close>,
  \<^verbatim>\<open>--value-hex\<close> or the positional value, for every value and every command.
\<close>

theorem cli_value_roundtrip:
  assumes "encode_output decode_error v fmt = Inr (map char_code text)"
  shows "parse_value_input read_bytes (value_args_of fmt text) attr_prefix command = Inr v"
proof -
  consider "fmt = ''base64''" "text = b64encode v" | "fmt = ''hex''" "text = bytes_hex v"
    | "fmt = ''utf8''" "utf8_decode v = Some (map char_code text)"
    using assms by (auto simp: encode_output_def split: if_splits option.splits)
  then show ?thesis
    by cases
      (simp_all add: parse_value_input_def value_args_of_def given_def b64decode_encode bytes_fromhex_def
        fromhex_hex utf8_decode_back)
qed

theorem cli_value_roundtrip_witness:
  "parse_value_input (\<lambda>_. Inl (BackendError ''no file'')) (value_args_of ''base64'' ''AP9B'') ''value'' ''set'' =
     Inr [0, 255, 65]"
proof -
  have "encode_output (\<lambda>_. []) [0, 255, 65] ''base64'' = Inr (map char_code ''AP9B'')" by code_simp
  then show ?thesis by (rule cli_value_roundtrip)
qed

text \<open>
  An option that is given but empty hides the positional value: the check for a combination of the two
  looks at the option's truth value, the reader at its presence, so the value silently becomes empty.
\<close>

lemma empty_decodings: "b64decode_validate [] = Inr []" "bytes_fromhex [] = Inr []"
  by code_simp+

lemma empty_option_hides_value:
  assumes "ca_command args \<in> {''set'', ''set-if-absent''}"
    and "va_positional (ca_value args) = Some p" "va_file (ca_value args) = None"
    and "va_base64 (ca_value args) = Some [] \<and> va_hex (ca_value args) = None \<or>
      va_base64 (ca_value args) = None \<and> va_hex (ca_value args) = Some []"
  shows "validate_value_args args = None \<and>
    parse_value_input read_bytes (ca_value args) ''value'' (ca_command args) = Inr []"
proof
  have "ca_command args \<noteq> ''compare-and-set''" using assms(1) by auto
  then show "validate_value_args args = None"
    using assms by (auto simp: validate_value_args_def given_def)
  show "parse_value_input read_bytes (ca_value args) ''value'' (ca_command args) = Inr []"
    using assms(3,4) by (auto simp: parse_value_input_def given_def empty_decodings)
qed

section \<open>Exit codes and streams\<close>

text \<open>
  What a command leaves behind: on an exception or with code 2 nothing was printed to the standard
  output and no file was written; no channel is opened or closed by it.
\<close>

definition quiet :: "'s cli_world \<Rightarrow> 's cli_world \<Rightarrow> bool" where
  "quiet w w' \<longleftrightarrow> cw_stdout w' = cw_stdout w \<and> cw_files w' = cw_files w"

definition clean_step :: "'s cli_world \<Rightarrow> (cli_exn + int) \<times> 's cli_world \<Rightarrow> bool" where
  "clean_step w x \<longleftrightarrow>
     cw_opened (snd x) = cw_opened w \<and> cw_closed (snd x) = cw_closed w \<and>
     (case fst x of
        Inl _ \<Rightarrow> quiet w (snd x) \<and> length (cw_stderr w) \<le> length (cw_stderr (snd x))
      | Inr code \<Rightarrow> code \<in> {0, 1, 2} \<and>
          (code = 2 \<longrightarrow> quiet w (snd x) \<and> length (cw_stderr w) < length (cw_stderr (snd x))))"

text \<open>Steps that touch neither the standard output, the files nor the channels.\<close>

definition silent :: "'s cli_world \<Rightarrow> 's cli_world \<Rightarrow> bool" where
  "silent w w' \<longleftrightarrow> quiet w w' \<and> cw_opened w' = cw_opened w \<and> cw_closed w' = cw_closed w \<and>
     length (cw_stderr w) \<le> length (cw_stderr w')"

lemma silent_simps [simp]:
  "silent w (snd (cli_call f w))" "silent w (snd (cli_lift r w))"
  "silent w (emit_response_request_id args md w)"
  by (simp_all add: silent_def quiet_def cli_call_def cli_lift_def emit_response_request_id_def
      print_err_def split: prod.split option.split)

lemma clean_seq:
  assumes "silent w (snd x)" "\<And>v w1. x = (Inr v, w1) \<Longrightarrow> silent w w1 \<Longrightarrow> clean_step w1 (f v w1)"
  shows "clean_step w (py_seq x f)"
proof (cases x)
  case (Pair r w1)
  show ?thesis
  proof (cases r)
    case (Inl e)
    with Pair assms(1) show ?thesis by (simp add: clean_step_def silent_def)
  next
    case (Inr v)
    with Pair assms have "silent w w1" "clean_step w1 (f v w1)" by auto
    then show ?thesis
      unfolding Pair Inr by (auto simp: clean_step_def silent_def quiet_def split: sum.splits)
  qed
qed

lemma emit_fields:
  "cw_stdout (emit_response_request_id args md w) = cw_stdout w"
  "cw_files (emit_response_request_id args md w) = cw_files w"
  "cw_opened (emit_response_request_id args md w) = cw_opened w"
  "cw_closed (emit_response_request_id args md w) = cw_closed w"
  "length (cw_stderr w) \<le> length (cw_stderr (emit_response_request_id args md w))"
  using silent_simps(3) [of w args md] by (simp_all add: silent_def quiet_def)

lemma finish_clean:
  "clean_step w (finish_plain args x w)" "clean_step w (finish_conditional_write args y w)"
  by (auto simp: finish_plain_def finish_conditional_write_def clean_step_def quiet_def print_out_def
      print_err_def conditional_exit_code_def emit_fields Let_def less_Suc_eq_le)

lemma run_get_clean: "clean_step w (run_get env args md w)"
  unfolding run_get_def
proof (rule clean_seq, simp, clarify, goal_cases)
  case (1 response initial w1)
  show ?case
    by (cases "ce_write_bytes env (the (ca_output args)) (cv_value response)";
        cases "encode_output (ce_decode_error env) (cv_value response) (ca_format args)")
      (auto simp: clean_step_def quiet_def print_out_def cli_lift_def emit_fields Let_def)
qed

lemma run_command_clean: "clean_step w (run_command env args md w)"
  using run_get_clean [of w env args md]
  by (auto simp: run_command_def run_set_def run_set_if_absent_def run_compare_and_set_def run_delete_def
      run_stats_def clean_step_def [of w "(Inl x, w)" for x] quiet_def
      intro!: clean_seq finish_clean)
    (auto simp: clean_step_def quiet_def print_out_def emit_fields)

text \<open>
  C18: how a run ends. The exit status is 0, 1 or 2. With status 2 nothing went to the standard output or
  to a file and the standard error says why; every channel that was opened was closed; with \<^verbatim>\<open>--tls\<close>
  only a secure channel is opened. An exception escapes exactly when the value arguments are accepted
  and the generated modules are missing or the file of certificates cannot be read: then nothing has
  happened, and the exit status is 1, that of a miss.
\<close>

theorem cli_run_contract:
  assumes "run env args w = (result, w')"
  shows "cli_exit_status result \<in> {0, 1, 2} \<and>
    (cli_exit_status result = 2 \<longrightarrow> cw_stdout w' = cw_stdout w \<and> cw_files w' = cw_files w \<and>
       length (cw_stderr w) < length (cw_stderr w')) \<and>
    (\<exists>opened. cw_opened w' = cw_opened w @ opened \<and> cw_closed w' = cw_closed w + length opened \<and>
       (ca_tls args \<longrightarrow> (\<forall>c \<in> set opened. \<exists>root. c = Secure_channel (ca_target args) root))) \<and>
    (\<forall>e. result = Propagated e \<longleftrightarrow> validate_value_args args = None \<and>
       py_bind (ce_modules env) (\<lambda>_. build_channel (ce_read_bytes env) args) = Inl e) \<and>
    (\<forall>e. result = Propagated e \<longrightarrow> w' = w \<and> cli_exit_status result = 1)"
proof (cases "validate_value_args args")
  case (Some m)
  with assms show ?thesis by (auto simp: run_def cli_exit_status_def print_err_def)
next
  case None
  show ?thesis
  proof (cases "py_bind (ce_modules env) (\<lambda>_. build_channel (ce_read_bytes env) args)")
    case (Inl e)
    with None assms show ?thesis by (auto simp: run_def cli_exit_status_def)
  next
    case (Inr channel)
    let ?w1 = "w\<lparr>cw_opened := cw_opened w @ [channel]\<rparr>"
    let ?md = "cli_metadata (if given (ca_request_id args) then the (ca_request_id args) else ce_uuid env)
      (ca_namespace args)"
    define x where "x = py_seq (cli_lift (ce_ready env) ?w1) (\<lambda>_. run_command env args ?md)"
    have run: "cli_finish x = (result, w')"
      using assms None Inr by (simp add: run_def x_def Let_def)
    have clean: "clean_step ?w1 x" unfolding x_def by (rule clean_seq) (simp_all add: run_command_clean)
    have tls: "ca_tls args \<Longrightarrow> \<exists>root. channel = Secure_channel (ca_target args) root"
      using Inr by (auto simp: build_channel_def py_simps split: if_splits)
    from run clean tls Inr show ?thesis
      by (cases x; cases "fst x")
        (auto simp: cli_finish_def clean_step_def quiet_def print_err_def cli_exit_status_def
          split: cli_exn.splits)
  qed
qed

section \<open>Through the server and back\<close>

fun status_name :: "status_code \<Rightarrow> string" where
  "status_name INVALID_ARGUMENT = ''INVALID_ARGUMENT''"
| "status_name RESOURCE_EXHAUSTED = ''RESOURCE_EXHAUSTED''"
| "status_name INTERNAL = ''INTERNAL''"

text \<open>
  What gRPC documents of a unary call, as a predicate on a stub: the handler, behind the request id
  interceptor, runs with the metadata of the call and no status set; the caller gets the response and
  the initial metadata when the handler left the status alone, and an error with the code and the
  details it set otherwise.
\<close>

definition unary_call ::
    "string \<Rightarrow> (rpc_context \<Rightarrow> 's rpc_world \<Rightarrow> 'r \<times> 's rpc_world) \<Rightarrow> metadata \<Rightarrow> 's rpc_world
      \<Rightarrow> (rpc_error + 'r \<times> metadata) \<times> 's rpc_world" where
  "unary_call peer handler md w =
     (let sc = \<lparr> sc_peer = Inr peer, sc_metadata = Inr (Some md), sc_send = Inr () \<rparr>;
          (sent, result, w') =
            with_request_id sc (\<lambda>w1. let (r, w2) = handler (handler_context sc) w1 in (Inr r, w2))
              (w\<lparr>rw_code := None, rw_details := None\<rparr>)
      in (case result of
            Inl e \<Rightarrow> Inl \<lparr> re_code = ''UNKNOWN'', re_details = exn_message e \<rparr>
          | Inr r \<Rightarrow>
              (case rw_code w' of
                 None \<Rightarrow> Inr (r, the sent)
               | Some c \<Rightarrow> Inl \<lparr> re_code = status_name c, re_details = the (rw_details w') \<rparr>), w'))"

definition delivers :: "string \<Rightarrow> 's cache_app \<Rightarrow> 's rpc_world cli_stub \<Rightarrow> bool" where
  "delivers peer app stub \<longleftrightarrow>
     (\<forall>key md t w. stub_get stub key md t w = unary_call peer (\<lambda>c. grpc_get app c key) md w) \<and>
     (\<forall>item md t w. stub_set stub item md t w = unary_call peer (\<lambda>c. grpc_set app c item) md w)"

definition md_context :: "string \<Rightarrow> metadata \<Rightarrow> rpc_context" where
  "md_context peer md =
     handler_context \<lparr> sc_peer = Inr peer, sc_metadata = Inr (Some md), sc_send = Inr () \<rparr>"

lemma unary_call_runs:
  assumes "unary_call peer handler md w = (x, w')"
  shows "\<exists>w1 r w2 initial. rw_app w1 = rw_app w \<and> rw_code w1 = None \<and>
    handler (md_context peer md) w1 = (r, w2) \<and> rw_app w' = rw_app w2 \<and>
    (if rw_code w2 = None then x = Inr (r, initial) else \<exists>e. x = Inl e)"
proof -
  let ?sc = "\<lparr> sc_peer = Inr peer, sc_metadata = Inr (Some md), sc_send = Inr () \<rparr>"
  let ?w0 = "w\<lparr>rw_code := None, rw_details := None\<rparr>"
  obtain i token sent w1 where e: "enter_request_id_scope ?sc ?w0 = (Inr (i, token, sent), w1)"
    by (cases "request_id_loop md")
      (auto simp: enter_request_id_scope_def get_request_id_from_metadata_def Let_def)
  obtain r w2 where h: "handler (handler_context ?sc) w1 = (r, w2)" by fastforce
  have "rw_app w1 = rw_app w" "rw_code w1 = None" using enter_scope_id [OF e] by simp_all
  with assms e h show ?thesis
    by (intro exI [of _ w1] exI [of _ r] exI [of _ w2] exI [of _ "the sent"])
      (auto simp: unary_call_def with_request_id_def leave_request_id_scope_def md_context_def
        split: option.splits)
qed

lemma set_answer_OK: "py_bind x set_answer = Inr (PB_OK, m) \<Longrightarrow> x = Inr Set_OK"
  by (cases x; cases "projr x") auto

lemma unary_set_ok:
  assumes "unary_call peer (\<lambda>c. grpc_set app c item) md w = (Inr (PB_OK, initial), w')"
  shows "\<exists>ns. header_namespace (md_context peer md) = Inr ns \<and>
    app_set app (it_key item) (it_value item) (it_ttl item) ns (rw_app w) = (Inr Set_OK, rw_app w')"
proof -
  from unary_call_runs [OF assms] obtain w1 w2 where
    w1: "rw_app w1 = rw_app w" "rw_code w1 = None" and h: "grpc_set app (md_context peer md) item w1 = (PB_OK, w2)"
    and w2: "rw_app w' = rw_app w2"
    by (auto split: if_splits)
  from outcome_set [of app "md_context peer md" item w1] h w1 w2 show ?thesis
    by (auto simp: single_outcome_def error_outcome_def Let_def split: sum.splits prod.splits
        option.splits if_splits dest!: set_answer_OK)
qed

lemma unary_get_ok:
  assumes "unary_call peer (\<lambda>c. grpc_get app c key) md w = (x, w')"
    and "header_namespace (md_context peer md) = Inr ns"
    and "app_get app key ns (rw_app w) = (Inr (py_opt_bytes found), s)"
  shows "\<exists>initial response. x = Inr (response, initial) \<and>
    (case found of None \<Rightarrow> \<not> cv_found response | Some v \<Rightarrow> cv_found response \<and> cv_value response = v)"
proof -
  from unary_call_runs [OF assms(1)] obtain w1 r w2 initial where
    w1: "rw_app w1 = rw_app w" "rw_code w1 = None" and h: "grpc_get app (md_context peer md) key w1 = (r, w2)"
    and x: "if rw_code w2 = None then x = Inr (r, initial) else \<exists>e. x = Inl e"
    by auto
  from outcome_get [of app "md_context peer md" key w1] h w1 x assms(2,3) show ?thesis
    by (cases found) (auto simp: single_outcome_def get_answer_def)
qed

context cache_backend
begin

text \<open>A successful write, then a read of the same key and namespace.\<close>

lemma svc_set_then_get:
  assumes "inv s" "svc_set P k v ttl ns s = (Inr Set_OK, s1)"
  shows "\<exists>x s2. svc_get P k ns s1 = (Inr x, s2) \<and> (x = None \<or> x = Some v)"
proof -
  from assms(2) obtain sk where sk: "storage_key k ns = Inr sk"
    and put: "port_set P sk v (normalize_ttl ttl) s = (Inr Set_OK, s1)"
    by (auto simp: svc_set_def split: sum.splits)
  note key = storage_key_valid [OF sk]
  from set_law [OF assms(1) key, of v "normalize_ttl ttl"] put have s1: "inv s1" "content s1 sk = Some v"
    by auto
  from get_law [OF s1(1) key] s1(2) sk show ?thesis by (auto simp: svc_get_def)
qed

end

lemma run_set_code_0:
  assumes "run env args w = (Exit_code 0, w1)" "ca_command args = ''set''"
    and "parse_value_input (ce_read_bytes env) (ca_value args) ''value'' ''set'' = Inr v"
  shows "\<exists>ttl initial md channel. ce_modules env = Inr () \<and> ce_ready env = Inr () \<and>
    build_channel (ce_read_bytes env) args = Inr channel \<and>
    md = cli_metadata (if given (ca_request_id args) then the (ca_request_id args) else ce_uuid env)
      (ca_namespace args) \<and>
    ce_int32 env (ca_ttl args) = Inr ttl \<and>
    stub_set (ce_stub env) \<lparr> it_key = ca_key args, it_value = v, it_ttl = ttl \<rparr> md (ca_timeout args)
      (cw_server w) = (Inr (PB_OK, initial), cw_server w1)"
proof (cases "validate_value_args args")
  case None
  from assms None obtain channel where
    ch: "ce_modules env = Inr ()" "build_channel (ce_read_bytes env) args = Inr channel"
    by (cases "ce_modules env"; cases "build_channel (ce_read_bytes env) args") (auto simp: run_def Let_def)
  let ?w1 = "w\<lparr>cw_opened := cw_opened w @ [channel]\<rparr>"
  let ?md = "cli_metadata (if given (ca_request_id args) then the (ca_request_id args) else ce_uuid env)
      (ca_namespace args)"
  have fin: "cli_finish (py_seq (cli_lift (ce_ready env) ?w1) (\<lambda>_. run_command env args ?md)) = (Exit_code 0, w1)"
    using assms None ch by (simp add: run_def Let_def)
  obtain w2 where body: "py_seq (cli_lift (ce_ready env) ?w1) (\<lambda>_. run_command env args ?md) = (Inr 0, w2)"
    and w2: "cw_server w1 = cw_server w2"
    using fin by (auto simp: cli_finish_def split: prod.splits sum.splits cli_exn.splits)
  have ready: "ce_ready env = Inr ()" and set: "run_set env args ?md ?w1 = (Inr 0, w2)"
    using body assms(2) by (cases "ce_ready env"; simp add: cli_lift_def run_command_def)+
  note v = assms(3)
  from set obtain ttl where ttl: "ce_int32 env (ca_ttl args) = Inr ttl"
    by (auto simp: run_set_def py_simps cli_lift_def split: sum.splits)
  obtain x s where call: "stub_set (ce_stub env) \<lparr> it_key = ca_key args, it_value = v, it_ttl = ttl \<rparr> ?md
      (ca_timeout args) (cw_server w) = (x, s)" by fastforce
  from set v ttl call obtain status initial where "x = Inr (status, initial)"
    "finish_plain args (status, initial) (?w1\<lparr>cw_server := s\<rparr>) = (Inr 0, w2)"
    by (auto simp: run_set_def cli_lift_def cli_call_def split: sum.splits)
  then have "x = Inr (PB_OK, initial)" "cw_server w2 = s"
    by (auto simp: finish_plain_def Let_def print_out_def emit_response_request_id_def print_err_def
        split: if_splits option.splits)
  with ch ready ttl call w2 show ?thesis by auto
qed (use assms in \<open>auto simp: run_def\<close>)

lemma run_get_prints:
  assumes "ca_command args = ''get''" "ce_modules env = Inr ()" "ce_ready env = Inr ()"
    and "build_channel (ce_read_bytes env) args = Inr channel" "ca_output args = None"
    and "md = cli_metadata (if given (ca_request_id args) then the (ca_request_id args) else ce_uuid env)
      (ca_namespace args)"
    and "stub_get (ce_stub env) (ca_key args) md (ca_timeout args) (cw_server w) =
      (Inr (response, initial), s)"
    and "encode_output (ce_decode_error env) (cv_value response) (ca_format args) = Inr text \<or> \<not> cv_found response"
    and "run env args w = (result, w')"
  shows "result = Exit_code (if cv_found response then 0 else 1) \<and>
    cw_stdout w' = cw_stdout w @ (if cv_found response then [Out_text text] else [])"
  using assms
  by (auto simp: run_def validate_value_args_def cli_lift_def cli_call_def run_command_def run_get_def
      cli_finish_def given_def print_out_def emit_fields Let_def)

text \<open>
  C2: what was set is what is got, through the client, gRPC, the service and whichever backend runs. After
  a \<^verbatim>\<open>set\<close> that exits with 0, a \<^verbatim>\<open>get\<close> with the same arguments either exits with 1 and prints
  nothing, when the entry has expired meanwhile, or exits with 0 and prints exactly the bytes the
  \<^verbatim>\<open>set\<close> was given, in the format asked for.
\<close>

theorem cli_set_then_get:
  assumes "delivers peer (service_app backend_port) (ce_stub env)"
    and "backend_inv (rw_app (cw_server w))"
    and "run env args w = (Exit_code 0, w1)" "ca_command args = ''set''"
    and "parse_value_input (ce_read_bytes env) (ca_value args) ''value'' ''set'' = Inr v"
    and "encode_output (ce_decode_error env) v fmt = Inr text"
    and "run env (args\<lparr>ca_command := ''get'', ca_format := fmt, ca_output := None\<rparr>) w1 = (result, w2)"
  shows "result = Exit_code 1 \<and> cw_stdout w2 = cw_stdout w1 \<or>
    result = Exit_code 0 \<and> cw_stdout w2 = cw_stdout w1 @ [Out_text text]"
proof -
  let ?get = "args\<lparr>ca_command := ''get'', ca_format := fmt, ca_output := None\<rparr>"
  from run_set_code_0 [OF assms(3-5)] obtain ttl initial md channel where
    ok: "ce_modules env = Inr ()" "ce_ready env = Inr ()" "build_channel (ce_read_bytes env) args = Inr channel"
    and md: "md = cli_metadata (if given (ca_request_id args) then the (ca_request_id args) else ce_uuid env)
      (ca_namespace args)"
    and set: "stub_set (ce_stub env) \<lparr> it_key = ca_key args, it_value = v, it_ttl = ttl \<rparr> md (ca_timeout args)
      (cw_server w) = (Inr (PB_OK, initial), cw_server w1)"
    by blast
  have "unary_call peer (\<lambda>c. grpc_set (service_app backend_port) c
      \<lparr> it_key = ca_key args, it_value = v, it_ttl = ttl \<rparr>) md (cw_server w) = (Inr (PB_OK, initial), cw_server w1)"
    using assms(1) set by (simp add: delivers_def)
  from unary_set_ok [OF this] obtain ns where ns: "header_namespace (md_context peer md) = Inr ns"
    and "svc_set backend_port (ca_key args) v ttl ns (rw_app (cw_server w)) = (Inr Set_OK, rw_app (cw_server w1))"
    by (auto simp: service_app_def)
  from any_backend.svc_set_then_get [OF assms(2) this(2)] obtain found s2 where
    found: "svc_get backend_port (ca_key args) ns (rw_app (cw_server w1)) = (Inr found, s2)"
      "found = None \<or> found = Some v"
    by blast
  then have app: "app_get (service_app backend_port) (ca_key args) ns (rw_app (cw_server w1)) =
      (Inr (py_opt_bytes found), s2)"
    by (simp add: service_app_def reply_map_iff)
  obtain x s3 where get: "unary_call peer (\<lambda>c. grpc_get (service_app backend_port) c (ca_key args)) md
      (cw_server w1) = (x, s3)" by fastforce
  from unary_get_ok [OF get ns app] obtain response initial' where
    x: "x = Inr (response, initial')" and r: "case found of None \<Rightarrow> \<not> cv_found response
      | Some v \<Rightarrow> cv_found response \<and> cv_value response = v"
    by blast
  have "stub_get (ce_stub env) (ca_key ?get) md (ca_timeout ?get) (cw_server w1) = (Inr (response, initial'), s3)"
    using assms(1) get x by (simp add: delivers_def)
  moreover have "encode_output (ce_decode_error env) (cv_value response) (ca_format ?get) = Inr text \<or>
      \<not> cv_found response"
    using r found(2) assms(6) by auto
  moreover have "build_channel (ce_read_bytes env) ?get = Inr channel"
    using ok(3) by (auto simp: build_channel_def split: if_splits)
  ultimately show ?thesis
    using run_get_prints [of ?get env channel md w1 response initial' s3 "text" result w2] ok md assms(7) r found(2)
    by (auto split: option.splits if_splits)
qed

text \<open>A client of a server over an in-memory store that holds \<open>''a''\<close>, without a proxy in between.\<close>

definition service_stub :: "string \<Rightarrow> (nat \<Rightarrow> int \<Rightarrow> int py) \<Rightarrow> 's cache_app \<Rightarrow> 's rpc_world cli_stub" where
  "service_stub peer pb_int app =
     \<lparr> stub_get = (\<lambda>key md t. unary_call peer (\<lambda>c. grpc_get app c key) md),
       stub_set = (\<lambda>item md t. unary_call peer (\<lambda>c. grpc_set app c item) md),
       stub_set_if_absent = (\<lambda>item md t. unary_call peer (\<lambda>c. grpc_set_if_absent app c item) md),
       stub_compare_and_set = (\<lambda>r md t. unary_call peer (\<lambda>c. grpc_compare_and_set app c r) md),
       stub_delete = (\<lambda>key md t. unary_call peer (\<lambda>c. grpc_delete app c key) md),
       stub_stats = (\<lambda>md t. unary_call peer (grpc_stats pb_int app) md) \<rparr>"

definition sample_cli_env :: "backend_store rpc_world cli_env" where
  "sample_cli_env =
     \<lparr> ce_stub = service_stub ''ipv4:127.0.0.1:9'' (\<lambda>_. Inr) (service_app backend_port),
       ce_modules = Inr (), ce_ready = Inr (), ce_int32 = Inr,
       ce_read_bytes = (\<lambda>p. Inl (BackendError (''no file '' @ p))), ce_write_bytes = (\<lambda>_ _. Inr ()),
       ce_decode_error = (\<lambda>_. ''undecodable''), ce_uuid = ''u0'' \<rparr>"

definition sample_args :: "string \<Rightarrow> value_args \<Rightarrow> cli_args" where
  "sample_args command v =
     \<lparr> ca_target = ''127.0.0.1:50051'', ca_timeout = 5, ca_request_id = None, ca_show_request_id = True,
       ca_namespace = None, ca_tls = False, ca_tls_ca = None, ca_command = command, ca_key = ''k'',
       ca_format = ''base64'', ca_output = None, ca_ttl = 0, ca_value = v,
       ca_expected_value = value_args_of [] [] \<rparr>"

definition sample_cli_world :: "backend_store rpc_world cli_world" where
  "sample_cli_world =
     \<lparr> cw_server = \<lparr> rw_app = Memory_backend sample_store, rw_request_id = ''-'', rw_uuid = (\<lambda>_. ''u1''),
         rw_uuid_reads = 0, rw_debug_enabled = False, rw_log = [], rw_code = None, rw_details = None \<rparr>,
       cw_stdout = [], cw_stderr = [], cw_files = [], cw_opened = [], cw_closed = 0 \<rparr>"

lemma sample_delivers: "delivers ''ipv4:127.0.0.1:9'' (service_app backend_port) (ce_stub sample_cli_env)"
  by (simp add: delivers_def sample_cli_env_def service_stub_def)

lemma sample_set_run:
  "fst (run sample_cli_env (sample_args ''set'' (value_args_of ''utf8'' ''hi'')) sample_cli_world) = Exit_code 0"
  by code_simp

theorem cli_set_then_get_witness:
  "let (r1, w1) = run sample_cli_env (sample_args ''set'' (value_args_of ''utf8'' ''hi'')) sample_cli_world;
       (r2, w2) = run sample_cli_env (sample_args ''get'' (value_args_of ''utf8'' ''hi'')) w1
   in r2 = Exit_code 1 \<and> cw_stdout w2 = cw_stdout w1 \<or>
      r2 = Exit_code 0 \<and> cw_stdout w2 = cw_stdout w1 @ [out_string ''aGk='']"
proof -
  let ?args = "sample_args ''set'' (value_args_of ''utf8'' ''hi'')"
  obtain w1 where set: "run sample_cli_env ?args sample_cli_world = (Exit_code 0, w1)"
    using sample_set_run by (metis prod.collapse)
  obtain r2 w2 where get: "run sample_cli_env (?args\<lparr>ca_command := ''get'', ca_format := ''base64'',
      ca_output := None\<rparr>) w1 = (r2, w2)" by fastforce
  have inv: "backend_inv (rw_app (cw_server sample_cli_world))"
    by (simp add: sample_cli_world_def sample_store_inv)
  have v: "parse_value_input (ce_read_bytes sample_cli_env) (ca_value ?args) ''value'' ''set'' = Inr [104, 105]"
    "encode_output (ce_decode_error sample_cli_env) [104, 105] ''base64'' = Inr (map char_code ''aGk='')"
    by code_simp+
  have "ca_command ?args = ''set''" by (simp add: sample_args_def)
  from cli_set_then_get [OF sample_delivers inv set this v get] set get show ?thesis
    by (simp add: sample_args_def out_string_def)
qed

theorem cli_run_contract_witness:
  "run sample_cli_env ((sample_args ''stats'' (value_args_of [] []))\<lparr>ca_tls := True, ca_tls_ca := Some ''x''\<rparr>)
     sample_cli_world = (Propagated (BackendError ''no file x''), sample_cli_world)"
proof -
  let ?args = "(sample_args ''stats'' (value_args_of [] []))\<lparr>ca_tls := True, ca_tls_ca := Some ''x''\<rparr>"
  obtain r w' where run: "run sample_cli_env ?args sample_cli_world = (r, w')" by fastforce
  have "validate_value_args ?args = None \<and> py_bind (ce_modules sample_cli_env)
      (\<lambda>_. build_channel (ce_read_bytes sample_cli_env) ?args) = Inl (BackendError ''no file x'')"
    by code_simp
  with cli_run_contract [OF run] have "r = Propagated (BackendError ''no file x'')" by blast
  with cli_run_contract [OF run] run show ?thesis by simp
qed

end
