(* ===== verification/CliParserProps.thy ===== *)
theory CliParserProps
  imports CliParser CliProps
begin

text \<open>
  Properties of the client with its parser in front: a command line that parses gives attributes of
  their types, and what the whole program does with a command line.
\<close>

section \<open>The parsers of the client\<close>

abbreviation main_parser :: arg_parser where
  "main_parser \<equiv> \<lparr> ap_options = main_options, ap_positionals = [] \<rparr>"

lemma main_parser_wf: "parser_wf main_parser"
  by code_simp

lemma sub_parsers_wf:
  "list_all (\<lambda>(command, sub). parser_wf sub \<and> ''command'' \<notin> set (parser_dests sub) \<and>
     list_all (\<lambda>d. d \<notin> set (parser_dests sub)) (parser_dests main_parser)) sub_parsers"
  by code_simp

lemma command_no_option: "''command'' \<notin> set (parser_dests main_parser)"
  by code_simp

lemma namespace_ok_agree:
  assumes "\<And>d. d \<in> set (parser_dests p) \<Longrightarrow> ns' d = ns d" "namespace_ok p ns"
  shows "namespace_ok p ns'"
proof -
  have "ns' (option_dest opt) = ns (option_dest opt)" if "opt \<in> set (ap_options p)" for opt
    using that by (intro assms(1)) (simp add: parser_dests_def)
  moreover have "ns' (fst q) = ns (fst q)" if "q \<in> set (ap_positionals p)" for q
    using that by (intro assms(1)) (simp add: parser_dests_def)
  ultimately show ?thesis using assms(2) by (simp add: namespace_ok_def) blast
qed

lemma namespace_option:
  "namespace_ok p ns \<Longrightarrow> opt \<in> set (ap_options p) \<Longrightarrow>
     \<exists>v. ns (option_dest opt) = Some v \<and> option_value_ok opt v"
  unfolding namespace_ok_def by blast

lemma namespace_positional:
  "namespace_ok p ns \<Longrightarrow> q \<in> set (ap_positionals p) \<Longrightarrow> \<exists>v. ns (fst q) = Some v \<and> positional_ok q v"
  unfolding namespace_ok_def by blast

lemma namespace_exclusive:
  "namespace_ok p ns \<Longrightarrow> opt \<in> set (ap_options p) \<Longrightarrow> other \<in> set (ap_options p) \<Longrightarrow>
     ao_group opt \<noteq> None \<Longrightarrow> ao_group opt = ao_group other \<Longrightarrow>
     ns (option_dest opt) \<noteq> Some (ao_default opt) \<Longrightarrow> ns (option_dest other) \<noteq> Some (ao_default other) \<Longrightarrow>
     ao_flag opt = ao_flag other"
  unfolding namespace_ok_def by blast

lemma parse_args_Inr:
  assumes "parse_args py_float build_parser line = Inr ns"
  obtains command sub where "cl_command line = Some command" "map_of sub_parsers command = Some sub"
    "ns ''command'' = Some (AV_str command)" "namespace_ok main_parser ns" "namespace_ok sub ns"
    "dom ns = insert ''command'' (set (parser_dests main_parser) \<union> set (parser_dests sub))"
proof -
  from assms obtain st command sub st1 st2 where
    main: "take_options py_float main_parser (cl_global line) (start_state main_parser) = Inr st"
    and cmd: "cl_command line = Some command" "map_of sub_parsers command = Some sub"
    and opts: "take_options py_float sub (cl_options line) (start_state sub) = Inr st1"
    and pos: "take_positionals (ap_positionals sub) (cl_positionals line) st1 = Inr st2"
    and ns: "ns = (ps_namespace st ++ ps_namespace st2)(''command'' \<mapsto> AV_str command)"
    by (auto simp: parse_args_def build_parser_def split: sum.splits option.splits if_splits)
  have sub: "parser_wf sub" "''command'' \<notin> set (parser_dests sub)"
    "set (parser_dests main_parser) \<inter> set (parser_dests sub) = {}"
    using sub_parsers_wf map_of_SomeD [OF cmd(2)] by (auto simp: list_all_iff)
  have dom1: "namespace_ok main_parser (ps_namespace st)"
    "dom (ps_namespace st) = set (parser_dests main_parser)"
    using parser_namespace_ok [OF main_parser_wf main, of "[]" "st\<lparr>ps_extras := ps_extras st @ []\<rparr>"]
    by simp_all
  have dom2: "namespace_ok sub (ps_namespace st2)" "dom (ps_namespace st2) = set (parser_dests sub)"
    using parser_namespace_ok [OF sub(1) opts pos] by simp_all
  show ?thesis
  proof (rule that [OF cmd])
    show "ns ''command'' = Some (AV_str command)" by (simp add: ns)
    show "dom ns = insert ''command'' (set (parser_dests main_parser) \<union> set (parser_dests sub))"
      using dom1(2) dom2(2) by (auto simp: ns)
    show "namespace_ok sub ns"
    proof (rule namespace_ok_agree [OF _ dom2(1)])
      fix d assume "d \<in> set (parser_dests sub)"
      with sub(2) dom2(2) have "d \<noteq> ''command''" "d \<in> dom (ps_namespace st2)" by auto
      then show "ns d = ps_namespace st2 d" by (auto simp: ns)
    qed
    show "namespace_ok main_parser ns"
    proof (rule namespace_ok_agree [OF _ dom1(1)])
      fix d assume "d \<in> set (parser_dests main_parser)"
      with sub(3) dom2(2) command_no_option have "ps_namespace st2 d = None" "d \<noteq> ''command''" by auto
      then show "ns d = ps_namespace st d" by (simp add: ns map_add_def)
    qed
  qed
qed


definition no_float :: "string \<Rightarrow> real option" where
  "no_float s = None"

definition set_line :: command_line where
  "set_line =
     \<lparr> cl_global = [(''--tls'', None), (''--target'', Some ''h:1'')], cl_command = Some ''set'',
       cl_options = [(''--value-hex'', Some ''ff''), (''--ttl'', Some '' 1_0 '')], cl_positionals = [''k''] \<rparr>"

lemma set_line_parses: "\<exists>ns. parse_args no_float build_parser set_line = Inr ns"
proof -
  have "\<not> isl (parse_args no_float build_parser set_line)" by code_simp
  then show ?thesis by (cases "parse_args no_float build_parser set_line") auto
qed


section \<open>The program\<close>

text \<open>At most one of the options that name a value is given.\<close>

definition one_source :: "value_args \<Rightarrow> bool" where
  "one_source v \<longleftrightarrow>
     (va_file v = None \<and> va_base64 v = None) \<or> (va_file v = None \<and> va_hex v = None) \<or>
     (va_base64 v = None \<and> va_hex v = None)"

definition value_option :: "string \<Rightarrow> string \<Rightarrow> arg_option" where
  "value_option option_prefix ending =
     (str_option (''--'' @ option_prefix @ ending))\<lparr>ao_group := Some option_prefix\<rparr>"

lemma value_option_dest:
  "option_dest (value_option option_prefix ending) =
     map (\<lambda>c. if c = CHR ''-'' then CHR ''_'' else c) (option_prefix @ ending)"
  by (simp add: option_dest_def dest_of_def value_option_def str_option_def)

lemma namespace_value_options:
  assumes "namespace_ok p ns" "value_option pre s1 \<in> set (ap_options p)" "value_option pre s2 \<in> set (ap_options p)"
    and "s1 \<noteq> s2"
  shows "attr_opt ns (option_dest (value_option pre s1)) = None \<or>
    attr_opt ns (option_dest (value_option pre s2)) = None"
proof (rule ccontr)
  assume "\<not> ?thesis"
  then have "ns (option_dest (value_option pre s1)) \<noteq> Some AV_none"
    "ns (option_dest (value_option pre s2)) \<noteq> Some AV_none"
    by (auto simp: attr_opt_def)
  moreover have "ao_default (value_option pre s) = AV_none" "ao_group (value_option pre s) = Some pre" for s
    by (simp_all add: value_option_def str_option_def)
  ultimately have "ao_flag (value_option pre s1) = ao_flag (value_option pre s2)"
    by (intro namespace_exclusive [OF assms(1-3)]) simp_all
  with assms(4) show False by (simp add: value_option_def str_option_def)
qed

lemma one_source_attrs:
  assumes "namespace_ok p ns" "set (map (value_option pre) [''-base64'', ''-hex'', ''-file'']) \<subseteq> set (ap_options p)"
    and "attr = map (\<lambda>c. if c = CHR ''-'' then CHR ''_'' else c) pre"
  shows "one_source (value_attrs ns attr)"
  using assms(2) namespace_value_options [OF assms(1), of pre "''-base64''" "''-hex''"]
    namespace_value_options [OF assms(1), of pre "''-base64''" "''-file''"]
    namespace_value_options [OF assms(1), of pre "''-hex''" "''-file''"]
  by (auto simp: one_source_def value_attrs_def value_option_dest assms(3))

lemma one_source_missing:
  "ns (attr @ ''_file'') = None \<Longrightarrow> ns (attr @ ''_base64'') = None \<Longrightarrow> one_source (value_attrs ns attr)"
  by (simp add: one_source_def value_attrs_def attr_opt_def)

text \<open>The arguments \<^verbatim>\<open>run\<close> gets from a command line that parses.\<close>

definition args_ok :: "cli_args \<Rightarrow> bool" where
  "args_ok args \<longleftrightarrow>
     ca_command args \<in> set [''get'', ''set'', ''set-if-absent'', ''compare-and-set'', ''delete'', ''stats''] \<and>
     (ca_command args = ''get'' \<longrightarrow> ca_format args \<in> set [''base64'', ''hex'', ''utf8'']) \<and>
     one_source (ca_value args) \<and> one_source (ca_expected_value args)"

text \<open>What each of the six parsers has, by evaluation.\<close>

lemma sub_parsers_values:
  "list_all (\<lambda>(command, sub). list_all (\<lambda>(pre, attr).
       list_all (\<lambda>ending. value_option pre ending \<in> set (ap_options sub)) [''-base64'', ''-hex'', ''-file''] \<or>
       list_all (\<lambda>ending. attr @ ending \<notin> set (''command'' # parser_dests main_parser @ parser_dests sub))
         [''_file'', ''_base64''])
     [(''value'', ''value''), (''expected-value'', ''expected_value'')]) sub_parsers"
  by code_simp

lemma get_format:
  "list_ex (\<lambda>opt. option_dest opt = ''format'' \<and> ao_default opt = AV_str ''base64'' \<and>
     ao_action opt = Store T_str [''base64'', ''hex'', ''utf8'']) (ap_options (the (map_of sub_parsers ''get'')))"
  by code_simp

lemma parsed_args_ok:
  assumes "parse_args py_float build_parser line = Inr ns"
  shows "args_ok (args_of_namespace ns)"
proof -
  obtain command sub where cmd: "map_of sub_parsers command = Some sub" "ns ''command'' = Some (AV_str command)"
    and ok: "namespace_ok sub ns"
    and dom: "dom ns = insert ''command'' (set (parser_dests main_parser) \<union> set (parser_dests sub))"
    by (rule parse_args_Inr [OF assms])
  note sub = map_of_SomeD [OF cmd(1)]
  have source: "one_source (value_attrs ns attr)"
    if "(pre, attr) \<in> set [(''value'', ''value''), (''expected-value'', ''expected_value'')]" for pre attr
  proof -
    have attr: "attr = map (\<lambda>c. if c = CHR ''-'' then CHR ''_'' else c) pre" using that by auto
    from sub_parsers_values sub that consider
      "list_all (\<lambda>ending. value_option pre ending \<in> set (ap_options sub)) [''-base64'', ''-hex'', ''-file'']"
    | "list_all (\<lambda>ending. attr @ ending \<notin> set (''command'' # parser_dests main_parser @ parser_dests sub))
         [''_file'', ''_base64'']"
      unfolding list_all_iff by fast
    then show ?thesis
    proof cases
      case 1
      then show ?thesis by (intro one_source_attrs [OF ok _ attr]) (simp add: list_all_iff)
    next
      case 2
      then have "attr @ ''_file'' \<notin> dom ns" "attr @ ''_base64'' \<notin> dom ns" by (simp_all add: dom)
      then show ?thesis by (intro one_source_missing) (simp_all add: domIff)
    qed
  qed
  have format: "attr_str ns ''format'' \<in> set [''base64'', ''hex'', ''utf8'']" if "command = ''get''"
  proof -
    from get_format cmd(1) that obtain opt where opt: "opt \<in> set (ap_options sub)" "option_dest opt = ''format''"
      "ao_default opt = AV_str ''base64''" "ao_action opt = Store T_str [''base64'', ''hex'', ''utf8'']"
      by (auto simp: list_ex_iff)
    from namespace_option [OF ok opt(1)] opt(2-4) show ?thesis
      by (auto simp: option_value_ok_def typed_value_def attr_str_def)
  qed
  have names: "map fst sub_parsers = [''get'', ''set'', ''set-if-absent'', ''compare-and-set'', ''delete'', ''stats'']"
    by (simp add: sub_parsers_def)
  have "command \<in> set (map fst sub_parsers)" using sub by force
  then show ?thesis
    using source format cmd(2) unfolding names
    by (simp add: args_ok_def args_of_namespace_def attr_str_def)
qed

text \<open>The parser's own error cannot come from a command it knows.\<close>

definition no_parser_error :: "(cli_exn + 'a) \<times> 's cli_world \<Rightarrow> bool" where
  "no_parser_error x \<longleftrightarrow> (\<forall>m. fst x \<noteq> Inl (Parser_error m))"

lemma no_parser_error_seq:
  "no_parser_error x \<Longrightarrow> (\<And>v w. no_parser_error (f v w)) \<Longrightarrow> no_parser_error (py_seq x f)"
  by (auto simp: py_seq_cases no_parser_error_def split: sum.splits)

lemma no_parser_error_simps [simp]:
  "no_parser_error (cli_call f w)" "no_parser_error (cli_lift r w)" "no_parser_error (Inr x, w)"
  "no_parser_error (finish_plain args y w)" "no_parser_error (finish_conditional_write args z w)"
  by (auto simp: no_parser_error_def cli_call_def cli_lift_def finish_plain_def
      finish_conditional_write_def Let_def split: prod.split sum.split)

lemma run_get_no_parser_error: "no_parser_error (run_get env args md w)"
  unfolding run_get_def
proof (rule no_parser_error_seq, simp, clarify, goal_cases)
  case (1 response initial w1)
  show ?case by (simp add: Let_def no_parser_error_seq)
qed

lemma run_command_no_parser_error:
  assumes "ca_command args \<in> set [''get'', ''set'', ''set-if-absent'', ''compare-and-set'', ''delete'', ''stats'']"
  shows "no_parser_error (run_command env args md w)"
  using assms run_get_no_parser_error
  by (auto simp: run_command_def run_set_def run_set_if_absent_def run_compare_and_set_def run_delete_def
      run_stats_def intro!: no_parser_error_seq)

lemma run_exited:
  assumes "args_ok args" "run env args w = (result, w')"
  shows "result = Exited c \<longleftrightarrow> c = 2 \<and> validate_value_args args \<noteq> None"
proof (cases "validate_value_args args")
  case (Some m)
  with assms(2) show ?thesis by (auto simp: run_def)
next
  case None
  show ?thesis
  proof (cases "py_bind (ce_modules env) (\<lambda>_. build_channel (ce_read_bytes env) args)")
    case (Inl e)
    with None assms(2) show ?thesis by (auto simp: run_def)
  next
    case (Inr channel)
    define x where "x = py_seq (cli_lift (ce_ready env) (w\<lparr>cw_opened := cw_opened w @ [channel]\<rparr>))
      (\<lambda>_. run_command env args (cli_metadata (if given (ca_request_id args) then the (ca_request_id args)
         else ce_uuid env) (ca_namespace args)))"
    have "cli_finish x = (result, w')" using assms(2) None Inr by (simp add: run_def x_def Let_def)
    moreover have "no_parser_error x"
      unfolding x_def using assms(1)
      by (intro no_parser_error_seq run_command_no_parser_error) (simp_all add: args_ok_def)
    ultimately show ?thesis
      using None by (auto simp: cli_finish_def no_parser_error_def split: prod.splits sum.splits cli_exn.splits)
  qed
qed



end
