(* ===== verification/Startup.thy ===== *)
theory Startup
  imports StoreFactory
begin

text \<open>
  The life of the process: the TLS set-up of \<^verbatim>\<open>tiny_cache/infrastructure/tls.py\<close>, the check for the
  generated modules of \<^verbatim>\<open>tiny_cache/infrastructure/protobuf.py\<close>, and \<^verbatim>\<open>serve\<close> with its shutdown from
  \<^verbatim>\<open>tiny_cache/main.py\<close>. The calls into grpc, aiohttp and the event loop are a trace; whether such a
  call raises is decided by an environment, so every failure of every call is covered.
\<close>

section \<open>TLS\<close>

text \<open>What is handed to \<^verbatim>\<open>grpc.ssl_server_credentials\<close>.\<close>

record server_credentials =
  sc_private_key :: bytes
  sc_certificate_chain :: bytes
  sc_root_certificates :: "bytes option"
  sc_require_client_auth :: bool

text \<open>\<open>read_bytes\<close> is the file system: \<^verbatim>\<open>Path(p).read_bytes()\<close>.\<close>

definition build_tls_server_credentials ::
    "(string \<Rightarrow> bytes py) \<Rightarrow> string \<Rightarrow> string \<Rightarrow> string option \<Rightarrow> bool \<Rightarrow> server_credentials py" where
  "build_tls_server_credentials read_bytes cert_path key_path client_ca_path require_client_auth =
     py_bind (read_bytes cert_path) (\<lambda>certificate_chain.
     py_bind (read_bytes key_path) (\<lambda>private_key.
       (if require_client_auth
        then (case client_ca_path of
                None \<Rightarrow> Inl (ValueError ''CACHE_TLS_CLIENT_CA_PATH must be set when client auth is required'')
              | Some path \<Rightarrow>
                  py_bind (read_bytes path) (\<lambda>root_certificates.
                    Inr \<lparr> sc_private_key = private_key, sc_certificate_chain = certificate_chain,
                          sc_root_certificates = Some root_certificates,
                          sc_require_client_auth = True \<rparr>))
        else Inr \<lparr> sc_private_key = private_key, sc_certificate_chain = certificate_chain,
                   sc_root_certificates = None, sc_require_client_auth = False \<rparr>)))"

section \<open>Calls into the libraries\<close>

datatype ext_call =
    Grpc_server
  | Register_service
  | Health_set string bool
  | Add_insecure_port string
  | Add_secure_port string server_credentials
  | Grpc_start
  | Create_health_app int
  | Runner_setup bool
  | Site_start string int
  | Add_signal_handler string
  | Wait_for_termination
  | Grpc_stop
  | Runner_cleanup
  | Store_stop

text \<open>
  The environment of a run: which calls raise, the port the server is bound to, which files of the
  generated code exist, and how many shutdown signals arrive while the service waits.
\<close>

record serve_env =
  en_raises :: "ext_call \<Rightarrow> exn option"
  en_bound_port :: int
  en_read_bytes :: "string \<Rightarrow> bytes py"
  en_is_file :: "string \<Rightarrow> bool"
  en_signals :: nat

type_synonym 'a serving = "ext_call list \<Rightarrow> 'a py \<times> ext_call list"

definition ext :: "serve_env \<Rightarrow> ext_call \<Rightarrow> unit serving" where
  "ext env c tr = (case en_raises env c of None \<Rightarrow> Inr () | Some e \<Rightarrow> Inl e, tr @ [c])"

text \<open>The values the two protocol buffers \<^verbatim>\<open>SERVING\<close> and \<^verbatim>\<open>NOT_SERVING\<close> have in a call are true and false.\<close>

definition add_grpc_health_service :: "serve_env \<Rightarrow> unit serving" where
  "add_grpc_health_service env tr =
     py_seq (ext env (Health_set [] True) tr) (\<lambda>_. ext env (Health_set ''cache.CacheService'' True))"

text \<open>
  A path that is \<^verbatim>\<open>None\<close> or empty counts as not set. The result is the bound port.
\<close>

definition add_grpc_listen_port :: "serve_env \<Rightarrow> string \<Rightarrow> settings \<Rightarrow> int serving" where
  "add_grpc_listen_port env listen_addr st tr =
     (if cf_tls_enabled st
      then
        (case (cf_tls_cert_path st, cf_tls_key_path st) of
           (Some (c # cs), Some (k # ks)) \<Rightarrow>
             (case build_tls_server_credentials (en_read_bytes env) (c # cs) (k # ks)
                     (cf_tls_client_ca_path st) (cf_tls_require_client_auth st) of
                Inl e \<Rightarrow> (Inl e, tr)
              | Inr credentials \<Rightarrow>
                  py_seq (ext env (Add_secure_port listen_addr credentials) tr)
                    (\<lambda>_ tr1. (Inr (en_bound_port env), tr1)))
         | _ \<Rightarrow> (Inl (ValueError
             ''CACHE_TLS_CERT_PATH and CACHE_TLS_KEY_PATH must be set when TLS is enabled''), tr))
      else py_seq (ext env (Add_insecure_port listen_addr) tr)
             (\<lambda>_ tr1. (Inr (en_bound_port env), tr1)))"

definition ensure_generated_protobuf_modules :: "(string \<Rightarrow> bool) \<Rightarrow> unit py" where
  "ensure_generated_protobuf_modules is_file =
     (let missing_files = filter (\<lambda>name. \<not> is_file name) [''cache_pb2.py'', ''cache_pb2_grpc.py'']
      in if missing_files \<noteq> []
         then Inl (RuntimeError (''Missing generated protobuf files: '' @ join '', '' missing_files @
                                 ''. Run `task gen`.''))
         else Inr ())"

section \<open>Shutting down\<close>

definition mark_grpc_not_serving :: "serve_env \<Rightarrow> unit serving" where
  "mark_grpc_not_serving env tr =
     py_seq (ext env (Health_set [] False) tr) (\<lambda>_. ext env (Health_set ''cache.CacheService'' False))"

text \<open>
  Both \<^verbatim>\<open>except Exception\<close> clauses log and go on; the store is stopped in the \<^verbatim>\<open>finally\<close>.
\<close>

definition shutdown_started_service :: "serve_env \<Rightarrow> unit serving" where
  "shutdown_started_service env tr =
     py_seq (mark_grpc_not_serving env tr) (\<lambda>_ tr1.
       (let (_, tr2) = ext env Grpc_stop tr1;
            (_, tr3) = ext env Runner_cleanup tr2
        in ext env Store_stop tr3))"

text \<open>
  \<^verbatim>\<open>_begin_shutdown\<close>: the first call creates the task, the others find it. The task is the outcome of
  its coroutine, which runs while \<^verbatim>\<open>serve\<close> only waits.
\<close>

definition begin_shutdown ::
    "serve_env \<Rightarrow> unit py option \<times> ext_call list \<Rightarrow> unit py option \<times> ext_call list" where
  "begin_shutdown env x =
     (case x of
        (Some task, tr) \<Rightarrow> (Some task, tr)
      | (None, tr) \<Rightarrow> (let (r, tr1) = shutdown_started_service env tr in (Some r, tr1)))"

definition is_KeyboardInterrupt :: "exn \<Rightarrow> bool" where
  "is_KeyboardInterrupt e \<longleftrightarrow> e = BackendError ''KeyboardInterrupt''"

text \<open>
  The last \<^verbatim>\<open>try\<close> of \<^verbatim>\<open>serve\<close>: signals arrive while it waits, a keyboard interrupt is swallowed, and
  the \<^verbatim>\<open>finally\<close> awaits the shutdown task, creating it when no signal has. An exception of the task
  replaces the one that is propagating.
\<close>

definition wait_and_shut_down :: "serve_env \<Rightarrow> unit serving" where
  "wait_and_shut_down env tr =
     (let (waited, tr1) = ext env Wait_for_termination tr;
          x = (begin_shutdown env ^^ en_signals env) (None, tr1);
          (task, tr2) = begin_shutdown env x
      in (case the task of
            Inl e \<Rightarrow> (Inl e, tr2)
          | Inr _ \<Rightarrow>
              (case waited of
                 Inl e \<Rightarrow> if is_KeyboardInterrupt e then (Inr (), tr2) else (Inl e, tr2)
               | Inr _ \<Rightarrow> (Inr (), tr2))))"

section \<open>Serving\<close>

definition listen_address :: "settings \<Rightarrow> string" where
  "listen_address st = cf_host st @ '':'' @ dec_int (cf_port st)"

text \<open>
  \<open>make_store\<close> is \<^verbatim>\<open>create_cache_store\<close> on the files and the clock of the process.
\<close>

definition serve :: "serve_env \<Rightarrow> (settings \<Rightarrow> backend_store py) \<Rightarrow> settings \<Rightarrow> unit py \<times> ext_call list" where
  "serve env make_store st =
     py_seq (ensure_generated_protobuf_modules (en_is_file env), []) (\<lambda>_ tr0.
     py_seq (make_store st, tr0) (\<lambda>cache_store tr1.
     py_seq (ext env Grpc_server tr1) (\<lambda>_ tr2.
     py_seq (ext env Register_service tr2) (\<lambda>_ tr3.
     py_seq (add_grpc_health_service env tr3) (\<lambda>_ tr4.
     py_seq (add_grpc_listen_port env (listen_address st) st tr4) (\<lambda>bound_port tr5.
       (if bound_port = 0
        then py_seq (ext env Store_stop tr5)
               (\<lambda>_ tr6. (Inl (RuntimeError (''Failed to bind gRPC server to '' @ listen_address st)), tr6))
        else
          py_seq (ext env Grpc_start tr5) (\<lambda>_ tr6.
          py_seq (ext env (Create_health_app (cf_port st)) tr6) (\<lambda>_ tr7.
          py_seq (ext env (Runner_setup (cf_log_level st = ''DEBUG'')) tr7) (\<lambda>_ tr8.
          py_seq (ext env (Site_start (cf_health_host st) (cf_health_port st)) tr8) (\<lambda>_ tr9.
          py_seq (ext env (Add_signal_handler ''SIGTERM'') tr9) (\<lambda>_ tr10.
          py_seq (ext env (Add_signal_handler ''SIGINT'') tr10) (\<lambda>_ tr11.
            wait_and_shut_down env tr11)))))))))))))"

text \<open>
  \<^verbatim>\<open>main\<close>: every exception is logged and raised again. The configuration of the log handlers has no
  effect on what follows.
\<close>

definition main ::
    "(settings \<Rightarrow> settings py) \<Rightarrow> environment \<Rightarrow> serve_env \<Rightarrow> (settings \<Rightarrow> backend_store py)
      \<Rightarrow> unit py \<times> ext_call list" where
  "main validate environ env make_store =
     py_seq (load_settings validate environ, []) (\<lambda>st tr.
     py_seq (ensure_generated_protobuf_modules (en_is_file env), tr) (\<lambda>_ _. serve env make_store st))"

section \<open>Facts about traces\<close>

lemma ext_trace [simp]: "snd (ext env c tr) = tr @ [c]"
  by (simp add: ext_def)

lemma ext_cases:
  "ext env c tr = (x, tr') \<longleftrightarrow>
     tr' = tr @ [c] \<and> x = (case en_raises env c of None \<Rightarrow> Inr () | Some e \<Rightarrow> Inl e)"
  by (auto simp: ext_def)

text \<open>Shutting down a service whose health statuses can be set runs all its steps, whatever raises.\<close>

definition shutdown_calls :: "ext_call list" where
  "shutdown_calls =
     [Health_set [] False, Health_set ''cache.CacheService'' False, Grpc_stop, Runner_cleanup, Store_stop]"

definition statuses_settable :: "serve_env \<Rightarrow> bool" where
  "statuses_settable env \<longleftrightarrow> en_raises env (Health_set [] False) = None \<and>
     en_raises env (Health_set ''cache.CacheService'' False) = None"

lemma shutdown_started_service_eq:
  "statuses_settable env \<Longrightarrow> shutdown_started_service env tr =
     (case en_raises env Store_stop of None \<Rightarrow> Inr () | Some e \<Rightarrow> Inl e, tr @ shutdown_calls)"
  by (simp add: shutdown_started_service_def mark_grpc_not_serving_def ext_def statuses_settable_def
      shutdown_calls_def)

lemma begin_shutdown_once: "begin_shutdown env (Some t, tr) = (Some t, tr)"
  by (simp add: begin_shutdown_def)

lemma begin_shutdown_again:
  "begin_shutdown env ((begin_shutdown env ^^ n) (None, tr)) =
     (let (r, tr1) = shutdown_started_service env tr in (Some r, tr1))"
proof (induction n)
  case 0
  show ?case by (simp add: begin_shutdown_def)
next
  case (Suc n)
  obtain r tr1 where "shutdown_started_service env tr = (r, tr1)" by fastforce
  with Suc show ?case by (simp add: begin_shutdown_once)
qed

lemma wait_and_shut_down_eq:
  "statuses_settable env \<Longrightarrow> wait_and_shut_down env tr =
     (case en_raises env Store_stop of
        Some e \<Rightarrow> Inl e
      | None \<Rightarrow>
          (case en_raises env Wait_for_termination of
             Some e \<Rightarrow> if is_KeyboardInterrupt e then Inr () else Inl e
           | None \<Rightarrow> Inr ()),
      tr @ Wait_for_termination # shutdown_calls)"
  by (simp add: wait_and_shut_down_def ext_def begin_shutdown_again shutdown_started_service_eq Let_def
      split: option.split)

text \<open>
  The port a configuration asks for: with TLS, a secure port with the certificate and the key read
  from the configured files, and with client authentication also the certificate authority.
\<close>

definition port_call_ok :: "serve_env \<Rightarrow> settings \<Rightarrow> string \<Rightarrow> ext_call \<Rightarrow> bool" where
  "port_call_ok env st addr c \<longleftrightarrow>
     (if cf_tls_enabled st
      then \<exists>credentials. c = Add_secure_port addr credentials \<and>
        (\<exists>p. cf_tls_cert_path st = Some p \<and> en_read_bytes env p = Inr (sc_certificate_chain credentials)) \<and>
        (\<exists>p. cf_tls_key_path st = Some p \<and> en_read_bytes env p = Inr (sc_private_key credentials)) \<and>
        (cf_tls_require_client_auth st \<longrightarrow> sc_require_client_auth credentials \<and>
          (\<exists>p b. cf_tls_client_ca_path st = Some p \<and> en_read_bytes env p = Inr b \<and>
            sc_root_certificates credentials = Some b))
      else c = Add_insecure_port addr)"

lemma listen_port_trace:
  "add_grpc_listen_port env a st tr = (x, tr') \<Longrightarrow>
     tr' = tr \<and> (\<exists>e. x = Inl e) \<or>
     (\<exists>c. tr' = tr @ [c] \<and> port_call_ok env st a c \<and> (x = Inr (en_bound_port env) \<or> (\<exists>e. x = Inl e)))"
  by (auto simp: add_grpc_listen_port_def build_tls_server_credentials_def ext_def py_seq_cases py_simps
      port_call_ok_def split: if_splits option.splits list.splits sum.splits)

text \<open>The three ways a run ends: before the port is bound, because it could not be, or after.\<close>

definition setup_calls :: "ext_call list" where
  "setup_calls = [Grpc_server, Register_service, Health_set [] True, Health_set ''cache.CacheService'' True]"

definition running_calls :: "settings \<Rightarrow> ext_call list" where
  "running_calls st =
     [Grpc_start, Create_health_app (cf_port st), Runner_setup (cf_log_level st = ''DEBUG''),
      Site_start (cf_health_host st) (cf_health_port st), Add_signal_handler ''SIGTERM'',
      Add_signal_handler ''SIGINT'']"

fun exts :: "serve_env \<Rightarrow> ext_call list \<Rightarrow> unit serving" where
  "exts env [] tr = (Inr (), tr)"
| "exts env (c # cs) tr = py_seq (ext env c tr) (\<lambda>_. exts env cs)"

lemma exts_prefix: "\<exists>cs'. prefix cs' cs \<and> snd (exts env cs tr) = tr @ cs' \<and>
    (fst (exts env cs tr) = Inr () \<longrightarrow> cs' = cs)"
proof (induction cs arbitrary: tr)
  case (Cons c cs)
  show ?case
  proof (cases "en_raises env c")
    case None
    obtain cs' where "prefix cs' cs" "snd (exts env cs (tr @ [c])) = (tr @ [c]) @ cs'"
      "fst (exts env cs (tr @ [c])) = Inr () \<longrightarrow> cs' = cs"
      using Cons.IH by blast
    with None show ?thesis by (intro exI [of _ "c # cs'"]) (simp add: ext_def)
  next
    case (Some e)
    then show ?thesis by (intro exI [of _ "[c]"]) (simp add: ext_def)
  qed
qed simp

lemma py_seq_assoc: "py_seq (py_seq x f) g = py_seq x (\<lambda>v w. py_seq (f v w) g)"
  by (cases x; cases "fst x") auto

lemma serve_exts:
  "serve env make_store st =
     py_seq (ensure_generated_protobuf_modules (en_is_file env), []) (\<lambda>_ tr0.
     py_seq (make_store st, tr0) (\<lambda>_ tr1.
     py_seq (exts env setup_calls tr1) (\<lambda>_ tr4.
     py_seq (add_grpc_listen_port env (listen_address st) st tr4) (\<lambda>bound_port tr5.
       if bound_port = 0
       then py_seq (ext env Store_stop tr5)
              (\<lambda>_ tr6. (Inl (RuntimeError (''Failed to bind gRPC server to '' @ listen_address st)), tr6))
       else py_seq (exts env (running_calls st) tr5) (\<lambda>_ tr11. wait_and_shut_down env tr11)))))"
  by (simp add: serve_def setup_calls_def running_calls_def add_grpc_health_service_def py_seq_assoc
      cong: if_cong)

text \<open>How a run ends: during the set-up, at the port, while the server starts, or after it has waited.\<close>

lemma serve_ends:
  assumes "serve env make_store st = (r, tr)"
  shows "(\<exists>e. r = Inl e \<and> prefix tr setup_calls) \<or>
    (\<exists>c. port_call_ok env st (listen_address st) c \<and>
      ((\<exists>e. r = Inl e \<and> tr = setup_calls @ [c]) \<or>
       (\<exists>e. r = Inl e \<and> en_bound_port env = 0 \<and> tr = setup_calls @ [c, Store_stop]) \<or>
       (\<exists>e cs. r = Inl e \<and> en_bound_port env \<noteq> 0 \<and> prefix cs (running_calls st) \<and>
          tr = setup_calls @ c # cs) \<or>
       en_bound_port env \<noteq> 0 \<and>
         wait_and_shut_down env (setup_calls @ c # running_calls st) = (r, tr)))"
proof -
  obtain x1 tr1 where s: "exts env setup_calls [] = (x1, tr1)" by fastforce
  then obtain cs1 where cs1: "prefix cs1 setup_calls" "tr1 = cs1" "x1 = Inr () \<longrightarrow> cs1 = setup_calls"
    using exts_prefix [of setup_calls env "[]"] by auto
  show ?thesis
  proof (cases "ensure_generated_protobuf_modules (en_is_file env) = Inr () \<and>
      (\<exists>b. make_store st = Inr b) \<and> x1 = Inr ()")
    case False
    obtain x0 where x0: "ensure_generated_protobuf_modules (en_is_file env) = x0" by blast
    from False assms s cs1 have "(\<exists>e. r = Inl e) \<and> prefix tr setup_calls"
      unfolding serve_exts x0 by (cases x0; cases "make_store st"; cases x1) auto
    then show ?thesis by blast
  next
    case True
    then have tr1: "tr1 = setup_calls" using cs1 by simp
    obtain x2 tr2 where p: "add_grpc_listen_port env (listen_address st) st setup_calls = (x2, tr2)"
      by fastforce
    have rest: "(r, tr) = py_seq (x2, tr2) (\<lambda>bound_port tr5.
       if bound_port = 0
       then py_seq (ext env Store_stop tr5)
              (\<lambda>_ tr6. (Inl (RuntimeError (''Failed to bind gRPC server to '' @ listen_address st)), tr6))
       else py_seq (exts env (running_calls st) tr5) (\<lambda>_ tr11. wait_and_shut_down env tr11))"
      using assms s True tr1 p by (auto simp: serve_exts)
    from listen_port_trace [OF p] show ?thesis
    proof (elim disjE exE conjE)
      fix e
      assume "tr2 = setup_calls" "x2 = Inl e"
      with rest show ?thesis by auto
    next
      fix c
      assume c: "tr2 = setup_calls @ [c]" "port_call_ok env st (listen_address st) c" "x2 = Inr (en_bound_port env)"
      obtain x3 tr3 where e3: "exts env (running_calls st) tr2 = (x3, tr3)" by fastforce
      then obtain cs3 where cs3: "prefix cs3 (running_calls st)" "tr3 = tr2 @ cs3"
        "x3 = Inr () \<longrightarrow> cs3 = running_calls st"
        using exts_prefix [of "running_calls st" env tr2] by auto
      show ?thesis
      proof (cases "en_bound_port env = 0")
        case True
        with rest c show ?thesis by (auto simp: py_seq_cases ext_def split: option.splits)
      next
        case False
        with rest c e3 cs3 show ?thesis by (cases x3) auto
      qed
    next
      fix c e
      assume "tr2 = setup_calls @ [c]" "port_call_ok env st (listen_address st) c" "x2 = Inl e"
      with rest show ?thesis by auto
    qed
  qed
qed

lemma shutdown_trace: "set (snd (shutdown_started_service env tr)) \<subseteq> set tr \<union> set shutdown_calls"
  by (auto simp: shutdown_started_service_def mark_grpc_not_serving_def ext_def shutdown_calls_def
      py_seq_cases split: sum.splits option.splits)

lemma shutdown_extends: "prefix tr (snd (shutdown_started_service env tr))"
  by (simp add: shutdown_started_service_def mark_grpc_not_serving_def ext_def py_seq_cases
      split: option.split)

lemma wait_trace_eq:
  "snd (wait_and_shut_down env tr) = snd (shutdown_started_service env (tr @ [Wait_for_termination]))"
  by (cases "shutdown_started_service env (tr @ [Wait_for_termination])")
    (simp add: wait_and_shut_down_def ext_def begin_shutdown_again split: sum.split)

lemma wait_extends: "prefix tr (snd (wait_and_shut_down env tr))"
  unfolding wait_trace_eq
  by (rule append_prefixD [OF shutdown_extends])

lemma wait_trace:
  "set (snd (wait_and_shut_down env tr)) \<subseteq> insert Wait_for_termination (set tr \<union> set shutdown_calls)"
  using shutdown_trace [of env "tr @ [Wait_for_termination]"] by (auto simp: wait_trace_eq)

section \<open>Properties\<close>

definition sample_settings :: settings where
  "sample_settings =
     \<lparr> cf_max_items = 5, cf_max_memory_mb = 1, cf_max_value_bytes = 1000, cf_cleanup_interval = 10,
       cf_port = 50051, cf_host = ''[::]'', cf_health_host = ''0.0.0.0'', cf_health_port = 8080,
       cf_log_level = ''INFO'', cf_log_format = ''text'', cf_backend = ''memory'', cf_sqlite_path = ''db'',
       cf_tls_enabled = True, cf_tls_cert_path = Some ''cert'', cf_tls_key_path = Some ''key'',
       cf_tls_require_client_auth = True, cf_tls_client_ca_path = Some ''ca'' \<rparr>"

definition sample_env :: "ext_call set \<Rightarrow> nat \<Rightarrow> serve_env" where
  "sample_env failing signals =
     \<lparr> en_raises = (\<lambda>c. if c \<in> failing then Some (BackendError ''OSError'') else None),
       en_bound_port = 50051, en_read_bytes = (\<lambda>p. Inr [of_nat (length p)]), en_is_file = (\<lambda>_. True),
       en_signals = signals \<rparr>"

abbreviation sample_store_of :: "settings \<Rightarrow> backend_store py" where
  "sample_store_of \<equiv> create_cache_store (\<lambda>_. []) (\<lambda>_. False) real"

text \<open>
  C17: with TLS enabled the service never listens without it. Whatever fails, no insecure port is ever
  added, and a server that was started listens with the certificate and the key of the configured
  files; when client authentication is required, clients have to present a certificate of the
  configured authority.
\<close>

theorem serve_listens_with_tls_only:
  assumes "serve env make_store st = (r, tr)" "cf_tls_enabled st"
  shows "(\<forall>a. Add_insecure_port a \<notin> set tr) \<and>
    (Grpc_start \<in> set tr \<longrightarrow>
      (\<exists>credentials. Add_secure_port (listen_address st) credentials \<in> set tr \<and>
        (\<exists>p. cf_tls_cert_path st = Some p \<and> en_read_bytes env p = Inr (sc_certificate_chain credentials)) \<and>
        (\<exists>p. cf_tls_key_path st = Some p \<and> en_read_bytes env p = Inr (sc_private_key credentials)) \<and>
        (cf_tls_require_client_auth st \<longrightarrow> sc_require_client_auth credentials \<and>
          (\<exists>p b. cf_tls_client_ca_path st = Some p \<and> en_read_bytes env p = Inr b \<and>
            sc_root_certificates credentials = Some b))))"
proof -
  have trace: "set tr \<subseteq> set setup_calls \<or> (\<exists>c. port_call_ok env st (listen_address st) c \<and> c \<in> set tr \<and>
      set tr \<subseteq> set setup_calls \<union> {c} \<union> set (running_calls st) \<union> {Wait_for_termination} \<union> set shutdown_calls)"
    using serve_ends [OF assms(1)]
  proof (elim disjE exE conjE)
    fix c
    assume "wait_and_shut_down env (setup_calls @ c # running_calls st) = (r, tr)"
      and c: "port_call_ok env st (listen_address st) c"
    then have "set tr \<subseteq> insert Wait_for_termination (set (setup_calls @ c # running_calls st) \<union> set shutdown_calls)"
      and "set (setup_calls @ c # running_calls st) \<subseteq> set tr"
      using wait_trace [of env "setup_calls @ c # running_calls st"]
        set_mono_prefix [OF wait_extends [of "setup_calls @ c # running_calls st" env]] by simp_all
    with c show ?thesis by auto
  qed (auto dest!: set_mono_prefix simp: shutdown_calls_def)
  have no_ports: "Add_insecure_port a \<notin> set setup_calls \<union> set (running_calls st) \<union> {Wait_for_termination} \<union> set shutdown_calls" for a
    by (simp add: setup_calls_def running_calls_def shutdown_calls_def)
  from trace show ?thesis
  proof
    assume "set tr \<subseteq> set setup_calls"
    then show ?thesis using no_ports by (auto simp: setup_calls_def)
  next
    assume "\<exists>c. port_call_ok env st (listen_address st) c \<and> c \<in> set tr \<and>
      set tr \<subseteq> set setup_calls \<union> {c} \<union> set (running_calls st) \<union> {Wait_for_termination} \<union> set shutdown_calls"
    then obtain c where c: "port_call_ok env st (listen_address st) c" "c \<in> set tr"
      "set tr \<subseteq> set setup_calls \<union> {c} \<union> set (running_calls st) \<union> {Wait_for_termination} \<union> set shutdown_calls"
      by blast
    from c(1) assms(2) obtain credentials where "c = Add_secure_port (listen_address st) credentials"
      by (auto simp: port_call_ok_def)
    with c no_ports assms(2) show ?thesis by (auto simp: port_call_ok_def)
  qed
qed

theorem serve_listens_with_tls_only_witness:
  "Add_insecure_port ''[::]:50051'' \<notin> set (snd (serve (sample_env {} 1) sample_store_of sample_settings)) \<and>
   (\<exists>credentials. Add_secure_port (listen_address sample_settings) credentials \<in>
      set (snd (serve (sample_env {} 1) sample_store_of sample_settings)) \<and> sc_require_client_auth credentials)"
proof -
  obtain r tr where s: "serve (sample_env {} 1) sample_store_of sample_settings = (r, tr)" by fastforce
  have "Grpc_start \<in> set (snd (serve (sample_env {} 1) sample_store_of sample_settings))"
    by (simp add: serve_exts setup_calls_def running_calls_def ext_def sample_env_def sample_settings_def
        add_grpc_listen_port_def build_tls_server_credentials_def create_cache_store_def mem_init_def
        ensure_generated_protobuf_modules_def wait_and_shut_down_eq cache_store_limits_resolve_def
        statuses_settable_def Let_def)
  with s serve_listens_with_tls_only [OF s] show ?thesis by (auto simp: sample_settings_def)
qed

text \<open>
  C16: a service that was up goes down in one order, once. However many signals arrive, whichever way the
  wait ends and whichever of the two stops raises: both health statuses are set to not serving before
  the gRPC server is stopped, then the HTTP server is cleaned up, and the store is stopped last; none
  of this has happened before. The run succeeds exactly when the store could be stopped and the wait
  ended normally or with a keyboard interrupt.
\<close>

theorem serve_shutdown_sequence:
  assumes "serve env make_store st = (r, tr)" "Wait_for_termination \<in> set tr"
    and "en_raises env (Health_set [] False) = None"
    and "en_raises env (Health_set ''cache.CacheService'' False) = None"
  shows "\<exists>before. tr = before @ [Wait_for_termination, Health_set [] False,
        Health_set ''cache.CacheService'' False, Grpc_stop, Runner_cleanup, Store_stop] \<and>
      Grpc_start \<in> set before \<and>
      set before \<inter> {Wait_for_termination, Health_set [] False, Grpc_stop, Runner_cleanup, Store_stop} = {} \<and>
      (r = Inr () \<longleftrightarrow> en_raises env Store_stop = None \<and>
        (\<forall>e. en_raises env Wait_for_termination = Some e \<longrightarrow> is_KeyboardInterrupt e))"
proof -
  have settable: "statuses_settable env" using assms(3,4) by (simp add: statuses_settable_def)
  have no_wait: "Wait_for_termination \<notin> set setup_calls \<union> set (running_calls st)"
    by (simp add: setup_calls_def running_calls_def)
  from serve_ends [OF assms(1)] show ?thesis
  proof (elim disjE exE conjE)
    fix c
    let ?pre = "setup_calls @ c # running_calls st"
    assume c: "port_call_ok env st (listen_address st) c"
      and "wait_and_shut_down env ?pre = (r, tr)"
    with settable have r: "r = (case en_raises env Store_stop of
        Some e \<Rightarrow> Inl e
      | None \<Rightarrow>
          (case en_raises env Wait_for_termination of
             Some e \<Rightarrow> if is_KeyboardInterrupt e then Inr () else Inl e
           | None \<Rightarrow> Inr ()))"
      and tr: "tr = ?pre @ Wait_for_termination # shutdown_calls"
      by (simp_all add: wait_and_shut_down_eq)
    have "Grpc_start \<in> set ?pre"
      "set ?pre \<inter> {Wait_for_termination, Health_set [] False, Grpc_stop, Runner_cleanup, Store_stop} = {}"
      using c by (auto simp: setup_calls_def running_calls_def port_call_ok_def split: if_splits)
    with r tr show ?thesis
      by (intro exI [of _ ?pre]) (auto simp: shutdown_calls_def split: option.splits if_splits)
  qed (use assms(2) no_wait in \<open>auto dest!: set_mono_prefix simp: port_call_ok_def split: if_splits\<close>)
qed

theorem serve_shutdown_sequence_witness:
  "\<exists>before. snd (serve (sample_env {Grpc_stop, Runner_cleanup} 3) sample_store_of sample_settings) =
     before @ [Wait_for_termination, Health_set [] False, Health_set ''cache.CacheService'' False,
               Grpc_stop, Runner_cleanup, Store_stop]"
proof -
  let ?run = "serve (sample_env {Grpc_stop, Runner_cleanup} 3) sample_store_of sample_settings"
  obtain r tr where s: "?run = (r, tr)" by fastforce
  have "Wait_for_termination \<in> set (snd ?run)"
    by (simp add: serve_exts setup_calls_def running_calls_def ext_def sample_env_def sample_settings_def
        add_grpc_listen_port_def build_tls_server_credentials_def create_cache_store_def mem_init_def
        ensure_generated_protobuf_modules_def wait_and_shut_down_eq cache_store_limits_resolve_def
        statuses_settable_def Let_def)
  with s serve_shutdown_sequence [OF s] show ?thesis by (auto simp: sample_env_def)
qed

text \<open>
  C36: a start that fails leaves things running. When an exception ends the run before it waits, only the
  port that could not be bound stops the store; a failure after the server was started, such as an
  occupied health port, propagates with the gRPC server, the HTTP runner and the store still up.
\<close>

theorem serve_failed_start:
  assumes "serve env make_store st = (r, tr)" "Wait_for_termination \<notin> set tr"
  shows "(\<exists>e. r = Inl e) \<and> Grpc_stop \<notin> set tr \<and> Runner_cleanup \<notin> set tr \<and>
    (Store_stop \<in> set tr \<longleftrightarrow> (\<exists>before. tr = before @ [Store_stop] \<and> en_bound_port env = 0 \<and> Grpc_start \<notin> set before))"
proof -
  have calls: "{Grpc_stop, Runner_cleanup, Store_stop} \<inter> (set setup_calls \<union> set (running_calls st)) = {}"
    "Grpc_start \<notin> set setup_calls"
    by (simp_all add: setup_calls_def running_calls_def)
  have port: "c \<notin> {Grpc_stop, Runner_cleanup, Store_stop, Grpc_start}"
    if "port_call_ok env st (listen_address st) c" for c
    using that by (auto simp: port_call_ok_def split: if_splits)
  from serve_ends [OF assms(1)] show ?thesis
  proof (elim disjE exE conjE)
    fix c
    assume "wait_and_shut_down env (setup_calls @ c # running_calls st) = (r, tr)"
    then have "tr = snd (wait_and_shut_down env (setup_calls @ c # running_calls st))" by simp
    then have "prefix ((setup_calls @ c # running_calls st) @ [Wait_for_termination]) tr"
      unfolding wait_trace_eq using shutdown_extends by simp
    then have "Wait_for_termination \<in> set tr" by (auto dest!: set_mono_prefix)
    with assms(2) show ?thesis by simp
  next
    fix c e
    assume "port_call_ok env st (listen_address st) c" "r = Inl e" "en_bound_port env = 0"
      "tr = setup_calls @ [c, Store_stop]"
    with calls port [of c] show ?thesis
      by (auto intro!: exI [of _ "setup_calls @ [c]"])
  next
    fix e
    assume "r = Inl e" "prefix tr setup_calls"
    with calls show ?thesis by (auto dest!: set_mono_prefix)
  next
    fix c e
    assume "port_call_ok env st (listen_address st) c" "r = Inl e" "tr = setup_calls @ [c]"
    with calls port [of c] show ?thesis by auto
  next
    fix c e cs
    assume "port_call_ok env st (listen_address st) c" "r = Inl e" "prefix cs (running_calls st)"
      and tr: "tr = setup_calls @ c # cs"
    with calls port [of c] have "{Grpc_stop, Runner_cleanup, Store_stop} \<inter> set tr = {}"
      by (auto dest!: set_mono_prefix)
    moreover from this have "tr \<noteq> before @ [Store_stop]" for before by auto
    ultimately show ?thesis using \<open>r = Inl e\<close> by blast
  qed
qed

theorem serve_failed_start_witness:
  "Store_stop \<notin> set (snd (serve (sample_env {Site_start ''0.0.0.0'' 8080} 0) sample_store_of sample_settings)) \<and>
   Grpc_start \<in> set (snd (serve (sample_env {Site_start ''0.0.0.0'' 8080} 0) sample_store_of sample_settings))"
proof -
  let ?run = "serve (sample_env {Site_start ''0.0.0.0'' 8080} 0) sample_store_of sample_settings"
  obtain r tr where s: "?run = (r, tr)" by fastforce
  have "Grpc_start \<in> set (snd ?run) \<and> Wait_for_termination \<notin> set (snd ?run) \<and> en_bound_port (sample_env {Site_start ''0.0.0.0'' 8080} 0) \<noteq> 0"
    by (simp add: serve_exts setup_calls_def running_calls_def ext_def sample_env_def sample_settings_def
        add_grpc_listen_port_def build_tls_server_credentials_def create_cache_store_def mem_init_def
        ensure_generated_protobuf_modules_def cache_store_limits_resolve_def Let_def)
  with s serve_failed_start [OF s] show ?thesis by simp
qed

end
