(* ===== verification/LogFormat.thy ===== *)
theory LogFormat
  imports Config
begin

text \<open>
  The log output, \<^verbatim>\<open>tiny_cache/infrastructure/logging.py\<close>: the filter that puts the request id of the
  task on a record, the JSON formatter, and the configuration of the handler. The time stamp is the
  text \<^verbatim>\<open>isoformat\<close> returns, the traceback the text \<^verbatim>\<open>formatException\<close> returns.
\<close>

section \<open>JSON text\<close>

text \<open>
  \<^verbatim>\<open>json.dumps(s, ensure_ascii=False)\<close> of a string: quotes, backslashes and the control characters are
  escaped, every other character stands for itself.
\<close>

definition json_escape_char :: "char \<Rightarrow> string" where
  "json_escape_char c =
     (let n = char_code c
      in if n = 34 then [CHR 0x5C, CHR 0x22]
         else if n = 92 then [CHR 0x5C, CHR 0x5C]
         else if n = 10 then [CHR 0x5C, CHR ''n'']
         else if n = 13 then [CHR 0x5C, CHR ''r'']
         else if n = 9 then [CHR 0x5C, CHR ''t'']
         else if n = 12 then [CHR 0x5C, CHR ''f'']
         else if n = 8 then [CHR 0x5C, CHR ''b'']
         else if n < 32 then [CHR 0x5C, CHR ''u'', CHR ''0'', CHR ''0'', hex_digit (n div 16), hex_digit (n mod 16)]
         else [c])"

definition json_quote :: "string \<Rightarrow> string" where
  "json_quote s = CHR 0x22 # concat (map json_escape_char s) @ [CHR 0x22]"

text \<open>\<^verbatim>\<open>json.dumps\<close> of a dictionary of strings, in its order.\<close>

definition json_member :: "string \<times> string \<Rightarrow> string" where
  "json_member kv = json_quote (fst kv) @ '': '' @ json_quote (snd kv)"

definition json_dumps :: "(string \<times> string) list \<Rightarrow> string" where
  "json_dumps payload = ''{'' @ join '', '' (map json_member payload) @ ''}''"

section \<open>Log records\<close>

record log_entry =
  le_created :: string
  le_level :: string
  le_logger :: string
  le_request_id :: "string option"
  le_message :: string
  le_exc_info :: "string option"

text \<open>\<open>current\<close> is the request id of the task that logs.\<close>

definition request_id_filter :: "string \<Rightarrow> log_entry \<Rightarrow> bool \<times> log_entry" where
  "request_id_filter current r = (True, r\<lparr>le_request_id := Some current\<rparr>)"

definition json_payload :: "log_entry \<Rightarrow> (string \<times> string) list" where
  "json_payload r =
     [(''timestamp'', le_created r), (''level'', le_level r), (''logger'', le_logger r),
      (''request_id'', case le_request_id r of None \<Rightarrow> ''-'' | Some i \<Rightarrow> i),
      (''message'', le_message r)] @
     (case le_exc_info r of None \<Rightarrow> [] | Some text \<Rightarrow> [(''exc_info'', text)])"

definition json_format :: "log_entry \<Rightarrow> string" where
  "json_format r = json_dumps (json_payload r)"

text \<open>
  The formatter of the other format. A record without a request id cannot be formatted by it; the
  traceback follows on a new line.
\<close>

definition text_format :: "log_entry \<Rightarrow> string py" where
  "text_format r =
     (case le_request_id r of
        None \<Rightarrow> Inl (ValueError (''Formatting field not found in record: '' @ py_repr ''request_id''))
      | Some i \<Rightarrow>
          Inr (le_created r @ '' - '' @ le_logger r @ '' - '' @ le_level r @ '' - '' @ i @ '' - '' @
               le_message r @
               (case le_exc_info r of None \<Rightarrow> [] | Some text \<Rightarrow> CHR 0x0A # text)))"

section \<open>Configuration\<close>

text \<open>\<open>level_of\<close> is the attribute of \<^verbatim>\<open>logging\<close> with the given name, if there is one.\<close>

record log_config =
  lc_level :: int
  lc_json :: bool

definition configure_logging :: "(string \<Rightarrow> int option) \<Rightarrow> string \<Rightarrow> string \<Rightarrow> log_config" where
  "configure_logging level_of log_level log_format =
     \<lparr> lc_level = (case level_of (upper log_level) of None \<Rightarrow> 20 | Some l \<Rightarrow> l),
       lc_json = (lower log_format = ''json'') \<rparr>"

text \<open>What the handler writes for a record of a level: the filter, then the formatter.\<close>

definition handle_record :: "log_config \<Rightarrow> string \<Rightarrow> int \<Rightarrow> log_entry \<Rightarrow> string py option" where
  "handle_record config current level r =
     (if level < lc_level config then None
      else (let (keep, r') = request_id_filter current r
            in if \<not> keep then None
               else if lc_json config then Some (Inr (json_format r'))
               else Some (text_format r')))"

section \<open>Reading JSON back\<close>

text \<open>
  A reader of the JSON text, written from the grammar: \<open>json_chars\<close> reads the characters of a string up
  to its closing quote, \<open>json_members\<close> the members of an object up to its closing brace.
\<close>

definition hex_code :: "char \<Rightarrow> nat option" where
  "hex_code c =
     (let n = char_code c
      in if 48 \<le> n \<and> n \<le> 57 then Some (n - 48) else if 97 \<le> n \<and> n \<le> 102 then Some (n - 87) else None)"

definition simple_escape :: "char \<Rightarrow> char option" where
  "simple_escape c =
     map_of [(CHR 0x22, CHR 0x22), (CHR 0x5C, CHR 0x5C), (CHR ''/'', CHR ''/''), (CHR ''n'', CHR 0x0A),
       (CHR ''r'', CHR 0x0D), (CHR ''t'', CHR 0x09), (CHR ''f'', CHR 0x0C), (CHR ''b'', CHR 0x08)] c"

fun json_chars :: "string \<Rightarrow> (string \<times> string) option" where
  "json_chars [] = None"
| "json_chars (c # cs) =
     (if c = CHR 0x22 then Some ([], cs)
      else if char_code c < 32 then None
      else if c \<noteq> CHR 0x5C then map_option (\<lambda>(s, rest). (c # s, rest)) (json_chars cs)
      else
        (case cs of
           [] \<Rightarrow> None
         | e # ds \<Rightarrow>
             (if e \<noteq> CHR ''u''
              then (case simple_escape e of
                      None \<Rightarrow> None
                    | Some d \<Rightarrow> map_option (\<lambda>(s, rest). (d # s, rest)) (json_chars ds))
              else
                (case ds of
                   z1 # z2 # h # l # es \<Rightarrow>
                     (case (hex_code h, hex_code l) of
                        (Some a, Some b) \<Rightarrow>
                          if z1 = CHR ''0'' \<and> z2 = CHR ''0''
                          then map_option (\<lambda>(s, rest). (char_of (16 * a + b) # s, rest)) (json_chars es)
                          else None
                      | _ \<Rightarrow> None)
                 | _ \<Rightarrow> None))))"

definition json_string :: "string \<Rightarrow> (string \<times> string) option" where
  "json_string s = (case s of [] \<Rightarrow> None | c # cs \<Rightarrow> if c = CHR 0x22 then json_chars cs else None)"

lemma json_chars_shorter: "json_chars cs = Some (s, rest) \<Longrightarrow> length rest < length cs"
  by (induction cs arbitrary: s rule: json_chars.induct)
    (fastforce split: if_splits list.splits option.splits simp: less_Suc_eq)+

lemma json_string_shorter: "json_string cs = Some (s, rest) \<Longrightarrow> length rest < length cs"
  using json_chars_shorter by (fastforce simp: json_string_def split: list.splits if_splits)

text \<open>One separator, as \<^verbatim>\<open>json.dumps\<close> writes it.\<close>

definition json_sep :: "string \<Rightarrow> string \<Rightarrow> string option" where
  "json_sep sep s = (if take (length sep) s = sep then Some (drop (length sep) s) else None)"

function json_members :: "string \<Rightarrow> ((string \<times> string) list \<times> string) option" where
  "json_members s =
     (case json_string s of
        None \<Rightarrow> None
      | Some (k, s1) \<Rightarrow>
          (case json_sep '': '' s1 of
             None \<Rightarrow> None
           | Some s2 \<Rightarrow>
               (case json_string s2 of
                  None \<Rightarrow> None
                | Some (v, s3) \<Rightarrow>
                    (case json_sep ''}'' s3 of
                       Some rest \<Rightarrow> Some ([(k, v)], rest)
                     | None \<Rightarrow>
                         (case json_sep '', '' s3 of
                            None \<Rightarrow> None
                          | Some s4 \<Rightarrow> map_option (\<lambda>(kvs, rest). ((k, v) # kvs, rest)) (json_members s4))))))"
  by pat_completeness auto
termination
  by (relation "measure length")
    (fastforce simp: json_sep_def split: if_splits dest!: json_string_shorter)+

declare json_members.simps [simp del]

definition json_loads :: "string \<Rightarrow> (string \<times> string) list option" where
  "json_loads s =
     (case json_sep ''{'' s of
        None \<Rightarrow> None
      | Some s1 \<Rightarrow> (case json_members s1 of Some (kvs, []) \<Rightarrow> Some kvs | _ \<Rightarrow> None))"

section \<open>Properties\<close>

lemma char_code_below: "char_code c < 256"
  by (simp add: char_code_def)

lemma hex_code_digit: "d < 16 \<Longrightarrow> hex_code (hex_digit d) = Some d"
  by (simp add: hex_code_def hex_digit_def char_code_def Let_def)

lemma char_code_iff: "c = d \<longleftrightarrow> char_code c = char_code d"
  by (simp add: char_code_def)

lemma json_chars_escape: "json_chars (json_escape_char c @ cs) = map_option (\<lambda>(s, rest). (c # s, rest)) (json_chars cs)"
proof -
  have n: "char_of (char_code c) = c" by (simp add: char_code_def)
  consider "char_code c \<in> {8, 9, 10, 12, 13, 34, 92}" | "char_code c < 32" "char_code c \<notin> {8, 9, 10, 12, 13}"
    | "32 \<le> char_code c" "char_code c \<notin> {34, 92}"
    by fastforce
  then show ?thesis
  proof cases
    case 1
    then have "c \<in> {CHR 0x08, CHR 0x09, CHR 0x0A, CHR 0x0C, CHR 0x0D, CHR 0x22, CHR 0x5C}"
      unfolding insert_iff empty_iff char_code_iff by (simp add: char_code_def)
    then show ?thesis by (auto simp: json_escape_char_def char_code_def simple_escape_def)
  next
    case 2
    then have "json_escape_char c = [CHR 0x5C, CHR ''u'', CHR ''0'', CHR ''0'', hex_digit (char_code c div 16),
        hex_digit (char_code c mod 16)]"
      by (simp add: json_escape_char_def Let_def)
    moreover have "hex_code (hex_digit (char_code c div 16)) = Some (char_code c div 16)"
      "hex_code (hex_digit (char_code c mod 16)) = Some (char_code c mod 16)"
      using 2(1) by (simp_all add: hex_code_digit)
    ultimately show ?thesis by (simp add: char_code_def [of "CHR 0x5C"] n)
  next
    case 3
    then have "json_escape_char c = [c]" "c \<noteq> CHR 0x22" "c \<noteq> CHR 0x5C"
      by (auto simp: json_escape_char_def Let_def char_code_def)
    with 3 show ?thesis by simp
  qed
qed

lemma json_string_quote: "json_string (json_quote s @ rest) = Some (s, rest)"
proof -
  have "json_chars (concat (map json_escape_char s) @ CHR 0x22 # rest) = Some (s, rest)"
    by (induction s) (simp_all add: json_chars_escape del: json_chars.simps(2), simp)
  then show ?thesis by (simp add: json_string_def json_quote_def)
qed

lemma json_sep_append [simp]: "json_sep sep (sep @ s) = Some s"
  by (simp add: json_sep_def)

lemma json_members_join:
  "kvs \<noteq> [] \<Longrightarrow> json_members (join '', '' (map json_member kvs) @ ''}'' @ rest) = Some (kvs, rest)"
proof (induction kvs rule: induct_list012)
  case (2 kv)
  obtain k v where kv: "kv = (k, v)" by (cases kv)
  have "json_members (json_quote k @ '': '' @ json_quote v @ ''}'' @ rest) = Some ([(k, v)], rest)"
    by (subst json_members.simps) (simp only: json_string_quote json_sep_append option.case prod.case)
  then show ?case by (simp add: kv json_member_def)
next
  case (3 kv kv' kvs)
  obtain k v where kv: "kv = (k, v)" by (cases kv)
  let ?more = "join '', '' (map json_member (kv' # kvs)) @ ''}'' @ rest"
  have no_end: "json_sep ''}'' ('', '' @ s) = None" for s by (simp add: json_sep_def)
  have "json_members (json_quote k @ '': '' @ json_quote v @ '', '' @ ?more) = Some ((k, v) # kv' # kvs, rest)"
    using "3.IH"(2)
    by (subst json_members.simps)
      (simp only: json_string_quote json_sep_append option.case prod.case no_end option.map list.simps simp_thms)
  then show ?case by (simp add: kv json_member_def [of "(k, v)"])
qed simp

lemma json_loads_dumps: "kvs \<noteq> [] \<Longrightarrow> json_loads (json_dumps kvs) = Some kvs"
  using json_members_join [of kvs "[]"] json_sep_append [of "''{''"]
  by (simp add: json_loads_def json_dumps_def)

text \<open>No character of the output is a control character.\<close>

lemma hex_digit_printable: "d < 16 \<Longrightarrow> 32 \<le> char_code (hex_digit d)"
  by (simp add: hex_digit_def char_code_def)

lemma json_escape_printable: "x \<in> set (json_escape_char c) \<Longrightarrow> 32 \<le> char_code x"
  by (auto simp: json_escape_char_def Let_def hex_digit_printable split: if_splits)
    (simp_all add: char_code_def)

lemma json_dumps_printable: "x \<in> set (json_dumps kvs) \<Longrightarrow> 32 \<le> char_code x"
proof -
  have q: "32 \<le> char_code x" if "x \<in> set (json_quote s)" for s
    using that json_escape_printable by (auto simp: json_quote_def char_code_def [of "CHR 0x22"])
  have m: "32 \<le> char_code x" if "x \<in> set (json_member kv)" for kv
    using that q by (auto simp: json_member_def) (simp_all add: char_code_def)
  have "32 \<le> char_code x" if "x \<in> set (join '', '' (map json_member kvs))"
    using that
  proof (induction kvs rule: induct_list012)
    case (3 kv kv' kvs)
    then show ?case using m [of kv] by (auto simp: char_code_def [of "CHR '' ''"] char_code_def [of "CHR '',''"])
  qed (use m in auto)
  then show "x \<in> set (json_dumps kvs) \<Longrightarrow> 32 \<le> char_code x"
    by (auto simp: json_dumps_def) (simp_all add: char_code_def)
qed

text \<open>
  C35: the JSON log is one object per line, whatever is logged. With the JSON format configured, a record
  of a level that is written gives a line without any control character, so no message, logger name,
  traceback or request id sent by a client can start a second line; and reading the line back as JSON
  gives exactly the fields of the record, with the request id of the task that logged it.
\<close>

theorem json_log_one_object_per_line:
  assumes "config = configure_logging level_of log_level log_format" "lower log_format = ''json''"
    and "lc_level config \<le> level"
  shows "\<exists>line. handle_record config current level r = Some (Inr line) \<and>
    (\<forall>c \<in> set line. 32 \<le> char_code c) \<and>
    json_loads line = Some
      ([(''timestamp'', le_created r), (''level'', le_level r), (''logger'', le_logger r),
        (''request_id'', current), (''message'', le_message r)] @
       (case le_exc_info r of None \<Rightarrow> [] | Some t \<Rightarrow> [(''exc_info'', t)]))"
proof -
  have "lc_json config" using assms(1,2) by (simp add: configure_logging_def)
  with assms(3) show ?thesis
    using json_dumps_printable json_loads_dumps [of "json_payload (r\<lparr>le_request_id := Some current\<rparr>)"]
    by (auto simp: handle_record_def request_id_filter_def json_format_def json_payload_def)
qed

definition forged_entry :: log_entry where
  "forged_entry =
     \<lparr> le_created = ''2026-01-01T00:00:00+00:00'', le_level = ''ERROR'', le_logger = ''tiny_cache'',
       le_request_id = None, le_message = ''bad'' @ [CHR 0x0A, CHR 0x22] @ ''level'', le_exc_info = None \<rparr>"

theorem json_log_one_object_per_line_witness:
  "\<exists>line. handle_record (configure_logging (\<lambda>_. Some 10) ''debug'' ''JSON'') ''r1'' 40 forged_entry =
       Some (Inr line) \<and> CHR 0x0A \<notin> set line \<and>
     map_option (\<lambda>kvs. map_of kvs ''message'') (json_loads line) =
       Some (Some (''bad'' @ [CHR 0x0A, CHR 0x22] @ ''level''))"
proof -
  have "lower ''JSON'' = ''json''" by code_simp
  moreover have "lc_level (configure_logging (\<lambda>_. Some 10) ''debug'' ''JSON'') \<le> 40"
    by (simp add: configure_logging_def)
  moreover have "\<not> 32 \<le> char_code (CHR 0x0A)" by (simp add: char_code_def)
  ultimately show ?thesis
    using json_log_one_object_per_line [OF refl, of "''JSON''" "\<lambda>_. Some 10" "''debug''" 40 "''r1''" forged_entry]
    by (auto simp: forged_entry_def)
qed

end
