(* ===== verification/SqliteRestart.thy ===== *)
theory SqliteRestart
  imports StoreFactory
begin

text \<open>
  The life of a database file: processes open it one after the other, each with its own settings and its
  own clock, and serve requests from it. A process that ends leaves the table as its last committed
  statement left it, so it makes no difference here whether it was stopped or killed.
\<close>

section \<open>Traces in a row\<close>

fun written_after :: "(string \<rightharpoonup> bytes) \<Rightarrow> (svc_request \<times> svc_reply py) list \<Rightarrow> (string \<rightharpoonup> bytes)" where
  "written_after m [] = m"
| "written_after m ((r, rep) # trace) = written_after (last_written r rep m) trace"

lemma allowed_trace_append:
  "allowed_trace m (t1 @ t2) \<longleftrightarrow> allowed_trace m t1 \<and> allowed_trace (written_after m t1) t2"
  by (induction m t1 rule: written_after.induct) auto

context cache_backend
begin

lemma svc_run_content:
  "inv s \<Longrightarrow> content s \<subseteq>\<^sub>m m \<Longrightarrow> svc_run P rs s = (trace, s') \<Longrightarrow>
     inv s' \<and> content s' \<subseteq>\<^sub>m written_after m trace"
proof (induction rs arbitrary: s m trace s')
  case (Cons r rs)
  obtain rep s1 where c: "svc_call P r s = (rep, s1)" by fastforce
  obtain rest s2 where rest: "svc_run P rs s1 = (rest, s2)" by fastforce
  note now = svc_call_tracks [OF Cons.prems(1,2) c]
  with Cons.IH [OF _ _ rest] have "inv s2 \<and> content s2 \<subseteq>\<^sub>m written_after (last_written r rep m) rest"
    by blast
  with Cons.prems(3) c rest show ?case by auto
qed simp

end

section \<open>Processes on one file\<close>

record process =
  pr_settings :: settings
  pr_clock :: "nat \<Rightarrow> real"
  pr_requests :: "svc_request list"

text \<open>The table a process leaves behind; one with an in-memory store does not touch it.\<close>

fun table_left :: "sqlite_row list \<Rightarrow> backend_store \<Rightarrow> sqlite_row list" where
  "table_left rows (Memory_backend s) = rows"
| "table_left rows (Sqlite_backend s) = sq_rows s"

fun serve_processes ::
    "process list \<Rightarrow> sqlite_row list \<Rightarrow> ((svc_request \<times> svc_reply py) list \<times> sqlite_row list) py" where
  "serve_processes [] rows = Inr ([], rows)"
| "serve_processes (p # ps) rows =
     py_bind (create_cache_store (\<lambda>_. rows) (\<lambda>_. False) (pr_clock p) (pr_settings p)) (\<lambda>store.
       (let (trace, store') = svc_run backend_port (pr_requests p) store
        in py_bind (serve_processes ps (table_left rows store')) (\<lambda>(trace', rows').
             Inr (trace @ trace', rows'))))"

definition sqlite_settings :: "settings \<Rightarrow> bool" where
  "sqlite_settings st \<longleftrightarrow>
     settings_ok st \<and> cf_max_value_bytes st \<le> cf_max_memory_mb st * 1024 * 1024 \<and> cf_backend st = ''sqlite''"

lemma on_backend_sqlite: "\<exists>s'. snd (on_backend f g (Sqlite_backend s)) = Sqlite_backend s'"
  by simp

lemma svc_call_sqlite: "\<exists>s'. snd (svc_call backend_port r (Sqlite_backend s)) = Sqlite_backend s'"
  by (cases r) (auto simp: reply_map_def svc_get_def svc_set_def svc_set_if_absent_def svc_compare_and_set_def
      svc_delete_def svc_stats_def split: sum.split)

lemma svc_run_sqlite: "\<exists>s'. snd (svc_run backend_port rs (Sqlite_backend s)) = Sqlite_backend s'"
proof (induction rs arbitrary: s)
  case (Cons r rs)
  obtain s1 where "snd (svc_call backend_port r (Sqlite_backend s)) = Sqlite_backend s1"
    using svc_call_sqlite by blast
  with Cons.IH [of s1] show ?case by (auto simp: Let_def split: prod.splits)
qed simp

text \<open>
  C31: a restart is invisible to the clients. However many processes open the database file one after the
  other, with whatever valid limits and whatever clocks, every one of them starts, and the replies of all
  of them in a row are those of a single lossy map, which starts with the values in the file: a value
  shown after a restart is the last one written before it.
\<close>

theorem sqlite_restarts_refine_lossy_map:
  assumes "\<forall>p \<in> set processes. sqlite_settings (pr_settings p)" "distinct (map r_key rows)"
  shows "\<exists>trace rows'. serve_processes processes rows = Inr (trace, rows') \<and>
    allowed_trace (rows_content rows) trace \<and> distinct (map r_key rows')"
proof -
  have "\<exists>trace rows'. serve_processes processes rows = Inr (trace, rows') \<and>
      allowed_trace m trace \<and> distinct (map r_key rows')" if "rows_content rows \<subseteq>\<^sub>m m" for m
    using assms that
  proof (induction processes arbitrary: rows m)
    case (Cons p ps)
    from Cons.prems(1) have "settings_ok (pr_settings p)"
      "cf_max_value_bytes (pr_settings p) \<le> cf_max_memory_mb (pr_settings p) * 1024 * 1024"
      "cf_backend (pr_settings p) = ''sqlite''"
      by (simp_all add: sqlite_settings_def)
    from configured_sqlite [OF this, of "\<lambda>_. rows" "pr_clock p"] obtain s where
      s: "create_cache_store (\<lambda>_. rows) (\<lambda>_. False) (pr_clock p) (pr_settings p) = Inr (Sqlite_backend s)"
        "sq_init rows (\<lambda>_. False) (Some (cf_max_items (pr_settings p))) (Some (cf_max_memory_mb (pr_settings p)))
          (Some (cf_cleanup_interval (pr_settings p))) (Some (cf_max_value_bytes (pr_settings p))) (pr_clock p) =
          Inr s"
      by blast
    have inv: "backend_inv (Sqlite_backend s)" "backend_content (Sqlite_backend s) \<subseteq>\<^sub>m m"
      using sq_init_inv [OF s(2) Cons.prems(2)] Cons.prems(3) by (simp_all add: sq_content_def)
    obtain trace s' where run: "svc_run backend_port (pr_requests p) (Sqlite_backend s) = (trace, Sqlite_backend s')"
      using svc_run_sqlite [of "pr_requests p" s] by (metis prod.collapse)
    from any_backend.svc_run_content [OF inv run] have left: "sq_inv s'" "rows_content (sq_rows s') \<subseteq>\<^sub>m written_after m trace"
      by (simp_all add: sq_content_def)
    have "distinct (map r_key (sq_rows s'))" using left(1) by (simp add: sq_inv_def sq_consistent_def)
    from Cons.IH [OF _ this left(2)] Cons.prems(1) obtain trace' rows' where
      rest: "serve_processes ps (sq_rows s') = Inr (trace', rows')" "allowed_trace (written_after m trace) trace'"
        "distinct (map r_key rows')"
      by auto
    from any_backend.svc_run_tracks [OF inv run] rest s(1) run show ?case
      by (auto simp: allowed_trace_append)
  qed simp
  from this [of "rows_content rows"] show ?thesis by simp
qed

definition sample_processes :: "process list" where
  "sample_processes =
     (let settings = \<lparr> cf_max_items = 5, cf_max_memory_mb = 1, cf_max_value_bytes = 1000,
            cf_cleanup_interval = 10, cf_port = 50051, cf_host = ''[::]'', cf_health_host = ''0.0.0.0'',
            cf_health_port = 8080, cf_log_level = ''INFO'', cf_log_format = ''text'', cf_backend = ''sqlite'',
            cf_sqlite_path = ''db'', cf_tls_enabled = False, cf_tls_cert_path = None,
            cf_tls_key_path = None, cf_tls_require_client_auth = False, cf_tls_client_ca_path = None \<rparr>
      in [\<lparr> pr_settings = settings, pr_clock = \<lambda>_. 103,
            pr_requests = [Get_req ''a'' None, Set_req ''b'' [4] 0 None] \<rparr>,
          \<lparr> pr_settings = settings\<lparr>cf_max_items := 1\<rparr>, pr_clock = \<lambda>n. real n,
            pr_requests = [Get_req ''b'' None, Delete_req ''b'' None, Get_req ''b'' None] \<rparr>])"

theorem sqlite_restarts_refine_lossy_map_witness:
  "\<exists>trace rows'. serve_processes sample_processes sample_rows = Inr (trace, rows') \<and>
     allowed_trace (rows_content sample_rows) trace \<and> distinct (map r_key rows')"
proof (rule sqlite_restarts_refine_lossy_map)
  show "\<forall>p \<in> set sample_processes. sqlite_settings (pr_settings p)"
    by (simp add: sample_processes_def sqlite_settings_def settings_ok_def Let_def)
qed simp

end
