(* ===== verification/Spec2Isabelle.thy ===== *)
theory Spec2Isabelle
  imports CliParserProps Startup LogFormat SqliteRestart
begin

text \<open>
  A verification library for tiny-cache, an in-memory cache with a gRPC interface
  (Python, \<^verbatim>\<open>tiny_cache/\<close>). The model is a shallow embedding: data are records and datatypes with
  the source's names, every method is a function from the state to a result and a new state, an
  exception is the left summand of the result, and every branch of the source is a branch of the
  model.

  \<^bold>\<open>The program.\<close> \<^verbatim>\<open>main.py\<close> loads the settings from the environment
  (\<^verbatim>\<open>infrastructure/config.py\<close>), creates the store they select (\<^verbatim>\<open>store_factory.py\<close>) and starts a
  gRPC server and an HTTP application for probes and metrics (\<^verbatim>\<open>transport/http/health_app.py\<close>). A
  request, sent for instance by the command line client (\<^verbatim>\<open>cli.py\<close>), passes the interceptors
  (\<^verbatim>\<open>transport/grpc/interceptors.py\<close>), which give it a request id and count it, and reaches the gRPC
  servicer (\<^verbatim>\<open>servicer.py\<close>), which reads the namespace header
  (\<^verbatim>\<open>request_lifecycle.py\<close>), calls the application service (\<^verbatim>\<open>application/service.py\<close>) and turns the
  result into a message and a status (\<^verbatim>\<open>status_mapping.py\<close>, \<^verbatim>\<open>batch_mapping.py\<close>,
  \<^verbatim>\<open>response_mapping.py\<close>). The service validates (\<^verbatim>\<open>domain/validation.py\<close>), maps a key and a
  namespace to one storage key, and calls a backend through the port (\<^verbatim>\<open>application/ports.py\<close>).
  There are two backends with the same contract. The in-memory store
  (\<^verbatim>\<open>infrastructure/memory_store.py\<close>) is an ordered dictionary in least-recently-used order with a
  bound on the items and on the memory and entries with a time to live; the SQLite store
  (\<^verbatim>\<open>sqlite_store.py\<close>) keeps the entries in a table, with two counters beside it. A background thread
  (\<^verbatim>\<open>memory_store_cleanup.py\<close>) removes expired entries of either.

  \<^bold>\<open>The theories.\<close>
  \<^item> \<open>Prelude\<close>: Python values, exceptions and results, decimal printing, list lemmas.
  \<^item> \<open>Domain\<close>, \<open>Results\<close>: the validators and the result types with their conversions.
  \<^item> \<open>OrderedDict\<close>: the operations of \<^verbatim>\<open>collections.OrderedDict\<close> the store uses, on a list of pairs
    in the dictionary's order.
  \<^item> \<open>StoreModels\<close>: entries, limits, the attributes common to the backends, and the clock. The
    clock is a sequence of readings together with the number consumed, so every call of the clock in
    the source is one in the model, in the same order.
  \<^item> \<open>MemoryStore\<close>: the methods of \<^verbatim>\<open>CacheStore\<close>, the two eviction loops included. Each public method
    holds the lock from its first access to its last, so it is one atomic step.
  \<^item> \<open>MemoryInvariant\<close>, \<open>MemoryOps\<close>: the well-formedness invariant \<open>mem_inv\<close>, closed forms of the loops
    and of the writes, preservation by every operation, and runs of operations.
  \<^item> \<open>MemoryProps\<close>: bounds and accounting in every reachable state, the exact effect of every
    operation, minimal least-recently-used eviction, expiry, frames, statistics.
  \<^item> \<open>Cleaner\<close>: the cleanup thread as a step function over three callbacks, interleaved with clients
    by an inductive step relation; the locale \<open>expiring_store\<close> is what it needs from a store, and
    \<open>mem_cleaner\<close> interprets it on the memory store.
  \<^item> \<open>Port\<close>: the port as a record and its contract, the locale \<open>cache_backend\<close>.
  \<^item> \<open>Service\<close>: the application service over any port, the injectivity of the storage keys, and the
    abstract specification: a lossy map, which may forget a value but never shows a wrong one.
  \<^item> \<open>MemoryBackend\<close>: the interpretation \<open>mem_backend\<close> of the contract on the memory store, and what a
    client of the service sees: refinement of the lossy map, isolation of the namespaces, reading
    one's own writes.
  \<^item> \<open>Contracts\<close>, \<open>RequestLifecycle\<close>, \<open>BatchMapping\<close>, \<open>Servicer\<close>: the messages of \<^verbatim>\<open>cache.proto\<close>, the
    world of a handler (application state, request id, log, status), and the nine handlers.
  \<^item> \<open>HandlerFacts\<close>, \<open>GrpcProps\<close>: the handlers as pure functions of the application's results, the locale
    \<open>cache_application\<close> with the sublocale that derives it from any backend, and the end-to-end
    properties over the memory store.
  \<^item> \<open>Interceptors\<close>: the counter of active requests, the request id scope around unary and streaming
    behaviours, and the wrapping of method handlers.
  \<^item> \<open>Config\<close>: the readers of environment variables, with \<^verbatim>\<open>int\<close>, \<^verbatim>\<open>repr\<close> and \<^verbatim>\<open>upper\<close> of Python, and
    \<^verbatim>\<open>load_settings\<close>.
  \<^item> \<open>SqliteStore\<close>: the methods of \<^verbatim>\<open>SqliteCacheStore\<close> over a table that is a list of rows. Every SQL
    statement is a step that may raise, decided by a predicate on its position, and then has no effect.
  \<^item> \<open>SqliteInvariant\<close>, \<open>SqliteBackend\<close>: the accounting \<open>sq_consistent\<close>, preserved whatever raises; the
    contents after each operation when nothing raises (\<open>sq_inv\<close>).
  \<^item> \<open>SqlitePort\<close>, \<open>SqliteProps\<close>: the interpretations \<open>sq_backend\<close> of \<open>cache_backend\<close> and \<open>sq_cleaner\<close> of
    \<open>expiring_store\<close>, and the properties: accounting, restart, eviction, expiry, a failed update.
  \<^item> \<open>StoreFactory\<close>: the choice of the backend, the interpretation \<open>any_backend\<close> of the contract on
    either, and the service as it is configured.
  \<^item> \<open>SqliteRestart\<close>: processes that open the same database file one after the other.
  \<^item> \<open>HealthApp\<close>: the HTTP middleware, the endpoints and the routes.
  \<^item> \<open>Startup\<close>: TLS, \<^verbatim>\<open>serve\<close>, the shutdown and \<^verbatim>\<open>main\<close>, as a trace of the calls into the libraries;
    an environment decides which of them raise, so every failure is covered.
  \<^item> \<open>Codecs\<close>, \<open>Cli\<close>, \<open>CliProps\<close>: base64, hexadecimal and UTF-8 as Python has them, the client from its
    parsed arguments on, and its properties, of which the last joins the client, the interceptor, the
    handlers, the service and both backends.
  \<^item> \<open>CliParser\<close>, \<open>CliParserProps\<close>: the options of the client as data, what \<^verbatim>\<open>argparse\<close> does with the options
    it recognises, the typing of the result, and the whole program on a command line.
  \<^item> \<open>LogFormat\<close>: the log records (\<^verbatim>\<open>infrastructure/logging.py\<close>), the JSON text they become, and a reader
    of it.
  \<^item> This theory: the metrics over the memory store.

  \<^bold>\<open>Loops and termination.\<close> The eviction loops are functions whose termination proofs use the
  length of the dictionary or of the table; every other loop runs over a list. Nothing is bounded by fuel. The cleanup
  thread runs for ever by design; what is proved of it is that it stops once asked to, that a step
  removes only what is expired, and that a pass removes what had expired before it.

  \<^bold>\<open>Choices and limits of the model.\<close>
  \<^item> Characters are the code points below 256; \<^verbatim>\<open>str.strip\<close> and \<^verbatim>\<open>str.lower\<close> are theirs.
  \<^item> Times are real numbers, not floating point; a clock may be any sequence, and the lemmas that need
    one that never goes back say so.
  \<^item> The size of a value is that of a 64-bit CPython \<^verbatim>\<open>bytes\<close> object.
  \<^item> A handler is a sequential function: its only access to shared state is the call of the
    application, and a batch makes one call per item. The application is an arbitrary state
    transformer, so interference between the items of a batch is an instance of the same theorems.
  \<^item> Start times and durations are left out, since they only reach the debug log; the waiting time of
    the cleanup thread and the timeout of its join are left out too.
  \<^item> The protobuf library's check of integer ranges is a parameter of \<open>cache_stats_response\<close>, the
    ids of \<^verbatim>\<open>uuid4\<close> a sequence in the world of a handler.
  \<^item> What gRPC documents of a unary call is the predicate \<open>delivers\<close> on the stub of the client. Reading and
    writing files, the generated identifiers and the validation of pydantic are parameters too.
  \<^item> In \<open>serve\<close> the shutdown task runs while the service only waits, so its calls are one block of the
    trace; all signals arrive during the wait.
  \<^item> Output to the standard streams never raises. The text of a \<^verbatim>\<open>UnicodeDecodeError\<close> and the printing of a
    floating point number are parameters.

  \<^item> \<open>parse_args\<close> starts from options told from positional arguments and spelled in full.

  \<^bold>\<open>Not modelled.\<close> How \<^verbatim>\<open>argparse\<close> splits the words of a command line into options and positional
  arguments and completes abbreviations: it differs between the versions of Python the project supports.
  SQLite, gRPC, aiohttp and protobuf themselves. \<^verbatim>\<open>SqliteCacheStore.stop\<close> is its last part, the closing
  of the connection; joining the thread is modelled once, with the memory store. Nothing in the service
  depends on how its log is written, so \<^verbatim>\<open>main\<close> and \<open>LogFormat\<close> are separate.
\<close>

section \<open>The metrics over the memory store\<close>

text \<open>A snapshot of a well-formed store: its ratios lie between zero and one.\<close>

lemma ratio_bounds:
  "0 \<le> (a::int) \<Longrightarrow> a \<le> b \<Longrightarrow>
     0 \<le> (if b > 0 then real_of_int a / of_int b else 0) \<and> (if b > 0 then real_of_int a / of_int b else 0) \<le> 1"
  by simp

lemma snapshot_ratios:
  assumes "mem_inv s"
  shows "0 \<le> item_saturation_ratio (mem_snapshot_stats s) \<and> item_saturation_ratio (mem_snapshot_stats s) \<le> 1 \<and>
    0 \<le> memory_saturation_ratio (mem_snapshot_stats s) \<and> memory_saturation_ratio (mem_snapshot_stats s) \<le> 1 \<and>
    0 \<le> st_hit_rate (mem_snapshot_stats s) \<and> st_hit_rate (mem_snapshot_stats s) \<le> 1"
proof -
  have "0 \<le> current_memory_bytes s" "current_memory_bytes s \<le> max_memory_bytes s"
    "int (length (store s)) \<le> max_items s" "0 \<le> hits s" "0 \<le> misses s"
    using assms by (auto simp: mem_inv_def state_wf_def intro: total_size_nonneg)
  then show ?thesis
    using ratio_bounds [of "int (length (store s))" "max_items s"]
      ratio_bounds [of "current_memory_bytes s" "max_memory_bytes s"]
      ratio_bounds [of "hits s" "hits s + misses s"]
    by (simp add: item_saturation_ratio_def memory_saturation_ratio_def mem_snapshot_stats_def Let_def)
qed


text \<open>The full sample store behind the HTTP application, with three calls in flight.\<close>

definition metrics_world :: "cache_store http_world" where
  "metrics_world =
     \<lparr> hw_app = sample_full, hw_active_requests = 3, hw_monotonic = real, hw_monotonic_reads = 0,
       hw_time = real, hw_time_reads = 0, hw_request_id = ''-'', hw_uuid = (\<lambda>_. ''u1''), hw_uuid_reads = 0,
       hw_log = [] \<rparr>"


end
